theory Spec2Isabelle
  imports Complex_Main
begin

section \<open>JavaScript values and the runtime the connector runs on\<close>

text \<open>
  The connector is three TypeScript functions that call the PostHog REST API with
  \<^verbatim>\<open>fetch\<close> and reshape the parsed JSON. The embedding follows the declared interfaces:
  an interface is a record, and an optional field \<^verbatim>\<open>f?: T\<close> is a field of type
  \<open>T optional\<close>: \<open>Undefined\<close> when the parsed object has no such key, \<open>Null\<close> when the
  key holds \<^verbatim>\<open>null\<close> (the cast of \<^verbatim>\<open>response.json()\<close> checks nothing, and the upstream
  does send \<^verbatim>\<open>null\<close>), \<open>Val v\<close> otherwise. A field of type \<^verbatim>\<open>T | null\<close> of a returned
  object is a field of type \<open>T optional\<close> too: a key whose value is \<^verbatim>\<open>undefined\<close> is left
  out when the object is serialised, so that a returned field is never \<open>Undefined\<close> is a
  property of the code, not of the types. A JavaScript \<^verbatim>\<open>number\<close> is a \<open>real\<close> (no
  arithmetic is done on any of them) except the length of an array, which is a \<open>nat\<close>,
  and a value of type \<^verbatim>\<open>any\<close> is a \<open>json\<close> tree, or \<open>None\<close> for \<^verbatim>\<open>undefined\<close> where it may
  be absent (\<open>json option\<close>). Record fields are global names in Isabelle, so each field
  carries a short prefix for its interface: \<open>api_\<close> PostHogAPIResponse, \<open>qr_\<close>
  PostHogQueryResponse, \<open>pd_\<close> PostHogDashboard, \<open>ds_\<close> DashboardSummary, and so on.
  A character of a \<open>string\<close> stands for a UTF-16 code unit below 256.
\<close>

datatype json =
    JNull
  | JBool bool
  | JNum real
  | JStr string
  | JArr "json list"
  | JObj "(string \<times> json) list"

text \<open>
  Every value thrown inside the three \<^verbatim>\<open>try\<close> blocks is an instance of \<^verbatim>\<open>Error\<close>
  (the \<^verbatim>\<open>Error\<close> of a failed status, the \<^verbatim>\<open>TypeError\<close> of a rejected \<^verbatim>\<open>fetch\<close> or of a
  property read on \<^verbatim>\<open>null\<close>, the \<^verbatim>\<open>SyntaxError\<close> of \<^verbatim>\<open>response.json()\<close>), and the
  \<^verbatim>\<open>catch\<close> blocks read only its \<^verbatim>\<open>message\<close>.
\<close>

datatype js_error = JsError (message: string)

datatype sdk_error = UnprocessableContent string

datatype 'a optional = Undefined | Null | Val 'a

text \<open>\<^verbatim>\<open>a == null\<close>: \<open>a\<close> is \<^verbatim>\<open>null\<close> or \<^verbatim>\<open>undefined\<close>.\<close>

definition nullish :: "'a optional \<Rightarrow> bool" where
  "nullish a = (case a of Val v \<Rightarrow> False | _ \<Rightarrow> True)"

text \<open>
  \<^verbatim>\<open>a ?? b\<close>, the value of \<open>b\<close> when \<open>a\<close> is \<^verbatim>\<open>null\<close> or \<^verbatim>\<open>undefined\<close>: with a default that is
  a value, and with a default that may be \<^verbatim>\<open>null\<close> or \<^verbatim>\<open>undefined\<close> itself.
\<close>

definition or_else :: "'a optional \<Rightarrow> 'a \<Rightarrow> 'a" where
  "or_else a b = (case a of Val v \<Rightarrow> v | _ \<Rightarrow> b)"

definition coalesce :: "'a optional \<Rightarrow> 'a optional \<Rightarrow> 'a optional" where
  "coalesce a b = (case a of Val v \<Rightarrow> Val v | _ \<Rightarrow> b)"

text \<open>
  \<^verbatim>\<open>a?.f\<close>: \<^verbatim>\<open>undefined\<close> when \<open>a\<close> is \<^verbatim>\<open>null\<close> or \<^verbatim>\<open>undefined\<close>, the field \<open>f\<close> of \<open>a\<close>
  otherwise.
\<close>

definition chain :: "'a optional \<Rightarrow> ('a \<Rightarrow> 'b optional) \<Rightarrow> 'b optional" where
  "chain a f = (case a of Val v \<Rightarrow> f v | _ \<Rightarrow> Undefined)"

text \<open>Truthiness of a value of type \<^verbatim>\<open>string | null\<close>.\<close>

definition truthy_url :: "string optional \<Rightarrow> bool" where
  "truthy_url a = (case a of Val s \<Rightarrow> s \<noteq> [] | _ \<Rightarrow> False)"

text \<open>
  Truthiness of an environment value (\<^verbatim>\<open>string | undefined\<close>): \<^verbatim>\<open>undefined\<close> and the
  empty string are falsy.
\<close>

definition truthy_str :: "string option \<Rightarrow> bool" where
  "truthy_str v = (case v of None \<Rightarrow> False | Some s \<Rightarrow> s \<noteq> [])"

text \<open>\<^verbatim>\<open>a || b\<close> on strings.\<close>

definition or_str :: "string option \<Rightarrow> string \<Rightarrow> string" where
  "or_str a b = (case a of None \<Rightarrow> b | Some s \<Rightarrow> if s \<noteq> [] then s else b)"

text \<open>
  An environment value after the check \<^verbatim>\<open>if (!x) throw ...\<close>, where its type is narrowed
  to \<^verbatim>\<open>string\<close>.
\<close>

definition narrowed :: "string option \<Rightarrow> string" where
  "narrowed a = (case a of None \<Rightarrow> [] | Some s \<Rightarrow> s)"

text \<open>
  Truthiness of a parsed JSON value that may be \<^verbatim>\<open>undefined\<close> (\<open>None\<close>). A number parsed
  from JSON is never NaN.
\<close>

fun truthy :: "json option \<Rightarrow> bool" where
  "truthy None = False"
| "truthy (Some JNull) = False"
| "truthy (Some (JBool b)) = b"
| "truthy (Some (JNum n)) = (n \<noteq> 0)"
| "truthy (Some (JStr s)) = (s \<noteq> [])"
| "truthy (Some (JArr xs)) = True"
| "truthy (Some (JObj kvs)) = True"

text \<open>
  The decimal text of a status code in a template literal. \<^verbatim>\<open>Response.status\<close> is a
  natural number, for which \<^verbatim>\<open>Number.prototype.toString\<close> gives the plain decimal digits.
\<close>

definition digit :: "nat \<Rightarrow> char" where
  "digit d = ''0123456789'' ! d"

fun decimal :: "nat \<Rightarrow> string" where
  "decimal n = (if n < 10 then [digit n] else decimal (n div 10) @ [digit (n mod 10)])"

declare decimal.simps [simp del]

subsection \<open>The HTTP capability\<close>

text \<open>
  \<^verbatim>\<open>fetch\<close> is the connector's only effect. It is a parameter of every operation: a
  function from the request and the state of the outside world to the outcome of the
  call (a rejection, or a response) and the next state of the world. Each operation
  returns, with its result, the list of the requests it has made, in order, and the
  world it leaves behind. A response carries its status and what \<^verbatim>\<open>response.text()\<close>
  and \<^verbatim>\<open>response.json()\<close> give, either of which may reject; the parsed body is read at
  the interface type the source casts it to.
\<close>

record request =
  req_method :: string
  req_url :: string
  req_headers :: "(string \<times> string) list"
  req_body :: "string option"

record 'd response =
  status :: nat
  body_text :: "js_error + string"
  body_json :: "js_error + 'd"

definition ok :: "'d response \<Rightarrow> bool" where
  "ok r = (200 \<le> status r \<and> status r \<le> 299)"

type_synonym ('d, 'w) fetch = "request \<Rightarrow> 'w \<Rightarrow> (js_error + 'd response) \<times> 'w"

type_synonym env = "string \<rightharpoonup> string"

text \<open>
  What the body of a \<^verbatim>\<open>try\<close> block does with the outcome of one \<^verbatim>\<open>fetch\<close>, up to the
  parsed body: a rejection is rethrown, a status outside 200..299 throws
  \<^verbatim>\<open>new Error(`PostHog API error: ${response.status} - ${errorText}`)\<close>, and otherwise
  \<^verbatim>\<open>await response.json()\<close> gives the data or throws. The three operations share these
  lines verbatim.
\<close>

definition read_json :: "js_error + 'd response \<Rightarrow> js_error + 'd" where
  "read_json r =
     (case r of
        Inl e \<Rightarrow> Inl e
      | Inr response \<Rightarrow>
          if \<not> ok response then
            (case body_text response of
               Inl e \<Rightarrow> Inl e
             | Inr errorText \<Rightarrow>
                 Inl (JsError (''PostHog API error: '' @ decimal (status response)
                               @ '' - '' @ errorText)))
          else body_json response)"

section \<open>run\_posthog\_sql\<close>

record timing =
  timing_k :: string
  timing_t :: real

record PostHogAPIResponse =
  api_columns :: "string list optional"
  api_results :: "json list list optional"
  api_hasMore :: "bool optional"
  api_limit :: "real optional"
  api_offset :: "real optional"
  api_is_cached :: "bool optional"
  api_timings :: "timing list optional"

record PostHogQueryResponse =
  qr_columns :: "string list"
  qr_results :: "string list"
  qr_hasMore :: bool
  qr_limit :: "real optional"
  qr_offset :: "real optional"
  qr_isCached :: bool
  qr_executionTime :: "real optional"

text \<open>\<^verbatim>\<open>xs.find(p)\<close>: the first element that satisfies \<open>p\<close>, or \<^verbatim>\<open>undefined\<close>.\<close>

definition array_find :: "('a \<Rightarrow> bool) \<Rightarrow> 'a list \<Rightarrow> 'a optional" where
  "array_find p xs = (case find p xs of None \<Rightarrow> Undefined | Some x \<Rightarrow> Val x)"

text \<open>
  The object the function returns. \<^verbatim>\<open>JSON.stringify\<close> is a parameter (\<open>stringify\<close>): it
  is the runtime's, and no property here depends on the text it produces.
\<close>

definition query_response :: "(json \<Rightarrow> string) \<Rightarrow> PostHogAPIResponse \<Rightarrow> PostHogQueryResponse" where
  "query_response stringify data =
     (let stringifiedResults = map (\<lambda>row. stringify (JArr row)) (or_else (api_results data) [])
      in \<lparr> qr_columns = or_else (api_columns data) [],
           qr_results = stringifiedResults,
           qr_hasMore = or_else (api_hasMore data) False,
           qr_limit = coalesce (api_limit data) Null,
           qr_offset = coalesce (api_offset data) Null,
           qr_isCached = or_else (api_is_cached data) False,
           qr_executionTime =
             coalesce
               (chain (chain (api_timings data) (array_find (\<lambda>t. timing_k t = ''query'')))
                  (\<lambda>t. Val (timing_t t)))
               Null \<rparr>)"

definition query_request :: "(json \<Rightarrow> string) \<Rightarrow> string \<Rightarrow> string \<Rightarrow> string \<Rightarrow> string \<Rightarrow> request" where
  "query_request stringify HOST PROJECT_ID API_KEY sql =
     \<lparr> req_method = ''POST'',
       req_url = ''https://'' @ HOST @ ''/api/projects/'' @ PROJECT_ID @ ''/query'',
       req_headers = [(''Content-Type'', ''application/json''),
                      (''Authorization'', ''Bearer '' @ API_KEY)],
       req_body = Some (stringify (JObj [(''query'',
                     JObj [(''kind'', JStr ''HogQLQuery''), (''query'', JStr sql)])])) \<rparr>"

text \<open>
  The body of the \<^verbatim>\<open>try\<close> block: one request, then the mapping. It runs after the
  two checks, where \<^verbatim>\<open>API_KEY\<close> and \<^verbatim>\<open>PROJECT_ID\<close> are strings that are not empty:
  the operation passes them on as \<open>narrowed API_KEY\<close> and \<open>narrowed PROJECT_ID\<close>.
\<close>

definition run_posthog_sql_try ::
  "(json \<Rightarrow> string) \<Rightarrow> (PostHogAPIResponse, 'w) fetch \<Rightarrow> string \<Rightarrow> string \<Rightarrow> string \<Rightarrow> string \<Rightarrow> 'w
     \<Rightarrow> (js_error + PostHogQueryResponse) \<times> request list \<times> 'w" where
  "run_posthog_sql_try stringify fetch HOST PROJECT_ID API_KEY sql w =
     (let req = query_request stringify HOST PROJECT_ID API_KEY sql;
          r = fetch req w
      in (case read_json (fst r) of
            Inl e \<Rightarrow> Inl e
          | Inr data \<Rightarrow> Inr (query_response stringify data),
          [req], snd r))"

definition run_posthog_sql ::
  "(json \<Rightarrow> string) \<Rightarrow> (PostHogAPIResponse, 'w) fetch \<Rightarrow> env \<Rightarrow> string \<Rightarrow> 'w
     \<Rightarrow> (sdk_error + PostHogQueryResponse) \<times> request list \<times> 'w" where
  "run_posthog_sql stringify fetch env sql w =
     (let API_KEY = env ''POSTHOG_API_KEY'';
          PROJECT_ID = env ''POSTHOG_PROJECT_ID'';
          HOST = or_str (env ''POSTHOG_HOST'') ''us.posthog.com''
      in if \<not> truthy_str API_KEY then
           (Inl (UnprocessableContent ''POSTHOG_API_KEY environment variable is required''), [], w)
         else if \<not> truthy_str PROJECT_ID then
           (Inl (UnprocessableContent ''POSTHOG_PROJECT_ID environment variable is required''), [], w)
         else
           (case run_posthog_sql_try stringify fetch HOST (narrowed PROJECT_ID)
                   (narrowed API_KEY) sql w of
              (Inl error, calls, w') \<Rightarrow>
                (Inl (UnprocessableContent (''PostHog query failed: '' @ message error)), calls, w')
            | (Inr r, calls, w') \<Rightarrow> (Inr r, calls, w')))"

section \<open>list\_posthog\_dashboards\<close>

record creator =
  cb_id :: "real optional"
  cb_email :: "string optional"
  cb_first_name :: "string optional"

record PostHogTileInsight =
  ti_id :: real
  ti_short_id :: "string optional"
  ti_name :: "string optional"
  ti_derived_name :: "string optional"
  ti_description :: "string optional"

record PostHogTile =
  tile_id :: "real optional"
  tile_insight :: "PostHogTileInsight optional"

record PostHogDashboard =
  pd_id :: real
  pd_name :: "string optional"
  pd_description :: "string optional"
  pd_tags :: "string list optional"
  pd_pinned :: "bool optional"
  pd_created_at :: "string optional"
  pd_created_by :: "creator optional"
  pd_last_accessed_at :: "string optional"
  pd_tiles :: "PostHogTile list optional"

record PostHogDashboardListResponse =
  dl_count :: "real optional"
  dl_next :: "string optional"
  dl_previous :: "string optional"
  dl_results :: "PostHogDashboard list optional"

record InsightSummary =
  is_id :: real
  is_shortId :: "string optional"
  is_name :: "string optional"
  is_description :: "string optional"

record DashboardSummary =
  ds_id :: real
  ds_name :: "string optional"
  ds_description :: "string optional"
  ds_tags :: "string list"
  ds_pinned :: bool
  ds_createdAt :: "string optional"
  ds_createdBy :: "string optional"
  ds_lastAccessedAt :: "string optional"
  ds_insightCount :: nat
  ds_insights :: "InsightSummary list"

record ListDashboardsResponse =
  ld_dashboards :: "DashboardSummary list"
  ld_totalCount :: nat

text \<open>
  The \<^verbatim>\<open>TypeError\<close> of reading property \<open>p\<close> of \<^verbatim>\<open>null\<close> or \<^verbatim>\<open>undefined\<close> (\<open>v\<close> names
  which), with the message Node gives it.
\<close>

definition type_error :: "string \<Rightarrow> string \<Rightarrow> js_error" where
  "type_error v p =
     JsError (''Cannot read properties of '' @ v @ '' (reading '' @ [CHR 0x27] @ p @ [CHR 0x27] @ '')'')"

text \<open>\<^verbatim>\<open>xs.map(f)\<close> with a callback that may throw: the first throw ends the map.\<close>

fun map_throw :: "('a \<Rightarrow> 'e + 'b) \<Rightarrow> 'a list \<Rightarrow> 'e + 'b list" where
  "map_throw f [] = Inr []"
| "map_throw f (x # xs) =
     (case f x of
        Inl e \<Rightarrow> Inl e
      | Inr y \<Rightarrow> (case map_throw f xs of Inl e \<Rightarrow> Inl e | Inr ys \<Rightarrow> Inr (y # ys)))"

text \<open>
  The callback of \<^verbatim>\<open>.map\<close> over the tiles. \<^verbatim>\<open>tile.insight!\<close> asserts nothing at run time:
  reading a property of an absent insight would throw.
\<close>

definition insight_summary :: "PostHogTile \<Rightarrow> js_error + InsightSummary" where
  "insight_summary tile =
     (case tile_insight tile of
        Val insight \<Rightarrow>
          Inr \<lparr> is_id = ti_id insight,
                is_shortId = coalesce (ti_short_id insight) Null,
                is_name = coalesce (ti_name insight) (coalesce (ti_derived_name insight) Null),
                is_description = coalesce (ti_description insight) Null \<rparr>
      | Null \<Rightarrow> Inl (type_error ''null'' ''id'')
      | Undefined \<Rightarrow> Inl (type_error ''undefined'' ''id''))"

text \<open>The body of the \<^verbatim>\<open>for\<close> loop over one page's dashboards, up to the pushed object.\<close>

definition dashboard_summary :: "PostHogDashboard \<Rightarrow> js_error + DashboardSummary" where
  "dashboard_summary dashboard =
     (case map_throw insight_summary
             (filter (\<lambda>tile. \<not> nullish (tile_insight tile)) (or_else (pd_tiles dashboard) [])) of
        Inl e \<Rightarrow> Inl e
      | Inr insights \<Rightarrow>
          Inr \<lparr> ds_id = pd_id dashboard,
                ds_name = coalesce (pd_name dashboard) Null,
                ds_description = coalesce (pd_description dashboard) Null,
                ds_tags = or_else (pd_tags dashboard) [],
                ds_pinned = or_else (pd_pinned dashboard) False,
                ds_createdAt = coalesce (pd_created_at dashboard) Null,
                ds_createdBy =
                  coalesce (chain (pd_created_by dashboard) cb_email)
                    (coalesce (chain (pd_created_by dashboard) cb_first_name) Null),
                ds_lastAccessedAt = coalesce (pd_last_accessed_at dashboard) Null,
                ds_insightCount = length insights,
                ds_insights = insights \<rparr>)"

text \<open>The \<^verbatim>\<open>for\<close> loop over one page: each dashboard's summary is pushed in turn.\<close>

fun push_all :: "DashboardSummary list \<Rightarrow> PostHogDashboard list \<Rightarrow> js_error + DashboardSummary list" where
  "push_all allDashboards [] = Inr allDashboards"
| "push_all allDashboards (dashboard # rest) =
     (case dashboard_summary dashboard of
        Inl e \<Rightarrow> Inl e
      | Inr s \<Rightarrow> push_all (allDashboards @ [s]) rest)"

definition page_request :: "string \<Rightarrow> string \<Rightarrow> request" where
  "page_request API_KEY nextUrl =
     \<lparr> req_method = ''GET'',
       req_url = nextUrl,
       req_headers = [(''Content-Type'', ''application/json''),
                      (''Authorization'', ''Bearer '' @ API_KEY)],
       req_body = None \<rparr>"

text \<open>
  The \<^verbatim>\<open>while (nextUrl)\<close> loop. Nothing bounds it, so it is a partial function: \<open>None\<close> is
  the loop that never ends. \<open>calls\<close> is the list of the requests made so far.
\<close>

partial_function (option) paginate ::
  "(PostHogDashboardListResponse, 'w) fetch \<Rightarrow> string \<Rightarrow> string optional \<Rightarrow> DashboardSummary list
     \<Rightarrow> request list \<Rightarrow> 'w \<Rightarrow> ((js_error + DashboardSummary list) \<times> request list \<times> 'w) option" where
  "paginate fetch API_KEY nextUrl allDashboards calls w =
     (if \<not> truthy_url nextUrl then Some (Inr allDashboards, calls, w)
      else
        let req = page_request API_KEY (or_else nextUrl []);
            r = fetch req w
        in (case read_json (fst r) of
              Inl e \<Rightarrow> Some (Inl e, calls @ [req], snd r)
            | Inr data \<Rightarrow>
                (case push_all allDashboards (or_else (dl_results data) []) of
                   Inl e \<Rightarrow> Some (Inl e, calls @ [req], snd r)
                 | Inr pushed \<Rightarrow>
                     paginate fetch API_KEY (coalesce (dl_next data) Null) pushed
                       (calls @ [req]) (snd r))))"

definition list_posthog_dashboards ::
  "(PostHogDashboardListResponse, 'w) fetch \<Rightarrow> env \<Rightarrow> 'w
     \<Rightarrow> ((sdk_error + ListDashboardsResponse) \<times> request list \<times> 'w) option" where
  "list_posthog_dashboards fetch env w =
     (let API_KEY = env ''POSTHOG_API_KEY'';
          PROJECT_ID = env ''POSTHOG_PROJECT_ID'';
          HOST = or_str (env ''POSTHOG_HOST'') ''us.posthog.com''
      in if \<not> truthy_str API_KEY then
           Some (Inl (UnprocessableContent ''POSTHOG_API_KEY environment variable is required''), [], w)
         else if \<not> truthy_str PROJECT_ID then
           Some (Inl (UnprocessableContent ''POSTHOG_PROJECT_ID environment variable is required''), [], w)
         else
           (case paginate fetch (narrowed API_KEY)
                   (Val (''https://'' @ HOST @ ''/api/projects/'' @ narrowed PROJECT_ID
                          @ ''/dashboards/''))
                   [] [] w of
              None \<Rightarrow> None
            | Some (Inl error, calls, w') \<Rightarrow>
                Some (Inl (UnprocessableContent (''Failed to list dashboards: '' @ message error)),
                      calls, w')
            | Some (Inr allDashboards, calls, w') \<Rightarrow>
                Some (Inr \<lparr> ld_dashboards = allDashboards,
                            ld_totalCount = length allDashboards \<rparr>, calls, w')))"

section \<open>get\_posthog\_insight\<close>

record dashboard_object =
  do_id :: real
  do_name :: "string optional"

text \<open>An entry of \<^verbatim>\<open>dashboards?: Array<number | { id: number; name?: string }>\<close>.\<close>

datatype dashboard_entry = EntryNumber real | EntryObject dashboard_object

record PostHogInsightResponse =
  ir_id :: real
  ir_short_id :: "string optional"
  ir_name :: "string optional"
  ir_derived_name :: "string optional"
  ir_description :: "string optional"
  ir_tags :: "string list optional"
  ir_favorited :: "bool optional"
  ir_last_refresh :: "string optional"
  ir_last_modified_at :: "string optional"
  ir_created_at :: "string optional"
  ir_created_by :: "creator optional"
  ir_query :: "json option"
  ir_filters :: "json option"
  ir_hogql :: "string optional"
  ir_dashboards :: "dashboard_entry list optional"

record DashboardReference =
  dr_id :: real
  dr_name :: "string optional"

text \<open>
  \<^verbatim>\<open>queryKind\<close> and the elements of \<^verbatim>\<open>trackedEvents\<close> are declared strings, but the
  values come out of \<^verbatim>\<open>any\<close> unchecked, so they are \<open>json\<close> here (\<open>JNull\<close> is \<^verbatim>\<open>null\<close>).
\<close>

record InsightDetailResponse =
  idr_id :: real
  idr_shortId :: "string optional"
  idr_name :: "string optional"
  idr_derivedName :: "string optional"
  idr_description :: "string optional"
  idr_tags :: "string list"
  idr_favorited :: bool
  idr_lastRefresh :: "string optional"
  idr_lastModifiedAt :: "string optional"
  idr_createdAt :: "string optional"
  idr_createdBy :: "string optional"
  idr_query :: "string optional"
  idr_filters :: "string optional"
  idr_hogql :: "string optional"
  idr_dashboards :: "DashboardReference list"
  idr_queryKind :: json
  idr_trackedEvents :: "json list"

subsection \<open>Reading properties of parsed JSON\<close>

text \<open>
  \<^verbatim>\<open>v.p\<close> for a value \<open>v\<close> that is not \<^verbatim>\<open>null\<close> and a property name that is neither an
  index nor a member of a prototype (\<open>series\<close>, \<open>query\<close>, \<open>events\<close>, \<open>actions\<close>,
  \<open>event\<close>, \<open>name\<close>, \<open>id\<close>, \<open>kind\<close>): an object gives the value under the key, or
  \<^verbatim>\<open>undefined\<close>; a boolean, number, string or array gives \<^verbatim>\<open>undefined\<close>. A parsed object
  holds each key once; the association list is read at the first binding of a key.
\<close>

fun get_prop :: "json \<Rightarrow> string \<Rightarrow> json option" where
  "get_prop (JObj kvs) p = map_of kvs p"
| "get_prop v p = None"

text \<open>\<^verbatim>\<open>v.p\<close> for any parsed value: reading a property of \<^verbatim>\<open>null\<close> throws.\<close>

definition read_prop :: "json \<Rightarrow> string \<Rightarrow> js_error + json option" where
  "read_prop v p = (if v = JNull then Inl (type_error ''null'' p) else Inr (get_prop v p))"

text \<open>\<^verbatim>\<open>q.p\<close> after a guard \<^verbatim>\<open>if (q)\<close>: \<open>q\<close> is truthy, so it is there and not \<^verbatim>\<open>null\<close>.\<close>

definition prop_of :: "json option \<Rightarrow> string \<Rightarrow> json option" where
  "prop_of q p = (case q of None \<Rightarrow> None | Some v \<Rightarrow> get_prop v p)"

definition extractQueryKind :: "json option \<Rightarrow> json" where
  "extractQueryKind query =
     (if \<not> truthy query then JNull
      else (case query of
              Some (JObj kvs) \<Rightarrow> (case map_of kvs ''kind'' of Some kind \<Rightarrow> kind | None \<Rightarrow> JNull)
            | _ \<Rightarrow> JNull))"

subsection \<open>The set of events\<close>

text \<open>
  A JavaScript \<^verbatim>\<open>Set\<close> keeps its elements in insertion order, which \<^verbatim>\<open>Array.from\<close>
  returns; it is the list of its elements here. \<^verbatim>\<open>add\<close> compares with SameValueZero:
  booleans, numbers and strings by value, arrays and objects by identity. Every array
  or object that reaches \<^verbatim>\<open>add\<close> is a different node of the parsed tree (each of
  \<^verbatim>\<open>series[i].event\<close>, \<^verbatim>\<open>series[i].name\<close>, \<^verbatim>\<open>events[i].id\<close>, ... is read once), so two of
  them are never the same.
\<close>

definition same_value_zero :: "json \<Rightarrow> json \<Rightarrow> bool" where
  "same_value_zero a b =
     (case a of JArr xs \<Rightarrow> False | JObj kvs \<Rightarrow> False | _ \<Rightarrow> a = b)"

definition set_add :: "json list \<Rightarrow> json \<Rightarrow> json list" where
  "set_add events v = (if list_ex (same_value_zero v) events then events else events @ [v])"

text \<open>\<^verbatim>\<open>if (x) events.add(x)\<close>.\<close>

definition add_if_truthy :: "json list \<Rightarrow> json option \<Rightarrow> json list" where
  "add_if_truthy events x =
     (case x of None \<Rightarrow> events | Some v \<Rightarrow> if truthy (Some v) then set_add events v else events)"

subsection \<open>The two regular expressions\<close>

text \<open>
  \<^verbatim>\<open>/event\s*=\s*'([^']+)'/gi\<close> and \<^verbatim>\<open>/'([^']+)'/\<close>. With the \<^verbatim>\<open>i\<close> flag and no \<^verbatim>\<open>u\<close> flag a
  pattern letter matches itself and its other ASCII case only; \<^verbatim>\<open>\s\<close> is the white space
  and line terminators of the language, of which TAB, LF, VT, FF, CR, SP and NBSP lie
  below 256. Each greedy quantifier of the patterns is followed by a character outside
  its class, so the backtracking matcher succeeds exactly when the longest runs do.
\<close>

definition quote :: char where
  "quote = CHR 0x27"

definition is_space :: "char \<Rightarrow> bool" where
  "is_space c = (c \<in> set [CHR 0x09, CHR 0x0A, CHR 0x0B, CHR 0x0C, CHR 0x0D, CHR 0x20, CHR 0xA0])"

definition is_event_word :: "string \<Rightarrow> bool" where
  "is_event_word s = list_all2 (\<lambda>c alts. c \<in> set alts) s [''eE'', ''vV'', ''eE'', ''nN'', ''tT'']"

text \<open>
  A match of the first pattern at the very start of \<open>s\<close>: the matched text, its capture
  group and what follows the match.
\<close>

definition event_match_here :: "string \<Rightarrow> (string \<times> string \<times> string) option" where
  "event_match_here s =
     (let word = take 5 s;
          ws1 = takeWhile is_space (drop 5 s);
          r1 = dropWhile is_space (drop 5 s)
      in if \<not> is_event_word word then None
         else (case r1 of
                 [] \<Rightarrow> None
               | c # r2 \<Rightarrow>
                   if c \<noteq> CHR ''='' then None
                   else (let ws2 = takeWhile is_space r2 in
                         case dropWhile is_space r2 of
                           [] \<Rightarrow> None
                         | q # r3 \<Rightarrow>
                             if q \<noteq> quote then None
                             else (let v = takeWhile (\<lambda>x. x \<noteq> quote) r3 in
                                   case dropWhile (\<lambda>x. x \<noteq> quote) r3 of
                                     [] \<Rightarrow> None
                                   | q' # rest \<Rightarrow>
                                       if v = [] then None
                                       else Some (word @ ws1 @ [c] @ ws2 @ [q] @ v @ [q'],
                                                  v, rest)))))"

lemma event_match_here_shorter:
  "event_match_here s = Some (m, v, rest) \<Longrightarrow> length rest < length s"
proof -
  assume a: "event_match_here s = Some (m, v, rest)"
  have d: "length (dropWhile P xs) \<le> length xs" for P and xs :: string
    by (rule length_dropWhile_le)
  from a obtain c r2 q r3 q' where
    r1: "dropWhile is_space (drop 5 s) = c # r2" and
    r3: "dropWhile is_space r2 = q # r3" and
    r5: "dropWhile (\<lambda>x. x \<noteq> quote) r3 = q' # rest"
    by (auto simp: event_match_here_def Let_def split: if_splits list.splits)
  from d [of is_space "drop 5 s"] r1 have "length r2 < length s" by simp
  moreover from d [of is_space r2] r3 have "length r3 < length r2" by simp
  moreover from d [of "\<lambda>x. x \<noteq> quote" r3] r5 have "length rest < length r3" by simp
  ultimately show ?thesis by simp
qed

text \<open>
  \<^verbatim>\<open>text.match(/.../gi)\<close>: the matched texts, left to right, each search starting where
  the match before it ended. The method gives \<^verbatim>\<open>null\<close> for no match at all.
\<close>

function match_all :: "string \<Rightarrow> string list" where
  "match_all s =
     (if s = [] then []
      else (case event_match_here s of
              Some (m, v, rest) \<Rightarrow> m # match_all rest
            | None \<Rightarrow> match_all (tl s)))"
  by pat_completeness auto
termination
  by (relation "measure length") (auto dest: event_match_here_shorter)

declare match_all.simps [simp del]

definition match_global :: "string \<Rightarrow> string list option" where
  "match_global s = (case match_all s of [] \<Rightarrow> None | ms \<Rightarrow> Some ms)"

text \<open>\<^verbatim>\<open>match.match(/'([^']+)'/)?.[1]\<close>: the capture group of the leftmost match, if any.\<close>

fun first_quoted :: "string \<Rightarrow> string option" where
  "first_quoted [] = None"
| "first_quoted (c # r) =
     (if c = quote \<and> takeWhile (\<lambda>x. x \<noteq> quote) r \<noteq> [] \<and> dropWhile (\<lambda>x. x \<noteq> quote) r \<noteq> []
      then Some (takeWhile (\<lambda>x. x \<noteq> quote) r)
      else first_quoted r)"

subsection \<open>extractTrackedEvents\<close>

text \<open>The four \<^verbatim>\<open>for\<close> loops, each threading the set.\<close>

fun scan_series :: "json list \<Rightarrow> json list \<Rightarrow> js_error + json list" where
  "scan_series events [] = Inr events"
| "scan_series events (series # rest) =
     (case read_prop series ''event'' of
        Inl e \<Rightarrow> Inl e
      | Inr event \<Rightarrow>
          (case read_prop series ''name'' of
             Inl e \<Rightarrow> Inl e
           | Inr name \<Rightarrow> scan_series (add_if_truthy (add_if_truthy events event) name) rest))"

fun scan_matches :: "json list \<Rightarrow> string list \<Rightarrow> json list" where
  "scan_matches events [] = events"
| "scan_matches events (match # rest) =
     (case first_quoted match of
        None \<Rightarrow> scan_matches events rest
      | Some eventName \<Rightarrow>
          scan_matches (if eventName \<noteq> [] then set_add events (JStr eventName) else events) rest)"

fun scan_events :: "json list \<Rightarrow> json list \<Rightarrow> js_error + json list" where
  "scan_events events [] = Inr events"
| "scan_events events (event # rest) =
     (case read_prop event ''id'' of
        Inl e \<Rightarrow> Inl e
      | Inr ident \<Rightarrow>
          (case read_prop event ''name'' of
             Inl e \<Rightarrow> Inl e
           | Inr name \<Rightarrow> scan_events (add_if_truthy (add_if_truthy events ident) name) rest))"

fun scan_actions :: "json list \<Rightarrow> json list \<Rightarrow> js_error + json list" where
  "scan_actions events [] = Inr events"
| "scan_actions events (action # rest) =
     (case read_prop action ''name'' of
        Inl e \<Rightarrow> Inl e
      | Inr name \<Rightarrow> scan_actions (add_if_truthy events name) rest)"

text \<open>
  The block \<^verbatim>\<open>if (query) { ... }\<close>. \<^verbatim>\<open>query.series && Array.isArray(query.series)\<close> holds
  exactly of an array (an array is truthy), and
  \<^verbatim>\<open>query.query && typeof query.query === 'string'\<close> exactly of a string that is not empty.
\<close>

definition scan_query :: "json list \<Rightarrow> json option \<Rightarrow> js_error + json list" where
  "scan_query events query =
     (if \<not> truthy query then Inr events
      else (case (case prop_of query ''series'' of
                    Some (JArr entries) \<Rightarrow> scan_series events entries
                  | _ \<Rightarrow> Inr events) of
              Inl e \<Rightarrow> Inl e
            | Inr events1 \<Rightarrow>
                (case prop_of query ''query'' of
                   Some (JStr text) \<Rightarrow>
                     if text = [] then Inr events1
                     else (case match_global text of
                             None \<Rightarrow> Inr events1
                           | Some eventMatches \<Rightarrow> Inr (scan_matches events1 eventMatches))
                 | _ \<Rightarrow> Inr events1)))"

text \<open>The block \<^verbatim>\<open>if (filters) { ... }\<close>.\<close>

definition scan_filters :: "json list \<Rightarrow> json option \<Rightarrow> js_error + json list" where
  "scan_filters events filters =
     (if \<not> truthy filters then Inr events
      else (case (case prop_of filters ''events'' of
                    Some (JArr entries) \<Rightarrow> scan_events events entries
                  | _ \<Rightarrow> Inr events) of
              Inl e \<Rightarrow> Inl e
            | Inr events1 \<Rightarrow>
                (case prop_of filters ''actions'' of
                   Some (JArr entries) \<Rightarrow> scan_actions events1 entries
                 | _ \<Rightarrow> Inr events1)))"

definition extractTrackedEvents :: "json option \<Rightarrow> json option \<Rightarrow> js_error + json list" where
  "extractTrackedEvents query filters =
     (case scan_query [] query of
        Inl e \<Rightarrow> Inl e
      | Inr events \<Rightarrow> scan_filters events filters)"

subsection \<open>The operation\<close>

text \<open>\<^verbatim>\<open>x ? JSON.stringify(x) : null\<close>.\<close>

definition stringify_if_truthy :: "(json \<Rightarrow> string) \<Rightarrow> json option \<Rightarrow> string optional" where
  "stringify_if_truthy stringify x =
     (case x of None \<Rightarrow> Null | Some v \<Rightarrow> if truthy (Some v) then Val (stringify v) else Null)"

definition dashboard_reference :: "dashboard_entry \<Rightarrow> DashboardReference" where
  "dashboard_reference d =
     \<lparr> dr_id = (case d of EntryNumber n \<Rightarrow> n | EntryObject obj \<Rightarrow> do_id obj),
       dr_name = (case d of EntryNumber n \<Rightarrow> Null | EntryObject obj \<Rightarrow> coalesce (do_name obj) Null) \<rparr>"

text \<open>
  The returned object. Its fields are evaluated in order, and only the last one, the
  call of \<^verbatim>\<open>extractTrackedEvents\<close>, can throw.
\<close>

definition insight_detail :: "(json \<Rightarrow> string) \<Rightarrow> PostHogInsightResponse \<Rightarrow> js_error + InsightDetailResponse" where
  "insight_detail stringify data =
     (case extractTrackedEvents (ir_query data) (ir_filters data) of
        Inl e \<Rightarrow> Inl e
      | Inr trackedEvents \<Rightarrow>
          Inr \<lparr> idr_id = ir_id data,
                idr_shortId = coalesce (ir_short_id data) Null,
                idr_name = coalesce (ir_name data) (coalesce (ir_derived_name data) Null),
                idr_derivedName = coalesce (ir_derived_name data) Null,
                idr_description = coalesce (ir_description data) Null,
                idr_tags = or_else (ir_tags data) [],
                idr_favorited = or_else (ir_favorited data) False,
                idr_lastRefresh = coalesce (ir_last_refresh data) Null,
                idr_lastModifiedAt = coalesce (ir_last_modified_at data) Null,
                idr_createdAt = coalesce (ir_created_at data) Null,
                idr_createdBy =
                  coalesce (chain (ir_created_by data) cb_email)
                    (coalesce (chain (ir_created_by data) cb_first_name) Null),
                idr_query = stringify_if_truthy stringify (ir_query data),
                idr_filters = stringify_if_truthy stringify (ir_filters data),
                idr_hogql = coalesce (ir_hogql data) Null,
                idr_dashboards = map dashboard_reference (or_else (ir_dashboards data) []),
                idr_queryKind = extractQueryKind (ir_query data),
                idr_trackedEvents = trackedEvents \<rparr>)"

text \<open>
  \<open>toString\<close> is the runtime's rendering of the number \<^verbatim>\<open>insightId\<close> in the template
  literal of the URL.
\<close>

definition insight_request :: "(real \<Rightarrow> string) \<Rightarrow> string \<Rightarrow> string \<Rightarrow> string \<Rightarrow> real \<Rightarrow> request" where
  "insight_request toString HOST PROJECT_ID API_KEY insightId =
     \<lparr> req_method = ''GET'',
       req_url = ''https://'' @ HOST @ ''/api/projects/'' @ PROJECT_ID @ ''/insights/''
                 @ toString insightId @ ''/'',
       req_headers = [(''Content-Type'', ''application/json''),
                      (''Authorization'', ''Bearer '' @ API_KEY)],
       req_body = None \<rparr>"

definition get_posthog_insight_try ::
  "(json \<Rightarrow> string) \<Rightarrow> (real \<Rightarrow> string) \<Rightarrow> (PostHogInsightResponse, 'w) fetch
     \<Rightarrow> string \<Rightarrow> string \<Rightarrow> string \<Rightarrow> real \<Rightarrow> 'w
     \<Rightarrow> (js_error + InsightDetailResponse) \<times> request list \<times> 'w" where
  "get_posthog_insight_try stringify toString fetch HOST PROJECT_ID API_KEY insightId w =
     (let req = insight_request toString HOST PROJECT_ID API_KEY insightId;
          r = fetch req w
      in (case read_json (fst r) of
            Inl e \<Rightarrow> Inl e
          | Inr data \<Rightarrow> insight_detail stringify data,
          [req], snd r))"

definition get_posthog_insight ::
  "(json \<Rightarrow> string) \<Rightarrow> (real \<Rightarrow> string) \<Rightarrow> (PostHogInsightResponse, 'w) fetch \<Rightarrow> env \<Rightarrow> real \<Rightarrow> 'w
     \<Rightarrow> (sdk_error + InsightDetailResponse) \<times> request list \<times> 'w" where
  "get_posthog_insight stringify toString fetch env insightId w =
     (let API_KEY = env ''POSTHOG_API_KEY'';
          PROJECT_ID = env ''POSTHOG_PROJECT_ID'';
          HOST = or_str (env ''POSTHOG_HOST'') ''us.posthog.com''
      in if \<not> truthy_str API_KEY then
           (Inl (UnprocessableContent ''POSTHOG_API_KEY environment variable is required''), [], w)
         else if \<not> truthy_str PROJECT_ID then
           (Inl (UnprocessableContent ''POSTHOG_PROJECT_ID environment variable is required''), [], w)
         else
           (case get_posthog_insight_try stringify toString fetch HOST (narrowed PROJECT_ID)
                   (narrowed API_KEY) insightId w of
              (Inl error, calls, w') \<Rightarrow>
                (Inl (UnprocessableContent (''Failed to get insight: '' @ message error)), calls, w')
            | (Inr r, calls, w') \<Rightarrow> (Inr r, calls, w')))"

section \<open>The mapping rules in the specification's words\<close>

text \<open>
  Definitions that follow the specification rather than the source, to compare the
  source with. A dashboard's \<open>insights\<close> is its \<open>tiles\<close> filtered to those carrying a
  non-null \<open>insight\<close>, each projected to \<open>{id, shortId, name: name else derivedName
  else null, description}\<close>; \<open>createdBy\<close> is the creator's email, else first name, else
  null; a page maps to the summaries of its \<open>results\<close>.
\<close>

text \<open>
  An optional field as the specification emits it: its value, and an explicit null when
  the upstream omits the key or sends null.
\<close>

definition else_null :: "'a optional \<Rightarrow> 'a optional" where
  "else_null a = (case a of Val v \<Rightarrow> Val v | Null \<Rightarrow> Null | Undefined \<Rightarrow> Null)"

definition spec_project :: "PostHogTileInsight \<Rightarrow> InsightSummary" where
  "spec_project i =
     \<lparr> is_id = ti_id i,
       is_shortId = else_null (ti_short_id i),
       is_name = (case ti_name i of Val n \<Rightarrow> Val n | _ \<Rightarrow> else_null (ti_derived_name i)),
       is_description = else_null (ti_description i) \<rparr>"

definition spec_insights :: "PostHogDashboard \<Rightarrow> InsightSummary list" where
  "spec_insights d =
     concat (map (\<lambda>tile. case tile_insight tile of Val i \<Rightarrow> [spec_project i] | _ \<Rightarrow> [])
                 (case pd_tiles d of Val tiles \<Rightarrow> tiles | _ \<Rightarrow> []))"

definition spec_summary :: "PostHogDashboard \<Rightarrow> DashboardSummary" where
  "spec_summary d =
     \<lparr> ds_id = pd_id d,
       ds_name = else_null (pd_name d),
       ds_description = else_null (pd_description d),
       ds_tags = (case pd_tags d of Val tags \<Rightarrow> tags | _ \<Rightarrow> []),
       ds_pinned = (case pd_pinned d of Val b \<Rightarrow> b | _ \<Rightarrow> False),
       ds_createdAt = else_null (pd_created_at d),
       ds_createdBy =
         (case pd_created_by d of
            Val c \<Rightarrow> (case cb_email c of Val e \<Rightarrow> Val e | _ \<Rightarrow> else_null (cb_first_name c))
          | _ \<Rightarrow> Null),
       ds_lastAccessedAt = else_null (pd_last_accessed_at d),
       ds_insightCount = length (spec_insights d),
       ds_insights = spec_insights d \<rparr>"

definition spec_page :: "PostHogDashboardListResponse \<Rightarrow> DashboardSummary list" where
  "spec_page p = map spec_summary (case dl_results p of Val ds \<Rightarrow> ds | _ \<Rightarrow> [])"

text \<open>
  An upstream that serves the pages \<open>ps\<close> one after the other, starting with the
  request for \<open>url\<close> in world \<open>w\<close>: each request is answered with a 2xx response that
  carries the next page of \<open>ps\<close>, whose \<open>next\<close> is the (non-empty) URL of the page after
  it. The result is the URL the last of these pages links to and the world after them.
\<close>

fun follows ::
  "(PostHogDashboardListResponse, 'w) fetch \<Rightarrow> string \<Rightarrow> string \<Rightarrow> 'w
     \<Rightarrow> PostHogDashboardListResponse list \<Rightarrow> (string \<times> 'w) option" where
  "follows fetch API_KEY url w [] = Some (url, w)"
| "follows fetch API_KEY url w (p # ps) =
     (case fetch (page_request API_KEY url) w of
        (Inl e, w') \<Rightarrow> None
      | (Inr response, w') \<Rightarrow>
          (case dl_next p of
             Val u \<Rightarrow>
               if 200 \<le> status response \<and> status response \<le> 299
                  \<and> body_json response = Inr p \<and> u \<noteq> []
               then follows fetch API_KEY u w' ps
               else None
           | _ \<Rightarrow> None))"

text \<open>The URLs requested for the pages \<open>ps\<close>, the first of them at \<open>url\<close>.\<close>

fun page_urls :: "string \<Rightarrow> PostHogDashboardListResponse list \<Rightarrow> string list" where
  "page_urls url [] = []"
| "page_urls url (p # ps) = url # page_urls (or_else (dl_next p) []) ps"

text \<open>
  \<open>trackedEvents\<close> in the specification's words: the values discovered by scanning, in
  this order, (a) each entry of the query's \<open>series\<close> array, its \<open>event\<close> and then its
  \<open>name\<close>; (b) the HogQL text under the query's \<open>query\<close>, each value captured by the
  pattern \<open>event = '<value>'\<close>; (c) each entry of \<open>filters.events\<close>, its \<open>id\<close> and then
  its \<open>name\<close>; (d) each entry of \<open>filters.actions\<close>, its \<open>name\<close>; kept in the order of
  first discovery, without duplicates. A field is present when it holds a truthy value
  (C10 is about the fields that do not).
\<close>

definition when_present :: "json option \<Rightarrow> json list" where
  "when_present x = (case x of None \<Rightarrow> [] | Some v \<Rightarrow> if truthy (Some v) then [v] else [])"

definition array_under :: "json option \<Rightarrow> string \<Rightarrow> json list" where
  "array_under obj key =
     (case obj of
        Some (JObj kvs) \<Rightarrow> (case map_of kvs key of Some (JArr entries) \<Rightarrow> entries | _ \<Rightarrow> [])
      | _ \<Rightarrow> [])"

function capture_all :: "string \<Rightarrow> string list" where
  "capture_all s =
     (if s = [] then []
      else (case event_match_here s of
              Some (m, v, rest) \<Rightarrow> v # capture_all rest
            | None \<Rightarrow> capture_all (tl s)))"
  by pat_completeness auto
termination
  by (relation "measure length") (auto dest: event_match_here_shorter)

declare capture_all.simps [simp del]

definition from_series :: "json option \<Rightarrow> json list" where
  "from_series query =
     concat (map (\<lambda>entry. when_present (get_prop entry ''event'') @ when_present (get_prop entry ''name''))
                 (array_under query ''series''))"

definition from_hogql :: "json option \<Rightarrow> json list" where
  "from_hogql query =
     (case query of
        Some (JObj kvs) \<Rightarrow>
          (case map_of kvs ''query'' of Some (JStr text) \<Rightarrow> map JStr (capture_all text) | _ \<Rightarrow> [])
      | _ \<Rightarrow> [])"

definition from_filter_events :: "json option \<Rightarrow> json list" where
  "from_filter_events filters =
     concat (map (\<lambda>entry. when_present (get_prop entry ''id'') @ when_present (get_prop entry ''name''))
                 (array_under filters ''events''))"

definition from_filter_actions :: "json option \<Rightarrow> json list" where
  "from_filter_actions filters =
     concat (map (\<lambda>entry. when_present (get_prop entry ''name'')) (array_under filters ''actions''))"

definition discovered :: "json option \<Rightarrow> json option \<Rightarrow> json list" where
  "discovered query filters =
     from_series query @ from_hogql query @ from_filter_events filters @ from_filter_actions filters"

function first_seen :: "json list \<Rightarrow> json list" where
  "first_seen [] = []"
| "first_seen (x # xs) = x # first_seen (filter (\<lambda>y. \<not> same_value_zero x y) xs)"
  by pat_completeness auto
termination
  by (relation "measure length") (auto simp: less_Suc_eq_le)

text \<open>
  \<^verbatim>\<open>typeof v === 'string'\<close>; and the values that a \<^verbatim>\<open>Set\<close> compares by value: \<^verbatim>\<open>null\<close>,
  booleans, numbers and strings.
\<close>

definition is_string :: "json \<Rightarrow> bool" where
  "is_string v = (case v of JStr s \<Rightarrow> True | _ \<Rightarrow> False)"

definition is_primitive :: "json \<Rightarrow> bool" where
  "is_primitive v = (case v of JArr xs \<Rightarrow> False | JObj kvs \<Rightarrow> False | _ \<Rightarrow> True)"

section \<open>Example inputs\<close>

text \<open>Concrete environments, upstream answers and payloads the theorems are run on.\<close>

definition example_env :: env where
  "example_env = [''POSTHOG_API_KEY'' \<mapsto> ''phx_key'', ''POSTHOG_PROJECT_ID'' \<mapsto> ''42'']"

definition respond :: "nat \<Rightarrow> string \<Rightarrow> 'd \<Rightarrow> 'd response" where
  "respond code txt d = \<lparr> status = code, body_text = Inr txt, body_json = Inr d \<rparr>"

text \<open>
  A scripted upstream: the world is the list of the responses still to come, and each
  request takes the next one.
\<close>

definition scripted :: "('d, 'd response list) fetch" where
  "scripted req w = (case w of [] \<Rightarrow> (Inl (JsError ''fetch failed''), []) | r # rs \<Rightarrow> (Inr r, rs))"

definition example_timings :: PostHogAPIResponse where
  "example_timings =
     \<lparr> api_columns = Undefined, api_results = Undefined, api_hasMore = Undefined, api_limit = Undefined,
       api_offset = Undefined, api_is_cached = Undefined,
       api_timings = Val [\<lparr> timing_k = ''other'', timing_t = 1 \<rparr>,
                           \<lparr> timing_k = ''query'', timing_t = 0.42 \<rparr>] \<rparr>"

definition example_insight :: PostHogInsightResponse where
  "example_insight =
     \<lparr> ir_id = 9, ir_short_id = Undefined, ir_name = Undefined, ir_derived_name = Undefined,
       ir_description = Undefined, ir_tags = Undefined, ir_favorited = Undefined, ir_last_refresh = Undefined,
       ir_last_modified_at = Undefined, ir_created_at = Undefined, ir_created_by = Undefined,
       ir_query = None, ir_filters = None, ir_hogql = Undefined,
       ir_dashboards = Val [EntryNumber 5, EntryObject \<lparr> do_id = 7, do_name = Val ''X'' \<rparr>] \<rparr>"

definition example_tile_insight :: PostHogTileInsight where
  "example_tile_insight =
     \<lparr> ti_id = 11, ti_short_id = Undefined, ti_name = Undefined,
       ti_derived_name = Val ''Pageviews'', ti_description = Undefined \<rparr>"

definition example_dashboard :: "real \<Rightarrow> PostHogTile list optional \<Rightarrow> PostHogDashboard" where
  "example_dashboard n tiles =
     \<lparr> pd_id = n, pd_name = Undefined, pd_description = Undefined, pd_tags = Undefined, pd_pinned = Undefined,
       pd_created_at = Undefined, pd_created_by = Undefined, pd_last_accessed_at = Undefined,
       pd_tiles = tiles \<rparr>"

definition example_page1 :: PostHogDashboardListResponse where
  "example_page1 =
     \<lparr> dl_count = Val 3,
       dl_next = Val ''https://us.posthog.com/api/projects/42/dashboards/?offset=2'',
       dl_previous = Undefined,
       dl_results = Val [example_dashboard 1
                            (Val [\<lparr> tile_id = Val 1, tile_insight = Val example_tile_insight \<rparr>,
                                   \<lparr> tile_id = Val 2, tile_insight = Undefined \<rparr>]),
                          example_dashboard 2 Undefined] \<rparr>"

definition example_page2 :: PostHogDashboardListResponse where
  "example_page2 =
     \<lparr> dl_count = Val 3, dl_next = Undefined, dl_previous = Undefined,
       dl_results = Val [example_dashboard 3 (Val [\<lparr> tile_id = Val 3, tile_insight = Undefined \<rparr>])] \<rparr>"

definition example_series :: json where
  "example_series =
     JObj [(''kind'', JStr ''TrendsQuery''),
           (''series'', JArr [JObj [(''event'', JStr ''a'')],
                              JObj [(''event'', JStr ''a''), (''name'', JStr ''a'')]])]"

definition example_hogql :: json where
  "example_hogql =
     JObj [(''kind'', JStr ''HogQLQuery''),
           (''query'', JStr (''select count() from events where Event = '' @ [quote] @ ''signup'' @ [quote]))]"

definition example_filters :: json where
  "example_filters =
     JObj [(''events'', JArr [JObj [(''id'', JStr ''$pageview''), (''name'', JStr ''$pageview'')],
                              JObj [(''id'', JNull), (''name'', JStr ''All events'')],
                              JObj [(''id'', JStr []), (''name'', JStr ''signup'')]]),
           (''actions'', JArr [JObj [(''id'', JNum 3), (''name'', JStr ''Paid'')],
                               JObj [(''id'', JNum 4)]])]"

definition example_detail :: "json option \<Rightarrow> json option \<Rightarrow> PostHogInsightResponse" where
  "example_detail query filters =
     \<lparr> ir_id = 9, ir_short_id = Undefined, ir_name = Undefined, ir_derived_name = Undefined,
       ir_description = Undefined, ir_tags = Undefined, ir_favorited = Undefined, ir_last_refresh = Undefined,
       ir_last_modified_at = Undefined, ir_created_at = Undefined, ir_created_by = Undefined,
       ir_query = query, ir_filters = filters, ir_hogql = Undefined, ir_dashboards = Undefined \<rparr>"

definition example_falsy :: json where
  "example_falsy =
     JObj [(''series'', JArr [JObj [(''event'', JStr [])],
                              JObj [(''event'', JNull), (''name'', JStr [])],
                              JObj [(''event'', JStr ''a'')],
                              JObj []])]"

definition example_stringify :: "json \<Rightarrow> string" where
  "example_stringify v = []"

definition example_toString :: "real \<Rightarrow> string" where
  "example_toString n = ''9''"

text \<open>
  A query whose \<open>series\<close> entries hold, under \<open>event\<close>, two equal objects, a boolean and
  an array; and legacy filters whose event has a number for \<open>id\<close>.
\<close>

definition example_mixed :: json where
  "example_mixed =
     JObj [(''series'', JArr [JObj [(''event'', JObj [(''x'', JStr ''1'')])],
                              JObj [(''event'', JObj [(''x'', JStr ''1'')])],
                              JObj [(''event'', JBool True)],
                              JObj [(''event'', JArr [JStr ''a''])]])]"

definition example_numeric :: json where
  "example_numeric = JObj [(''events'', JArr [JObj [(''id'', JNum 3)]])]"

text \<open>Answers whose optional fields are omitted or null.\<close>

definition example_bare_query :: PostHogAPIResponse where
  "example_bare_query =
     \<lparr> api_columns = Undefined, api_results = Null, api_hasMore = Undefined, api_limit = Null,
       api_offset = Undefined, api_is_cached = Null, api_timings = Undefined \<rparr>"

definition example_null_insight :: PostHogTileInsight where
  "example_null_insight =
     \<lparr> ti_id = 12, ti_short_id = Null, ti_name = Undefined, ti_derived_name = Null,
       ti_description = Undefined \<rparr>"

definition example_null_dashboard :: PostHogDashboard where
  "example_null_dashboard =
     \<lparr> pd_id = 4, pd_name = Null, pd_description = Undefined, pd_tags = Null,
       pd_pinned = Undefined, pd_created_at = Null,
       pd_created_by = Val \<lparr> cb_id = Val 1, cb_email = Null, cb_first_name = Undefined \<rparr>,
       pd_last_accessed_at = Undefined, pd_tiles = Null \<rparr>"

section \<open>Basic facts\<close>

lemma nullish_simps [simp]: "nullish Undefined" "nullish Null" "\<not> nullish (Val v)"
  by (simp_all add: nullish_def)

lemma or_else_simps [simp]:
  "or_else Undefined b = b" "or_else Null b = b" "or_else (Val v) b = v"
  by (simp_all add: or_else_def)

lemma coalesce_simps [simp]:
  "coalesce Undefined b = b" "coalesce Null b = b" "coalesce (Val v) b = Val v"
  by (simp_all add: coalesce_def)

lemma coalesce_Null: "coalesce a Null = else_null a"
  by (cases a) (simp_all add: else_null_def)

lemma else_null_simps [simp]:
  "else_null Undefined = Null" "else_null Null = Null" "else_null (Val v) = Val v"
  by (simp_all add: else_null_def)

lemma else_null_defined [simp]: "else_null a \<noteq> Undefined"
  by (cases a) simp_all

lemma else_null_nullish: "nullish a \<Longrightarrow> else_null a = Null"
  by (cases a) simp_all

lemma chain_simps [simp]:
  "chain Undefined f = Undefined" "chain Null f = Undefined" "chain (Val v) f = f v"
  by (simp_all add: chain_def)

lemma truthy_url_simps [simp]:
  "truthy_url Undefined = False" "truthy_url Null = False" "truthy_url (Val s) = (s \<noteq> [])"
  by (simp_all add: truthy_url_def)

lemma truthy_url_else_null [simp]: "truthy_url (else_null a) = truthy_url a"
  by (cases a) simp_all

lemma narrowed_simps [simp]: "narrowed None = []" "narrowed (Some s) = s"
  by (simp_all add: narrowed_def)

lemma truthy_str_simps [simp]: "truthy_str None = False" "truthy_str (Some s) = (s \<noteq> [])"
  by (simp_all add: truthy_str_def)

lemma or_str_simps [simp]:
  "or_str None b = b" "or_str (Some []) b = b" "s \<noteq> [] \<Longrightarrow> or_str (Some s) b = s"
  by (simp_all add: or_str_def)

lemma read_json_ok:
  "200 \<le> status response \<Longrightarrow> status response \<le> 299 \<Longrightarrow> read_json (Inr response) = body_json response"
  by (simp add: read_json_def ok_def)

lemma read_json_failed:
  "status response < 200 \<or> 299 < status response \<Longrightarrow> body_text response = Inr errorText \<Longrightarrow>
   read_json (Inr response)
     = Inl (JsError (''PostHog API error: '' @ decimal (status response) @ '' - '' @ errorText))"
  by (auto simp: read_json_def ok_def)

text \<open>
  When an operation returns an object, it has made one request, and the object is the
  mapping of the data that the answer to that request carried.
\<close>

lemma run_posthog_sql_returns:
  assumes "run_posthog_sql stringify fetch env sql w = (Inr r, calls, w')"
  shows "\<exists>req data. calls = [req] \<and> w' = snd (fetch req w)
           \<and> read_json (fst (fetch req w)) = Inr data \<and> r = query_response stringify data"
  using assms
  by (auto simp: run_posthog_sql_def run_posthog_sql_try_def Let_def split: if_splits sum.splits)

lemma get_posthog_insight_returns:
  assumes "get_posthog_insight stringify toString fetch env insightId w = (Inr r, calls, w')"
  shows "\<exists>req data. calls = [req] \<and> w' = snd (fetch req w)
           \<and> read_json (fst (fetch req w)) = Inr data \<and> insight_detail stringify data = Inr r"
  using assms
  by (auto simp: get_posthog_insight_def get_posthog_insight_try_def Let_def
      split: if_splits sum.splits)

lemma find_first: "(\<forall>x\<in>set pre. \<not> P x) \<Longrightarrow> P e \<Longrightarrow> find P (pre @ e # post) = Some e"
  by (induction pre) auto

lemma array_find_first:
  "(\<forall>x\<in>set pre. \<not> P x) \<Longrightarrow> P e \<Longrightarrow> array_find P (pre @ e # post) = Val e"
  by (simp add: array_find_def find_first)

lemma array_find_none: "(\<forall>x\<in>set xs. \<not> P x) \<Longrightarrow> array_find P xs = Undefined"
  by (simp add: array_find_def find_None_iff split: option.splits)

lemma extract_none: "extractTrackedEvents None None = Inr []"
  by (simp add: extractTrackedEvents_def scan_query_def scan_filters_def)

subsection \<open>The dashboard mapping never throws\<close>

lemma map_throw_insights:
  "map_throw insight_summary (filter (\<lambda>tile. \<not> nullish (tile_insight tile)) tiles)
     = Inr (concat (map (\<lambda>tile. case tile_insight tile of Val i \<Rightarrow> [spec_project i] | _ \<Rightarrow> []) tiles))"
proof (induction tiles)
  case Nil
  show ?case by simp
next
  case (Cons tile tiles)
  show ?case
    using Cons
    by (cases "tile_insight tile")
       (simp_all add: insight_summary_def spec_project_def coalesce_def else_null_def
          split: optional.splits)
qed

lemma dashboard_summary_total: "dashboard_summary d = Inr (spec_summary d)"
proof -
  have "map_throw insight_summary
          (filter (\<lambda>tile. \<not> nullish (tile_insight tile)) (or_else (pd_tiles d) []))
          = Inr (spec_insights d)"
    unfolding spec_insights_def
    by (cases "pd_tiles d") (simp_all add: map_throw_insights)
  moreover have "or_else (pd_tags d) [] = (case pd_tags d of Val tags \<Rightarrow> tags | _ \<Rightarrow> [])"
    by (cases "pd_tags d") simp_all
  moreover have "or_else (pd_pinned d) False = (case pd_pinned d of Val b \<Rightarrow> b | _ \<Rightarrow> False)"
    by (cases "pd_pinned d") simp_all
  moreover have "coalesce (chain (pd_created_by d) cb_email)
                   (coalesce (chain (pd_created_by d) cb_first_name) Null)
      = (case pd_created_by d of
           Val c \<Rightarrow> (case cb_email c of Val e \<Rightarrow> Val e | _ \<Rightarrow> else_null (cb_first_name c))
         | _ \<Rightarrow> Null)"
  proof (cases "pd_created_by d")
    case (Val c)
    then show ?thesis by (cases "cb_email c") (simp_all add: coalesce_Null)
  qed simp_all
  ultimately show ?thesis
    by (simp add: dashboard_summary_def spec_summary_def coalesce_Null)
qed

lemma push_all_total: "push_all acc ds = Inr (acc @ map spec_summary ds)"
  by (induction ds arbitrary: acc) (simp_all add: dashboard_summary_total)

lemma push_all_page: "push_all acc (or_else (dl_results p) []) = Inr (acc @ spec_page p)"
  by (cases "dl_results p") (simp_all add: push_all_total spec_page_def)

lemma paginate_done: "\<not> truthy_url nextUrl \<Longrightarrow>
   paginate fetch API_KEY nextUrl acc calls w = Some (Inr acc, calls, w)"
  by (subst paginate.simps) simp

lemma paginate_page:
  assumes "url \<noteq> []" "read_json (fst (fetch (page_request API_KEY url) w)) = Inr p"
  shows "paginate fetch API_KEY (Val url) acc calls w
           = paginate fetch API_KEY (else_null (dl_next p)) (acc @ spec_page p)
               (calls @ [page_request API_KEY url]) (snd (fetch (page_request API_KEY url) w))"
  using assms by (subst paginate.simps) (simp add: Let_def push_all_page coalesce_Null)

lemma paginate_throw:
  assumes "url \<noteq> []" "read_json (fst (fetch (page_request API_KEY url) w)) = Inl e"
  shows "paginate fetch API_KEY (Val url) acc calls w
           = Some (Inl e, calls @ [page_request API_KEY url], snd (fetch (page_request API_KEY url) w))"
  using assms by (subst paginate.simps) (simp add: Let_def)

subsection \<open>The pagination loop\<close>

lemma paginate_follows:
  assumes "follows fetch API_KEY url w ps = Some (u, w1)" "url \<noteq> []"
  shows "paginate fetch API_KEY (Val url) acc calls w
           = paginate fetch API_KEY (Val u) (acc @ concat (map spec_page ps))
               (calls @ map (page_request API_KEY) (page_urls url ps)) w1
         \<and> u \<noteq> []"
  using assms
proof (induction ps arbitrary: url w acc calls)
  case Nil
  then show ?case by simp
next
  case (Cons p ps)
  from Cons.prems(1) obtain response w' nxt where
    f: "fetch (page_request API_KEY url) w = (Inr response, w')" and
    n: "dl_next p = Val nxt" "nxt \<noteq> []" and
    s: "200 \<le> status response" "status response \<le> 299" and
    j: "body_json response = Inr p" and
    rest: "follows fetch API_KEY nxt w' ps = Some (u, w1)"
    by (auto split: prod.splits sum.splits optional.splits if_splits)
  have "read_json (fst (fetch (page_request API_KEY url) w)) = Inr p"
    using f s j by (simp add: read_json_ok)
  with paginate_page [of url fetch API_KEY w p acc calls] Cons.prems(2) f n
  have "paginate fetch API_KEY (Val url) acc calls w
          = paginate fetch API_KEY (Val nxt) (acc @ spec_page p)
              (calls @ [page_request API_KEY url]) w'"
    by simp
  note step = this
  from Cons.IH [OF rest n(2), of "acc @ spec_page p" "calls @ [page_request API_KEY url]"]
  have ih: "paginate fetch API_KEY (Val nxt) (acc @ spec_page p) (calls @ [page_request API_KEY url]) w'
              = paginate fetch API_KEY (Val u) ((acc @ spec_page p) @ concat (map spec_page ps))
                  ((calls @ [page_request API_KEY url]) @ map (page_request API_KEY) (page_urls nxt ps)) w1"
    and u: "u \<noteq> []"
    by blast+
  from step ih u n show ?case by simp
qed

lemma length_spec_page: "length (spec_page p) = length (or_else (dl_results p) [])"
  by (cases "dl_results p") (simp_all add: spec_page_def)

lemma length_concat_pages:
  "length (concat (map spec_page ps)) = sum_list (map (\<lambda>p. length (or_else (dl_results p) [])) ps)"
  by (induction ps) (simp_all add: length_spec_page)

lemma length_page_urls: "length (page_urls url ps) = length ps"
  by (induction ps arbitrary: url) simp_all

lemma list_posthog_dashboards_configured:
  assumes "env ''POSTHOG_API_KEY'' = Some API_KEY" "API_KEY \<noteq> []"
      and "env ''POSTHOG_PROJECT_ID'' = Some PROJECT_ID" "PROJECT_ID \<noteq> []"
  shows "list_posthog_dashboards fetch env w =
           (case paginate fetch API_KEY
                   (Val (''https://'' @ or_str (env ''POSTHOG_HOST'') ''us.posthog.com''
                          @ ''/api/projects/'' @ PROJECT_ID @ ''/dashboards/'')) [] [] w of
              None \<Rightarrow> None
            | Some (Inl error, calls, w') \<Rightarrow>
                Some (Inl (UnprocessableContent (''Failed to list dashboards: '' @ message error)),
                      calls, w')
            | Some (Inr allDashboards, calls, w') \<Rightarrow>
                Some (Inr \<lparr> ld_dashboards = allDashboards,
                            ld_totalCount = length allDashboards \<rparr>, calls, w'))"
  using assms by (simp add: list_posthog_dashboards_def)

text \<open>
  An upstream whose every page links to a next one keeps the loop running for ever.
\<close>

lemma paginate_endless:
  assumes endless: "\<forall>req w. \<exists>p u. read_json (fst (fetch req w)) = Inr p \<and> dl_next p = Val u \<and> u \<noteq> []"
      and t: "truthy_url nextUrl"
  shows "paginate fetch API_KEY nextUrl acc calls w = None"
proof (rule ccontr)
  assume "paginate fetch API_KEY nextUrl acc calls w \<noteq> None"
  then obtain y where y: "paginate fetch API_KEY nextUrl acc calls w = Some y" by auto
  have "truthy_url nextUrl
          \<longrightarrow> (\<forall>req w. \<exists>p u. read_json (fst (fetch req w)) = Inr p \<and> dl_next p = Val u \<and> u \<noteq> [])
          \<longrightarrow> False"
  proof (rule paginate.raw_induct
      [where P = "\<lambda>fetch API_KEY nextUrl acc calls w y. truthy_url nextUrl
          \<longrightarrow> (\<forall>req w. \<exists>p u. read_json (fst (fetch req w)) = Inr p \<and> dl_next p = Val u \<and> u \<noteq> [])
          \<longrightarrow> False", OF _ y], goal_cases)
    case (1 pg fetch API_KEY nextUrl acc calls w y)
    show ?case
    proof (intro impI)
      assume t: "truthy_url nextUrl"
        and e: "\<forall>req w. \<exists>p u. read_json (fst (fetch req w)) = Inr p \<and> dl_next p = Val u \<and> u \<noteq> []"
      let ?req = "page_request API_KEY (or_else nextUrl [])"
      from e obtain p u where p: "read_json (fst (fetch ?req w)) = Inr p" "dl_next p = Val u" "u \<noteq> []"
        by blast
      with 1(2) t have "pg fetch API_KEY (Val u) (acc @ spec_page p) (calls @ [?req]) (snd (fetch ?req w)) = Some y"
        by (simp add: Let_def push_all_page)
      note ih = 1(1) [OF this]
      have "truthy_url (Val u)" using p(3) by simp
      with ih e show False by (elim impE) assumption+
    qed
  qed
  with t endless show False by blast
qed

lemma paginate_summaries:
  assumes "paginate fetch API_KEY nextUrl acc calls w = Some y"
  shows "\<forall>out calls' w'. y = (Inr out, calls', w') \<longrightarrow> (\<exists>ds. out = acc @ map spec_summary ds)"
proof (rule paginate.raw_induct
    [where P = "\<lambda>fetch API_KEY nextUrl acc calls w y.
       \<forall>out calls' w'. y = (Inr out, calls', w') \<longrightarrow> (\<exists>ds. out = acc @ map spec_summary ds)",
     OF _ assms], goal_cases)
  case (1 pg fetch API_KEY nextUrl acc calls w y)
  show ?case
  proof (cases "truthy_url nextUrl")
    case False
    with 1(2) have "y = (Inr acc, calls, w)" by simp
    then show ?thesis by simp
  next
    case True
    let ?req = "page_request API_KEY (or_else nextUrl [])"
    show ?thesis
    proof (cases "read_json (fst (fetch ?req w))")
      case (Inl e)
      with 1(2) True show ?thesis by (auto simp: Let_def)
    next
      case (Inr p)
      with 1(2) True
      have "pg fetch API_KEY (else_null (dl_next p)) (acc @ spec_page p) (calls @ [?req])
              (snd (fetch ?req w)) = Some y"
        by (simp add: Let_def push_all_page coalesce_Null)
      from 1(1) [OF this]
      have "\<forall>out calls' w'. y = (Inr out, calls', w') \<longrightarrow> (\<exists>ds. out = (acc @ spec_page p) @ map spec_summary ds)" .
      then show ?thesis
        unfolding spec_page_def
        by (metis append_assoc map_append)
    qed
  qed
qed

lemma list_posthog_dashboards_returns:
  assumes "list_posthog_dashboards fetch env w = Some (Inr r, calls, w')"
  shows "\<exists>ds. ld_dashboards r = map spec_summary ds \<and> ld_totalCount r = length ds"
proof -
  from assms obtain API_KEY url out where
    p: "paginate fetch API_KEY (Val url) [] [] w = Some (Inr out, calls, w')" and
    r: "r = \<lparr> ld_dashboards = out, ld_totalCount = length out \<rparr>"
    by (auto simp: list_posthog_dashboards_def Let_def split: if_splits option.splits sum.splits)
  from paginate_summaries [OF p] obtain ds where "out = map spec_summary ds" by auto
  with r show ?thesis by auto
qed

lemma example_listing:
  "list_posthog_dashboards scripted example_env
       [respond 200 [] example_page1, respond 200 [] example_page2]
     = Some (Inr \<lparr> ld_dashboards = spec_page example_page1 @ spec_page example_page2,
                   ld_totalCount = 3 \<rparr>,
             [page_request ''phx_key'' ''https://us.posthog.com/api/projects/42/dashboards/'',
              page_request ''phx_key'' ''https://us.posthog.com/api/projects/42/dashboards/?offset=2''],
             [])"
proof -
  let ?u0 = "''https://us.posthog.com/api/projects/42/dashboards/''"
  let ?u1 = "''https://us.posthog.com/api/projects/42/dashboards/?offset=2''"
  let ?w0 = "[respond 200 [] example_page1, respond 200 [] example_page2]"
  have n1: "dl_next example_page1 = Val ?u1" and n2: "dl_next example_page2 = Undefined"
    by (simp_all add: example_page1_def example_page2_def)
  have "paginate scripted ''phx_key'' (Val ?u0) [] [] ?w0
          = paginate scripted ''phx_key'' (Val ?u1) (spec_page example_page1)
              [page_request ''phx_key'' ?u0] [respond 200 [] example_page2]"
    using paginate_page [of ?u0 scripted "''phx_key''" ?w0 example_page1 "[]" "[]"] n1
    by (simp add: scripted_def respond_def read_json_def ok_def)
  also have "\<dots> = paginate scripted ''phx_key'' Null (spec_page example_page1 @ spec_page example_page2)
              [page_request ''phx_key'' ?u0, page_request ''phx_key'' ?u1] []"
    using paginate_page [of ?u1 scripted "''phx_key''" "[respond 200 [] example_page2]" example_page2
        "spec_page example_page1" "[page_request ''phx_key'' ?u0]"] n2
    by (simp add: scripted_def respond_def read_json_def ok_def)
  also have "\<dots> = Some (Inr (spec_page example_page1 @ spec_page example_page2),
              [page_request ''phx_key'' ?u0, page_request ''phx_key'' ?u1], [])"
    by (simp add: paginate_done)
  finally have p: "paginate scripted ''phx_key'' (Val ?u0) [] [] ?w0
      = Some (Inr (spec_page example_page1 @ spec_page example_page2),
              [page_request ''phx_key'' ?u0, page_request ''phx_key'' ?u1], [])" .
  have len: "length (spec_page example_page1 @ spec_page example_page2) = 3"
    by (simp add: spec_page_def example_page1_def example_page2_def)
  show ?thesis
    using list_posthog_dashboards_configured [of example_env "''phx_key''" "''42''" scripted ?w0] p len
    by (simp add: example_env_def)
qed

section \<open>The query executor\<close>

text \<open>
  C6. Whenever \<open>run_posthog_sql\<close> returns, having received \<open>data\<close> in answer to its
  request: if the upstream \<open>timings\<close> has an entry \<open>e\<close> with \<open>k = "query"\<close> and no entry
  before it has, \<open>executionTime\<close> is the \<open>t\<close> of \<open>e\<close> (the first such entry); if
  \<open>timings\<close> is absent (omitted or null) or has no such entry, \<open>executionTime\<close> is
  null (the key is there, with the value null). The witness is the
  specification's example: timings \<open>[{k:"other", t:1}, {k:"query", t:0.42}]\<close> give 0.42.
\<close>

theorem executionTime_first_query_timing:
  assumes "run_posthog_sql stringify fetch env sql w = (Inr r, [req], w')"
      and "read_json (fst (fetch req w)) = Inr data"
  shows "(api_timings data = Val (pre @ e # post) \<and> (\<forall>x\<in>set pre. timing_k x \<noteq> ''query'')
            \<and> timing_k e = ''query'' \<longrightarrow> qr_executionTime r = Val (timing_t e))
       \<and> (api_timings data = Undefined \<or> api_timings data = Null
            \<or> (\<exists>ts. api_timings data = Val ts \<and> (\<forall>x\<in>set ts. timing_k x \<noteq> ''query''))
          \<longrightarrow> qr_executionTime r = Null)"
proof -
  from run_posthog_sql_returns [OF assms(1)] assms(2)
  have r: "r = query_response stringify data" by auto
  have first: "qr_executionTime r = Val (timing_t e)"
    if "api_timings data = Val (pre @ e # post)" "\<forall>x\<in>set pre. timing_k x \<noteq> ''query''"
       "timing_k e = ''query''"
    using that array_find_first [of pre "\<lambda>t. timing_k t = ''query''" e post]
    by (simp add: r query_response_def)
  have none: "qr_executionTime r = Null" if "api_timings data = Undefined \<or> api_timings data = Null"
    using that by (auto simp: r query_response_def)
  have none': "qr_executionTime r = Null"
    if "api_timings data = Val ts" "\<forall>x\<in>set ts. timing_k x \<noteq> ''query''" for ts
  proof -
    from that(2) have "array_find (\<lambda>t. timing_k t = ''query'') ts = Undefined"
      by (simp add: array_find_none)
    with that(1) show ?thesis by (simp add: r query_response_def)
  qed
  from first none none' show ?thesis by blast
qed

theorem executionTime_first_query_timing_witness:
  "\<exists>r req. run_posthog_sql (\<lambda>v. []) scripted example_env ''select 1''
               [respond 200 [] example_timings]
             = (Inr r, [req], [])
         \<and> qr_executionTime r = Val 0.42"
proof -
  let ?req = "query_request (\<lambda>v. []) ''us.posthog.com'' ''42'' ''phx_key'' ''select 1''"
  let ?r = "query_response (\<lambda>v. []) example_timings"
  have run: "run_posthog_sql (\<lambda>v. []) scripted example_env ''select 1''
               [respond 200 [] example_timings]
               = (Inr ?r, [?req], [])"
    by (simp add: run_posthog_sql_def run_posthog_sql_try_def example_env_def scripted_def
        respond_def read_json_def ok_def)
  have got: "read_json (fst (scripted ?req [respond 200 [] example_timings])) = Inr example_timings"
    by (simp add: scripted_def respond_def read_json_def ok_def)
  have "api_timings example_timings
          = Val ([\<lparr> timing_k = ''other'', timing_t = 1 \<rparr>]
                  @ \<lparr> timing_k = ''query'', timing_t = 0.42 \<rparr> # [])"
    by (simp add: example_timings_def)
  with executionTime_first_query_timing [OF run got,
      of "[\<lparr> timing_k = ''other'', timing_t = 1 \<rparr>]" "\<lparr> timing_k = ''query'', timing_t = 0.42 \<rparr>" "[]"]
  have "qr_executionTime ?r = Val 0.42" by simp
  with run show ?thesis by blast
qed

section \<open>The dashboard lister\<close>

text \<open>
  C2. Let the environment hold a key and a project id, and let the upstream serve N
  pages to the lister's requests, the first at the collection URL: the first N - 1
  (\<open>init\<close>) each link to the following page, and the last (\<open>final\<close>) has no \<open>next\<close>
  (it is null, or the key is omitted).
  Then \<open>list_posthog_dashboards\<close> terminates with a result whose \<open>dashboards\<close> is the
  concatenation, in page order, of each page's mapped \<open>results\<close>, so that its length
  and \<open>totalCount\<close> are the sum of the lengths of the pages' \<open>results\<close>; and the
  requests it has made are exactly the N page requests, in order. N is arbitrary: the
  lister has no cap of its own (\<open>paginate_endless\<close> shows the loop that never ends).
\<close>

theorem pagination_concatenates_pages:
  assumes "env ''POSTHOG_API_KEY'' = Some API_KEY" "API_KEY \<noteq> []"
      and "env ''POSTHOG_PROJECT_ID'' = Some PROJECT_ID" "PROJECT_ID \<noteq> []"
      and url: "url = ''https://'' @ or_str (env ''POSTHOG_HOST'') ''us.posthog.com''
                      @ ''/api/projects/'' @ PROJECT_ID @ ''/dashboards/''"
      and init: "follows fetch API_KEY url w init = Some (u, w1)"
      and final: "fetch (page_request API_KEY u) w1 = (Inr response, w2)"
                 "200 \<le> status response" "status response \<le> 299"
                 "body_json response = Inr final" "nullish (dl_next final)"
  shows "\<exists>r calls. list_posthog_dashboards fetch env w = Some (Inr r, calls, w2)
           \<and> ld_dashboards r = concat (map spec_page (init @ [final]))
           \<and> length (ld_dashboards r)
               = sum_list (map (\<lambda>p. length (or_else (dl_results p) [])) (init @ [final]))
           \<and> ld_totalCount r
               = sum_list (map (\<lambda>p. length (or_else (dl_results p) [])) (init @ [final]))
           \<and> calls = map (page_request API_KEY) (page_urls url (init @ [final]))
           \<and> length calls = length (init @ [final])"
proof -
  let ?all = "concat (map spec_page (init @ [final]))"
  let ?calls = "map (page_request API_KEY) (page_urls url init) @ [page_request API_KEY u]"
  have nonempty: "url \<noteq> []" by (simp add: url)
  from paginate_follows [OF init nonempty, of "[]" "[]"]
  have pre: "paginate fetch API_KEY (Val url) [] [] w
               = paginate fetch API_KEY (Val u) (concat (map spec_page init))
                   (map (page_request API_KEY) (page_urls url init)) w1"
    and u: "u \<noteq> []"
    by simp_all
  have "read_json (fst (fetch (page_request API_KEY u) w1)) = Inr final"
    using final by (simp add: read_json_ok)
  with paginate_page [of u fetch API_KEY w1 final "concat (map spec_page init)"
      "map (page_request API_KEY) (page_urls url init)"] u final
  have "paginate fetch API_KEY (Val u) (concat (map spec_page init))
          (map (page_request API_KEY) (page_urls url init)) w1
        = Some (Inr ?all, ?calls, w2)"
    by (simp add: paginate_done else_null_nullish)
  with pre have "paginate fetch API_KEY (Val url) [] [] w = Some (Inr ?all, ?calls, w2)"
    by simp
  with list_posthog_dashboards_configured [OF assms(1-4), of fetch w]
  have run: "list_posthog_dashboards fetch env w
               = Some (Inr \<lparr> ld_dashboards = ?all, ld_totalCount = length ?all \<rparr>, ?calls, w2)"
    by (simp add: url)
  have urls: "page_urls url (init @ [final]) = page_urls url init @ [u]"
    using init
  proof (induction init arbitrary: url w)
    case Nil
    then show ?case by simp
  next
    case (Cons p ps)
    then show ?case
      by (auto split: prod.splits sum.splits optional.splits if_splits)
  qed
  then have calls: "?calls = map (page_request API_KEY) (page_urls url (init @ [final]))"
    by simp
  have "length ?all = sum_list (map (\<lambda>p. length (or_else (dl_results p) [])) (init @ [final]))"
    by (rule length_concat_pages)
  moreover have "length ?calls = length (init @ [final])"
    by (simp add: length_page_urls)
  ultimately show ?thesis
    using run calls by simp
qed

theorem pagination_concatenates_pages_witness:
  "\<exists>r calls. list_posthog_dashboards scripted example_env
                 [respond 200 [] example_page1, respond 200 [] example_page2]
               = Some (Inr r, calls, [])
           \<and> map ds_id (ld_dashboards r) = [1, 2, 3]
           \<and> ld_totalCount r = 3
           \<and> map req_url calls
               = [''https://us.posthog.com/api/projects/42/dashboards/'',
                  ''https://us.posthog.com/api/projects/42/dashboards/?offset=2'']"
proof -
  let ?u0 = "''https://us.posthog.com/api/projects/42/dashboards/''"
  let ?u1 = "''https://us.posthog.com/api/projects/42/dashboards/?offset=2''"
  have "follows scripted ''phx_key'' ?u0 [respond 200 [] example_page1, respond 200 [] example_page2]
          [example_page1] = Some (?u1, [respond 200 [] example_page2])"
    by (simp add: scripted_def respond_def example_page1_def)
  from pagination_concatenates_pages [of example_env "''phx_key''" "''42''" ?u0 scripted
      "[respond 200 [] example_page1, respond 200 [] example_page2]" "[example_page1]" ?u1
      "[respond 200 [] example_page2]" "respond 200 [] example_page2" "[]" example_page2, OF _ _ _ _ _ this]
  obtain r calls where
    "list_posthog_dashboards scripted example_env
        [respond 200 [] example_page1, respond 200 [] example_page2] = Some (Inr r, calls, [])"
    "ld_dashboards r = concat (map spec_page ([example_page1] @ [example_page2]))"
    "ld_totalCount r = sum_list (map (\<lambda>p. length (or_else (dl_results p) [])) ([example_page1] @ [example_page2]))"
    "calls = map (page_request ''phx_key'') (page_urls ?u0 ([example_page1] @ [example_page2]))"
    by (auto simp: example_env_def scripted_def respond_def example_page2_def)
  then show ?thesis
    by (simp add: spec_page_def spec_summary_def example_page1_def example_page2_def
        example_dashboard_def page_request_def)
qed

text \<open>
  C4. For every upstream dashboard the loop body yields a summary (it never throws)
  whose \<open>insights\<close> is the dashboard's tiles filtered to those with a non-null insight,
  each projected, and whose \<open>insightCount\<close> is the length of that list. Every dashboard
  that \<open>list_posthog_dashboards\<close> returns is such a summary of an upstream dashboard,
  whatever the upstream does; its \<open>insightCount\<close> is the length of its \<open>insights\<close>, and
  nothing else enters it. The witness has one dashboard with an insight tile and a
  text tile, one with no tiles, and one whose only tile carries no insight.
\<close>

theorem insights_derived_from_tiles:
  "(\<exists>s. dashboard_summary d = Inr s \<and> ds_insights s = spec_insights d
         \<and> ds_insightCount s = length (ds_insights s))
   \<and> (list_posthog_dashboards fetch env w = Some (Inr r, calls, w') \<longrightarrow>
        (\<forall>s\<in>set (ld_dashboards r).
           ds_insightCount s = length (ds_insights s)
           \<and> (\<exists>dashboard. dashboard_summary dashboard = Inr s
                           \<and> ds_insights s = spec_insights dashboard)))"
proof (intro conjI impI ballI)
  show "\<exists>s. dashboard_summary d = Inr s \<and> ds_insights s = spec_insights d
             \<and> ds_insightCount s = length (ds_insights s)"
    by (simp add: dashboard_summary_total spec_summary_def)
next
  fix s
  assume "list_posthog_dashboards fetch env w = Some (Inr r, calls, w')"
    and s: "s \<in> set (ld_dashboards r)"
  from list_posthog_dashboards_returns [OF this(1)] obtain ds where
    "ld_dashboards r = map spec_summary ds" by blast
  with s obtain dashboard where d: "s = spec_summary dashboard" by auto
  then show "ds_insightCount s = length (ds_insights s)"
    by (simp add: spec_summary_def)
  from d show "\<exists>dashboard. dashboard_summary dashboard = Inr s \<and> ds_insights s = spec_insights dashboard"
    by (auto simp: dashboard_summary_total spec_summary_def)
qed

theorem insights_derived_from_tiles_witness:
  "(\<exists>s. dashboard_summary
           (example_dashboard 1 (Val [\<lparr> tile_id = Val 1, tile_insight = Val example_tile_insight \<rparr>,
                                       \<lparr> tile_id = Val 2, tile_insight = Undefined \<rparr>])) = Inr s
        \<and> ds_insights s = [\<lparr> is_id = 11, is_shortId = Null, is_name = Val ''Pageviews'',
                              is_description = Null \<rparr>]
        \<and> ds_insightCount s = 1)
   \<and> (\<exists>r calls. list_posthog_dashboards scripted example_env
                 [respond 200 [] example_page1, respond 200 [] example_page2]
               = Some (Inr r, calls, [])
           \<and> map ds_insightCount (ld_dashboards r) = [1, 0, 0]
           \<and> list_all (\<lambda>s. ds_insightCount s = length (ds_insights s)) (ld_dashboards r))"
proof -
  let ?d = "example_dashboard 1 (Val [\<lparr> tile_id = Val 1, tile_insight = Val example_tile_insight \<rparr>,
                                       \<lparr> tile_id = Val 2, tile_insight = Undefined \<rparr>])"
  note main = insights_derived_from_tiles [of ?d scripted example_env
      "[respond 200 [] example_page1, respond 200 [] example_page2]" _ _ "[]"]
  from main obtain s where s: "dashboard_summary ?d = Inr s" "ds_insights s = spec_insights ?d"
    "ds_insightCount s = length (ds_insights s)"
    by blast
  have "spec_insights ?d = [\<lparr> is_id = 11, is_shortId = Null, is_name = Val ''Pageviews'',
                              is_description = Null \<rparr>]"
    by (simp add: spec_insights_def example_dashboard_def spec_project_def example_tile_insight_def)
  with s have first: "\<exists>s. dashboard_summary ?d = Inr s
        \<and> ds_insights s = [\<lparr> is_id = 11, is_shortId = Null, is_name = Val ''Pageviews'',
                              is_description = Null \<rparr>]
        \<and> ds_insightCount s = 1"
    by simp
  let ?r = "\<lparr> ld_dashboards = spec_page example_page1 @ spec_page example_page2, ld_totalCount = 3 \<rparr>"
  from main [of ?r] example_listing
  have "\<forall>s\<in>set (ld_dashboards ?r). ds_insightCount s = length (ds_insights s)"
    by blast
  then have all: "list_all (\<lambda>s. ds_insightCount s = length (ds_insights s)) (ld_dashboards ?r)"
    by (simp add: list_all_iff)
  have counts: "map ds_insightCount (ld_dashboards ?r) = [1, 0, 0]"
    by (simp add: spec_page_def spec_summary_def spec_insights_def example_page1_def
        example_page2_def example_dashboard_def)
  have "\<exists>r calls. list_posthog_dashboards scripted example_env
                 [respond 200 [] example_page1, respond 200 [] example_page2]
               = Some (Inr r, calls, [])
           \<and> map ds_insightCount (ld_dashboards r) = [1, 0, 0]
           \<and> list_all (\<lambda>s. ds_insightCount s = length (ds_insights s)) (ld_dashboards r)"
    by (rule exI [of _ ?r], rule exI, intro conjI, rule example_listing, rule counts, rule all)
  with first show ?thesis by (rule conjI)
qed

section \<open>The insight detail fetcher\<close>

text \<open>
  C5. Whenever \<open>get_posthog_insight\<close> returns, having received \<open>data\<close> in answer to its
  request, \<open>dashboards\<close> is the upstream \<open>dashboards\<close> (empty when omitted or null), entry
  by entry in the same order: a bare number \<open>n\<close> becomes \<open>{id: n, name: null}\<close>, an object
  keeps its \<open>id\<close> and its \<open>name\<close> (null when omitted or null). The witness is the
  specification's example: \<open>[5, {id: 7, name: "X"}]\<close> gives
  \<open>[{id: 5, name: null}, {id: 7, name: "X"}]\<close>.
\<close>

theorem dashboards_normalized:
  assumes "get_posthog_insight stringify toString fetch env insightId w = (Inr r, [req], w')"
      and "read_json (fst (fetch req w)) = Inr data"
  shows "idr_dashboards r =
           map (\<lambda>d. case d of
                       EntryNumber n \<Rightarrow> \<lparr> dr_id = n, dr_name = Null \<rparr>
                     | EntryObject obj \<Rightarrow>
                         \<lparr> dr_id = do_id obj,
                           dr_name = (case do_name obj of Val name \<Rightarrow> Val name | _ \<Rightarrow> Null) \<rparr>)
               (case ir_dashboards data of Val ds \<Rightarrow> ds | _ \<Rightarrow> [])"
proof -
  from get_posthog_insight_returns [OF assms(1)] assms(2)
  have "insight_detail stringify data = Inr r" by auto
  then have "idr_dashboards r = map dashboard_reference (or_else (ir_dashboards data) [])"
    by (auto simp: insight_detail_def split: sum.splits)
  moreover have "dashboard_reference d =
      (case d of EntryNumber n \<Rightarrow> \<lparr> dr_id = n, dr_name = Null \<rparr>
               | EntryObject obj \<Rightarrow>
                   \<lparr> dr_id = do_id obj,
                     dr_name = (case do_name obj of Val name \<Rightarrow> Val name | _ \<Rightarrow> Null) \<rparr>)" for d
    by (cases d) (simp_all add: dashboard_reference_def coalesce_def)
  ultimately show ?thesis
    by (cases "ir_dashboards data") simp_all
qed

theorem dashboards_normalized_witness:
  "\<exists>r req. get_posthog_insight (\<lambda>v. []) (\<lambda>n. ''9'') scripted example_env 9
               [respond 200 [] example_insight]
             = (Inr r, [req], [])
         \<and> idr_dashboards r = [\<lparr> dr_id = 5, dr_name = Null \<rparr>, \<lparr> dr_id = 7, dr_name = Val ''X'' \<rparr>]"
proof -
  let ?req = "insight_request (\<lambda>n. ''9'') ''us.posthog.com'' ''42'' ''phx_key'' 9"
  obtain r where r: "insight_detail (\<lambda>v. []) example_insight = Inr r"
    by (simp add: insight_detail_def example_insight_def extract_none)
  have run: "get_posthog_insight (\<lambda>v. []) (\<lambda>n. ''9'') scripted example_env 9
               [respond 200 [] example_insight]
               = (Inr r, [?req], [])"
    by (simp add: get_posthog_insight_def get_posthog_insight_try_def example_env_def scripted_def respond_def
        read_json_def ok_def r)
  have got: "read_json (fst (scripted ?req [respond 200 [] example_insight])) = Inr example_insight"
    by (simp add: scripted_def respond_def read_json_def ok_def)
  from dashboards_normalized [OF run got]
  have "idr_dashboards r = [\<lparr> dr_id = 5, dr_name = Null \<rparr>, \<lparr> dr_id = 7, dr_name = Val ''X'' \<rparr>]"
    by (simp add: example_insight_def)
  with run show ?thesis by blast
qed

section \<open>Configuration and error translation\<close>

text \<open>The requests a run of the loop has made extend those made before it.\<close>

lemma paginate_calls:
  assumes "paginate fetch API_KEY nextUrl acc calls w = Some y"
  shows "\<exists>more. fst (snd y) = calls @ more
           \<and> (truthy_url nextUrl \<longrightarrow> (\<exists>rest. more = page_request API_KEY (or_else nextUrl []) # rest))"
proof (rule paginate.raw_induct
    [where P = "\<lambda>fetch API_KEY nextUrl acc calls w y.
       \<exists>more. fst (snd y) = calls @ more
           \<and> (truthy_url nextUrl \<longrightarrow> (\<exists>rest. more = page_request API_KEY (or_else nextUrl []) # rest))",
     OF _ assms], goal_cases)
  case (1 pg fetch API_KEY nextUrl acc calls w y)
  show ?case
  proof (cases "truthy_url nextUrl")
    case False
    with 1(2) have "y = (Inr acc, calls, w)" by simp
    with False show ?thesis by simp
  next
    case True
    let ?req = "page_request API_KEY (or_else nextUrl [])"
    show ?thesis
    proof (cases "read_json (fst (fetch ?req w))")
      case (Inl e)
      with 1(2) True have "fst (snd y) = calls @ [?req]" by (auto simp: Let_def)
      then show ?thesis by simp
    next
      case (Inr p)
      with 1(2) True
      have "pg fetch API_KEY (else_null (dl_next p)) (acc @ spec_page p) (calls @ [?req])
              (snd (fetch ?req w)) = Some y"
        by (simp add: Let_def push_all_page coalesce_Null)
      from 1(1) [OF this] obtain more where "fst (snd y) = (calls @ [?req]) @ more" by blast
      then show ?thesis by simp
    qed
  qed
qed

lemma list_posthog_dashboards_calls:
  assumes "env ''POSTHOG_API_KEY'' = Some API_KEY" "API_KEY \<noteq> []"
      and "env ''POSTHOG_PROJECT_ID'' = Some PROJECT_ID" "PROJECT_ID \<noteq> []"
      and "list_posthog_dashboards fetch env w = Some (res, calls, w')"
  shows "\<exists>rest. calls = page_request API_KEY
                   (''https://'' @ or_str (env ''POSTHOG_HOST'') ''us.posthog.com''
                      @ ''/api/projects/'' @ PROJECT_ID @ ''/dashboards/'') # rest"
proof -
  let ?url = "''https://'' @ or_str (env ''POSTHOG_HOST'') ''us.posthog.com''
                @ ''/api/projects/'' @ PROJECT_ID @ ''/dashboards/''"
  from assms(5) list_posthog_dashboards_configured [OF assms(1-4), of fetch w]
  obtain y where y: "paginate fetch API_KEY (Val ?url) [] [] w = Some y" and "fst (snd y) = calls"
    by (auto split: option.splits sum.splits)
  with paginate_calls [OF y] show ?thesis by auto
qed

lemma decimal_3_digits:
  "decimal 404 = ''404''" "decimal 500 = ''500''" "decimal 403 = ''403''"
  by (simp_all add: decimal.simps digit_def)

text \<open>
  C8. If \<open>POSTHOG_API_KEY\<close> is missing, each of the three operations fails with the
  \<open>UnprocessableContent\<close> error that names it, having made no request and left the
  world as it was (whatever else the environment holds: the key is checked first); if
  the key is set and \<open>POSTHOG_PROJECT_ID\<close> is missing, likewise with the error that
  names the project id. A missing \<open>POSTHOG_HOST\<close> makes no operation fail: each behaves
  exactly as with the host set to \<open>us.posthog.com\<close>, and with key and project id set
  its (first) request goes to that host.
\<close>

theorem missing_configuration_fails_first:
  "(env ''POSTHOG_API_KEY'' = None \<longrightarrow>
      run_posthog_sql stringify fetch_q env sql wq
        = (Inl (UnprocessableContent ''POSTHOG_API_KEY environment variable is required''), [], wq)
      \<and> list_posthog_dashboards fetch_l env wl
        = Some (Inl (UnprocessableContent ''POSTHOG_API_KEY environment variable is required''), [], wl)
      \<and> get_posthog_insight stringify toString fetch_i env insightId wi
        = (Inl (UnprocessableContent ''POSTHOG_API_KEY environment variable is required''), [], wi))
   \<and> (truthy_str (env ''POSTHOG_API_KEY'') \<and> env ''POSTHOG_PROJECT_ID'' = None \<longrightarrow>
      run_posthog_sql stringify fetch_q env sql wq
        = (Inl (UnprocessableContent ''POSTHOG_PROJECT_ID environment variable is required''), [], wq)
      \<and> list_posthog_dashboards fetch_l env wl
        = Some (Inl (UnprocessableContent ''POSTHOG_PROJECT_ID environment variable is required''), [], wl)
      \<and> get_posthog_insight stringify toString fetch_i env insightId wi
        = (Inl (UnprocessableContent ''POSTHOG_PROJECT_ID environment variable is required''), [], wi))
   \<and> (env ''POSTHOG_HOST'' = None \<longrightarrow>
      run_posthog_sql stringify fetch_q env sql wq
        = run_posthog_sql stringify fetch_q (env(''POSTHOG_HOST'' \<mapsto> ''us.posthog.com'')) sql wq
      \<and> list_posthog_dashboards fetch_l env wl
        = list_posthog_dashboards fetch_l (env(''POSTHOG_HOST'' \<mapsto> ''us.posthog.com'')) wl
      \<and> get_posthog_insight stringify toString fetch_i env insightId wi
        = get_posthog_insight stringify toString fetch_i
            (env(''POSTHOG_HOST'' \<mapsto> ''us.posthog.com'')) insightId wi)
   \<and> (env ''POSTHOG_API_KEY'' = Some API_KEY \<and> API_KEY \<noteq> []
        \<and> env ''POSTHOG_PROJECT_ID'' = Some PROJECT_ID \<and> PROJECT_ID \<noteq> []
        \<and> env ''POSTHOG_HOST'' = None \<longrightarrow>
      fst (snd (run_posthog_sql stringify fetch_q env sql wq))
        = [query_request stringify ''us.posthog.com'' PROJECT_ID API_KEY sql]
      \<and> (\<forall>res calls wl'. list_posthog_dashboards fetch_l env wl = Some (res, calls, wl') \<longrightarrow>
            (\<exists>rest. calls = page_request API_KEY
                       (''https://us.posthog.com/api/projects/'' @ PROJECT_ID @ ''/dashboards/'') # rest))
      \<and> fst (snd (get_posthog_insight stringify toString fetch_i env insightId wi))
        = [insight_request toString ''us.posthog.com'' PROJECT_ID API_KEY insightId])"
proof (intro conjI impI allI; (elim conjE)?)
  assume "env ''POSTHOG_API_KEY'' = None"
  then show "run_posthog_sql stringify fetch_q env sql wq
        = (Inl (UnprocessableContent ''POSTHOG_API_KEY environment variable is required''), [], wq)"
    "list_posthog_dashboards fetch_l env wl
        = Some (Inl (UnprocessableContent ''POSTHOG_API_KEY environment variable is required''), [], wl)"
    "get_posthog_insight stringify toString fetch_i env insightId wi
        = (Inl (UnprocessableContent ''POSTHOG_API_KEY environment variable is required''), [], wi)"
    by (simp_all add: run_posthog_sql_def list_posthog_dashboards_def get_posthog_insight_def)
next
  assume "truthy_str (env ''POSTHOG_API_KEY'')" "env ''POSTHOG_PROJECT_ID'' = None"
  then show "run_posthog_sql stringify fetch_q env sql wq
        = (Inl (UnprocessableContent ''POSTHOG_PROJECT_ID environment variable is required''), [], wq)"
    "list_posthog_dashboards fetch_l env wl
        = Some (Inl (UnprocessableContent ''POSTHOG_PROJECT_ID environment variable is required''), [], wl)"
    "get_posthog_insight stringify toString fetch_i env insightId wi
        = (Inl (UnprocessableContent ''POSTHOG_PROJECT_ID environment variable is required''), [], wi)"
    by (simp_all add: run_posthog_sql_def list_posthog_dashboards_def get_posthog_insight_def)
next
  assume "env ''POSTHOG_HOST'' = None"
  then show "run_posthog_sql stringify fetch_q env sql wq
        = run_posthog_sql stringify fetch_q (env(''POSTHOG_HOST'' \<mapsto> ''us.posthog.com'')) sql wq"
    "list_posthog_dashboards fetch_l env wl
        = list_posthog_dashboards fetch_l (env(''POSTHOG_HOST'' \<mapsto> ''us.posthog.com'')) wl"
    "get_posthog_insight stringify toString fetch_i env insightId wi
        = get_posthog_insight stringify toString fetch_i
            (env(''POSTHOG_HOST'' \<mapsto> ''us.posthog.com'')) insightId wi"
    by (simp_all add: run_posthog_sql_def list_posthog_dashboards_def get_posthog_insight_def)
next
  assume cfg: "env ''POSTHOG_API_KEY'' = Some API_KEY" "API_KEY \<noteq> []"
    "env ''POSTHOG_PROJECT_ID'' = Some PROJECT_ID" "PROJECT_ID \<noteq> []"
    and host: "env ''POSTHOG_HOST'' = None"
  from cfg host show "fst (snd (run_posthog_sql stringify fetch_q env sql wq))
        = [query_request stringify ''us.posthog.com'' PROJECT_ID API_KEY sql]"
    by (simp add: run_posthog_sql_def run_posthog_sql_try_def Let_def split: sum.splits)
  from cfg host show "fst (snd (get_posthog_insight stringify toString fetch_i env insightId wi))
        = [insight_request toString ''us.posthog.com'' PROJECT_ID API_KEY insightId]"
    by (simp add: get_posthog_insight_def get_posthog_insight_try_def Let_def split: sum.splits)
  fix res calls wl'
  assume "list_posthog_dashboards fetch_l env wl = Some (res, calls, wl')"
  from list_posthog_dashboards_calls [OF cfg this] host
  show "\<exists>rest. calls = page_request API_KEY
                       (''https://us.posthog.com/api/projects/'' @ PROJECT_ID @ ''/dashboards/'') # rest"
    by simp
qed


theorem missing_configuration_fails_first_witness:
  "run_posthog_sql (\<lambda>v. []) scripted Map.empty ''select 1'' [respond 200 [] example_timings]
     = (Inl (UnprocessableContent ''POSTHOG_API_KEY environment variable is required''), [],
        [respond 200 [] example_timings])
   \<and> list_posthog_dashboards scripted [''POSTHOG_API_KEY'' \<mapsto> ''phx_key'']
       [respond 200 [] example_page2]
     = Some (Inl (UnprocessableContent ''POSTHOG_PROJECT_ID environment variable is required''), [],
             [respond 200 [] example_page2])
   \<and> map req_url (fst (snd (get_posthog_insight (\<lambda>v. []) (\<lambda>n. ''9'') scripted example_env 9
                               [respond 200 [] example_insight])))
     = [''https://us.posthog.com/api/projects/42/insights/9/'']"
proof -
  have a: "run_posthog_sql (\<lambda>v. []) scripted Map.empty ''select 1'' [respond 200 [] example_timings]
     = (Inl (UnprocessableContent ''POSTHOG_API_KEY environment variable is required''), [],
        [respond 200 [] example_timings])"
    using missing_configuration_fails_first [where env = Map.empty and stringify = "\<lambda>v. []"
        and fetch_q = scripted and sql = "''select 1''" and wq = "[respond 200 [] example_timings]",
        THEN conjunct1, THEN mp, THEN conjunct1]
    by simp
  have b: "list_posthog_dashboards scripted [''POSTHOG_API_KEY'' \<mapsto> ''phx_key'']
       [respond 200 [] example_page2]
     = Some (Inl (UnprocessableContent ''POSTHOG_PROJECT_ID environment variable is required''), [],
             [respond 200 [] example_page2])"
    using missing_configuration_fails_first [where env = "[''POSTHOG_API_KEY'' \<mapsto> ''phx_key'']"
        and fetch_l = scripted and wl = "[respond 200 [] example_page2]",
        THEN conjunct2, THEN conjunct1, THEN mp, THEN conjunct2, THEN conjunct1]
    by simp
  have c: "fst (snd (get_posthog_insight (\<lambda>v. []) (\<lambda>n. ''9'') scripted example_env 9
                               [respond 200 [] example_insight]))
     = [insight_request (\<lambda>n. ''9'') ''us.posthog.com'' ''42'' ''phx_key'' 9]"
    using missing_configuration_fails_first [where env = example_env and stringify = "\<lambda>v. []"
        and toString = "\<lambda>n. ''9''" and fetch_i = scripted and insightId = 9
        and wi = "[respond 200 [] example_insight]" and API_KEY = "''phx_key''"
        and PROJECT_ID = "''42''", THEN conjunct2, THEN conjunct2, THEN conjunct2, THEN mp,
        THEN conjunct2, THEN conjunct2]
    by (simp add: example_env_def)
  from a b c show ?thesis by (simp add: insight_request_def)
qed

text \<open>
  C9. The checks are truthiness checks. With \<open>POSTHOG_API_KEY\<close> or
  \<open>POSTHOG_PROJECT_ID\<close> set to the empty string, each of the three operations behaves
  exactly as with the variable unset, which is the error naming the variable (for the
  project id, when the key is set); with \<open>POSTHOG_HOST\<close> set to the empty string, each
  behaves exactly as with the host unset and as with the host set to
  \<open>us.posthog.com\<close>.
\<close>

theorem empty_configuration_is_missing:
  "(truthy_str (env ''POSTHOG_API_KEY'') \<longrightarrow>
        run_posthog_sql stringify fetch_q (env(''POSTHOG_PROJECT_ID'' \<mapsto> [])) sql wq
          = (Inl (UnprocessableContent ''POSTHOG_PROJECT_ID environment variable is required''), [], wq)
        \<and> list_posthog_dashboards fetch_l (env(''POSTHOG_PROJECT_ID'' \<mapsto> [])) wl
          = Some (Inl (UnprocessableContent ''POSTHOG_PROJECT_ID environment variable is required''),
                  [], wl)
        \<and> get_posthog_insight stringify toString fetch_i (env(''POSTHOG_PROJECT_ID'' \<mapsto> []))
            insightId wi
          = (Inl (UnprocessableContent ''POSTHOG_PROJECT_ID environment variable is required''), [], wi))
   \<and> run_posthog_sql stringify fetch_q (env(''POSTHOG_HOST'' \<mapsto> [])) sql wq
     = run_posthog_sql stringify fetch_q (env(''POSTHOG_HOST'' \<mapsto> ''us.posthog.com'')) sql wq
   \<and> list_posthog_dashboards fetch_l (env(''POSTHOG_HOST'' \<mapsto> [])) wl
     = list_posthog_dashboards fetch_l (env(''POSTHOG_HOST'' \<mapsto> ''us.posthog.com'')) wl
   \<and> get_posthog_insight stringify toString fetch_i (env(''POSTHOG_HOST'' \<mapsto> [])) insightId wi
     = get_posthog_insight stringify toString fetch_i (env(''POSTHOG_HOST'' \<mapsto> ''us.posthog.com''))
         insightId wi
   \<and> run_posthog_sql stringify fetch_q (env(''POSTHOG_API_KEY'' \<mapsto> [])) sql wq
     = run_posthog_sql stringify fetch_q (env(''POSTHOG_API_KEY'' := None)) sql wq
   \<and> list_posthog_dashboards fetch_l (env(''POSTHOG_API_KEY'' \<mapsto> [])) wl
     = list_posthog_dashboards fetch_l (env(''POSTHOG_API_KEY'' := None)) wl
   \<and> get_posthog_insight stringify toString fetch_i (env(''POSTHOG_API_KEY'' \<mapsto> [])) insightId wi
     = get_posthog_insight stringify toString fetch_i (env(''POSTHOG_API_KEY'' := None)) insightId wi
   \<and> run_posthog_sql stringify fetch_q (env(''POSTHOG_API_KEY'' \<mapsto> [])) sql wq
     = (Inl (UnprocessableContent ''POSTHOG_API_KEY environment variable is required''), [], wq)
   \<and> list_posthog_dashboards fetch_l (env(''POSTHOG_API_KEY'' \<mapsto> [])) wl
     = Some (Inl (UnprocessableContent ''POSTHOG_API_KEY environment variable is required''), [], wl)
   \<and> get_posthog_insight stringify toString fetch_i (env(''POSTHOG_API_KEY'' \<mapsto> [])) insightId wi
     = (Inl (UnprocessableContent ''POSTHOG_API_KEY environment variable is required''), [], wi)
   \<and> run_posthog_sql stringify fetch_q (env(''POSTHOG_PROJECT_ID'' \<mapsto> [])) sql wq
     = run_posthog_sql stringify fetch_q (env(''POSTHOG_PROJECT_ID'' := None)) sql wq
   \<and> list_posthog_dashboards fetch_l (env(''POSTHOG_PROJECT_ID'' \<mapsto> [])) wl
     = list_posthog_dashboards fetch_l (env(''POSTHOG_PROJECT_ID'' := None)) wl
   \<and> get_posthog_insight stringify toString fetch_i (env(''POSTHOG_PROJECT_ID'' \<mapsto> [])) insightId wi
     = get_posthog_insight stringify toString fetch_i (env(''POSTHOG_PROJECT_ID'' := None)) insightId wi
   \<and> run_posthog_sql stringify fetch_q (env(''POSTHOG_HOST'' \<mapsto> [])) sql wq
     = run_posthog_sql stringify fetch_q (env(''POSTHOG_HOST'' := None)) sql wq
   \<and> list_posthog_dashboards fetch_l (env(''POSTHOG_HOST'' \<mapsto> [])) wl
     = list_posthog_dashboards fetch_l (env(''POSTHOG_HOST'' := None)) wl
   \<and> get_posthog_insight stringify toString fetch_i (env(''POSTHOG_HOST'' \<mapsto> [])) insightId wi
     = get_posthog_insight stringify toString fetch_i (env(''POSTHOG_HOST'' := None)) insightId wi"
  by (intro conjI impI)
     (simp_all add: run_posthog_sql_def list_posthog_dashboards_def get_posthog_insight_def Let_def)

theorem empty_configuration_is_missing_witness:
  "list_posthog_dashboards scripted [''POSTHOG_API_KEY'' \<mapsto> ''phx_key'', ''POSTHOG_PROJECT_ID'' \<mapsto> []]
       [respond 200 [] example_page2]
     = Some (Inl (UnprocessableContent ''POSTHOG_PROJECT_ID environment variable is required''), [],
             [respond 200 [] example_page2])
   \<and> map req_url (fst (snd (run_posthog_sql (\<lambda>v. []) scripted (example_env(''POSTHOG_HOST'' \<mapsto> []))
                              ''select 1'' [respond 200 [] example_timings])))
     = [''https://us.posthog.com/api/projects/42/query'']"
proof -
  have a: "list_posthog_dashboards scripted
             [''POSTHOG_API_KEY'' \<mapsto> ''phx_key'', ''POSTHOG_PROJECT_ID'' \<mapsto> []]
             [respond 200 [] example_page2]
     = Some (Inl (UnprocessableContent ''POSTHOG_PROJECT_ID environment variable is required''), [],
             [respond 200 [] example_page2])"
    using empty_configuration_is_missing [where env = "[''POSTHOG_API_KEY'' \<mapsto> ''phx_key'']"
        and fetch_l = scripted and wl = "[respond 200 [] example_page2]", THEN conjunct1,
        THEN mp, THEN conjunct2, THEN conjunct1]
    by simp
  have "run_posthog_sql (\<lambda>v. []) scripted (example_env(''POSTHOG_HOST'' \<mapsto> []))
                              ''select 1'' [respond 200 [] example_timings]
      = run_posthog_sql (\<lambda>v. []) scripted (example_env(''POSTHOG_HOST'' \<mapsto> ''us.posthog.com''))
                              ''select 1'' [respond 200 [] example_timings]"
    using empty_configuration_is_missing [where stringify = "\<lambda>v. []" and fetch_q = scripted
        and env = example_env and sql = "''select 1''" and wq = "[respond 200 [] example_timings]",
        THEN conjunct2, THEN conjunct1] .
  then have b: "map req_url (fst (snd (run_posthog_sql (\<lambda>v. []) scripted
                   (example_env(''POSTHOG_HOST'' \<mapsto> [])) ''select 1'' [respond 200 [] example_timings])))
     = [''https://us.posthog.com/api/projects/42/query'']"
    by (simp add: run_posthog_sql_def run_posthog_sql_try_def example_env_def query_request_def
        Let_def split: sum.splits)
  from a b show ?thesis by (rule conjI)
qed

text \<open>
  C7. Let the environment hold a key and a project id. If the answer to the request of
  \<open>run_posthog_sql\<close> or of \<open>get_posthog_insight\<close>, or the answer to any page request of
  \<open>list_posthog_dashboards\<close> (after any number of pages served), has a status outside
  200..299 and body text \<open>txt\<close>, the operation fails with one \<open>UnprocessableContent\<close>
  error whose message is the operation's prefix (\<open>PostHog query failed: \<close>,
  \<open>Failed to list dashboards: \<close>, \<open>Failed to get insight: \<close>) followed by
  \<open>PostHog API error: \<close>, the decimal status code, \<open> - \<close> and \<open>txt\<close>.
\<close>

theorem non_2xx_status_raises:
  assumes "env ''POSTHOG_API_KEY'' = Some API_KEY" "API_KEY \<noteq> []"
      and "env ''POSTHOG_PROJECT_ID'' = Some PROJECT_ID" "PROJECT_ID \<noteq> []"
      and host: "HOST = or_str (env ''POSTHOG_HOST'') ''us.posthog.com''"
  shows
    "(fetch_q (query_request stringify HOST PROJECT_ID API_KEY sql) wq = (Inr rq, wq')
        \<and> (status rq < 200 \<or> 299 < status rq) \<and> body_text rq = Inr txt_q \<longrightarrow>
      run_posthog_sql stringify fetch_q env sql wq
        = (Inl (UnprocessableContent
                  (''PostHog query failed: '' @ ''PostHog API error: '' @ decimal (status rq)
                     @ '' - '' @ txt_q)),
           [query_request stringify HOST PROJECT_ID API_KEY sql], wq'))
   \<and> (follows fetch_l API_KEY (''https://'' @ HOST @ ''/api/projects/'' @ PROJECT_ID @ ''/dashboards/'')
          wl pages = Some (u, wl_u)
        \<and> fetch_l (page_request API_KEY u) wl_u = (Inr rl, wl')
        \<and> (status rl < 200 \<or> 299 < status rl) \<and> body_text rl = Inr txt_l \<longrightarrow>
      list_posthog_dashboards fetch_l env wl
        = Some (Inl (UnprocessableContent
                       (''Failed to list dashboards: '' @ ''PostHog API error: '' @ decimal (status rl)
                          @ '' - '' @ txt_l)),
                map (page_request API_KEY)
                  (page_urls (''https://'' @ HOST @ ''/api/projects/'' @ PROJECT_ID @ ''/dashboards/'')
                     pages)
                @ [page_request API_KEY u], wl'))
   \<and> (fetch_i (insight_request toString HOST PROJECT_ID API_KEY insightId) wi = (Inr ri, wi')
        \<and> (status ri < 200 \<or> 299 < status ri) \<and> body_text ri = Inr txt_i \<longrightarrow>
      get_posthog_insight stringify toString fetch_i env insightId wi
        = (Inl (UnprocessableContent
                  (''Failed to get insight: '' @ ''PostHog API error: '' @ decimal (status ri)
                     @ '' - '' @ txt_i)),
           [insight_request toString HOST PROJECT_ID API_KEY insightId], wi'))"
proof (intro conjI impI; elim conjE)
  assume f: "fetch_q (query_request stringify HOST PROJECT_ID API_KEY sql) wq = (Inr rq, wq')"
    and s: "status rq < 200 \<or> 299 < status rq" and t: "body_text rq = Inr txt_q"
  from read_json_failed [OF s t] f assms
  show "run_posthog_sql stringify fetch_q env sql wq
        = (Inl (UnprocessableContent
                  (''PostHog query failed: '' @ ''PostHog API error: '' @ decimal (status rq)
                     @ '' - '' @ txt_q)),
           [query_request stringify HOST PROJECT_ID API_KEY sql], wq')"
    by (simp add: run_posthog_sql_def run_posthog_sql_try_def Let_def)
next
  assume f: "fetch_i (insight_request toString HOST PROJECT_ID API_KEY insightId) wi = (Inr ri, wi')"
    and s: "status ri < 200 \<or> 299 < status ri" and t: "body_text ri = Inr txt_i"
  from read_json_failed [OF s t] f assms
  show "get_posthog_insight stringify toString fetch_i env insightId wi
        = (Inl (UnprocessableContent
                  (''Failed to get insight: '' @ ''PostHog API error: '' @ decimal (status ri)
                     @ '' - '' @ txt_i)),
           [insight_request toString HOST PROJECT_ID API_KEY insightId], wi')"
    by (simp add: get_posthog_insight_def get_posthog_insight_try_def Let_def)
next
  let ?url = "''https://'' @ HOST @ ''/api/projects/'' @ PROJECT_ID @ ''/dashboards/''"
  let ?e = "JsError (''PostHog API error: '' @ decimal (status rl) @ '' - '' @ txt_l)"
  let ?calls = "map (page_request API_KEY) (page_urls ?url pages)"
  assume pages: "follows fetch_l API_KEY ?url wl pages = Some (u, wl_u)"
    and f: "fetch_l (page_request API_KEY u) wl_u = (Inr rl, wl')"
    and s: "status rl < 200 \<or> 299 < status rl" and t: "body_text rl = Inr txt_l"
  have nonempty: "?url \<noteq> []" by simp
  from paginate_follows [OF pages nonempty, of "[]" "[]"]
  have pre: "paginate fetch_l API_KEY (Val ?url) [] [] wl
               = paginate fetch_l API_KEY (Val u) (concat (map spec_page pages)) ?calls wl_u"
    and u: "u \<noteq> []"
    by simp_all
  from read_json_failed [OF s t] f
  have "read_json (fst (fetch_l (page_request API_KEY u) wl_u)) = Inl ?e" by simp
  with paginate_throw [of u fetch_l API_KEY wl_u ?e "concat (map spec_page pages)" ?calls] u f
  have "paginate fetch_l API_KEY (Val u) (concat (map spec_page pages)) ?calls wl_u
          = Some (Inl ?e, ?calls @ [page_request API_KEY u], wl')"
    by simp
  with pre have "paginate fetch_l API_KEY (Val ?url) [] [] wl
          = Some (Inl ?e, ?calls @ [page_request API_KEY u], wl')"
    by simp
  with list_posthog_dashboards_configured [OF assms(1-4), of fetch_l wl] host
  show "list_posthog_dashboards fetch_l env wl
        = Some (Inl (UnprocessableContent
                       (''Failed to list dashboards: '' @ ''PostHog API error: '' @ decimal (status rl)
                          @ '' - '' @ txt_l)),
                ?calls @ [page_request API_KEY u], wl')"
    by simp
qed

theorem non_2xx_status_raises_witness:
  "run_posthog_sql (\<lambda>v. []) scripted example_env ''select 1'' [respond 404 ''Not found'' example_timings]
     = (Inl (UnprocessableContent ''PostHog query failed: PostHog API error: 404 - Not found''),
        [query_request (\<lambda>v. []) ''us.posthog.com'' ''42'' ''phx_key'' ''select 1''], [])
   \<and> list_posthog_dashboards scripted example_env
       [respond 200 [] example_page1, respond 500 ''Server error'' example_page2]
     = Some (Inl (UnprocessableContent
                    ''Failed to list dashboards: PostHog API error: 500 - Server error''),
             [page_request ''phx_key'' ''https://us.posthog.com/api/projects/42/dashboards/'',
              page_request ''phx_key'' ''https://us.posthog.com/api/projects/42/dashboards/?offset=2''],
             [])
   \<and> get_posthog_insight (\<lambda>v. []) (\<lambda>n. ''9'') scripted example_env 9
       [respond 403 ''Forbidden'' example_insight]
     = (Inl (UnprocessableContent ''Failed to get insight: PostHog API error: 403 - Forbidden''),
        [insight_request (\<lambda>n. ''9'') ''us.posthog.com'' ''42'' ''phx_key'' 9], [])"
proof -
  let ?u0 = "''https://us.posthog.com/api/projects/42/dashboards/''"
  let ?u1 = "''https://us.posthog.com/api/projects/42/dashboards/?offset=2''"
  have cfg: "example_env ''POSTHOG_API_KEY'' = Some ''phx_key''" "''phx_key'' \<noteq> []"
    "example_env ''POSTHOG_PROJECT_ID'' = Some ''42''" "''42'' \<noteq> []"
    "''us.posthog.com'' = or_str (example_env ''POSTHOG_HOST'') ''us.posthog.com''"
    by (simp_all add: example_env_def)
  have q: "scripted (query_request (\<lambda>v. []) ''us.posthog.com'' ''42'' ''phx_key'' ''select 1'')
             [respond 404 ''Not found'' example_timings]
           = (Inr (respond 404 ''Not found'' example_timings), [])
        \<and> (status (respond 404 ''Not found'' example_timings) < 200
             \<or> 299 < status (respond 404 ''Not found'' example_timings))
        \<and> body_text (respond 404 ''Not found'' example_timings) = Inr ''Not found''"
    by (simp add: scripted_def respond_def)
  have l: "follows scripted ''phx_key'' (''https://'' @ ''us.posthog.com'' @ ''/api/projects/'' @ ''42'' @ ''/dashboards/'')
             [respond 200 [] example_page1, respond 500 ''Server error'' example_page2] [example_page1]
           = Some (?u1, [respond 500 ''Server error'' example_page2])
        \<and> scripted (page_request ''phx_key'' ?u1) [respond 500 ''Server error'' example_page2]
           = (Inr (respond 500 ''Server error'' example_page2), [])
        \<and> (status (respond 500 ''Server error'' example_page2) < 200
             \<or> 299 < status (respond 500 ''Server error'' example_page2))
        \<and> body_text (respond 500 ''Server error'' example_page2) = Inr ''Server error''"
    by (simp add: scripted_def respond_def example_page1_def)
  have i: "scripted (insight_request (\<lambda>n. ''9'') ''us.posthog.com'' ''42'' ''phx_key'' 9)
             [respond 403 ''Forbidden'' example_insight]
           = (Inr (respond 403 ''Forbidden'' example_insight), [])
        \<and> (status (respond 403 ''Forbidden'' example_insight) < 200
             \<or> 299 < status (respond 403 ''Forbidden'' example_insight))
        \<and> body_text (respond 403 ''Forbidden'' example_insight) = Inr ''Forbidden''"
    by (simp add: scripted_def respond_def)
  from non_2xx_status_raises [where fetch_q = scripted and stringify = "\<lambda>v. []"
      and sql = "''select 1''" and wq = "[respond 404 ''Not found'' example_timings]"
      and rq = "respond 404 ''Not found'' example_timings" and wq' = "[]"
      and txt_q = "''Not found''", OF cfg, THEN conjunct1, THEN mp, OF q]
  have a: "run_posthog_sql (\<lambda>v. []) scripted example_env ''select 1''
             [respond 404 ''Not found'' example_timings]
     = (Inl (UnprocessableContent ''PostHog query failed: PostHog API error: 404 - Not found''),
        [query_request (\<lambda>v. []) ''us.posthog.com'' ''42'' ''phx_key'' ''select 1''], [])"
    by (simp add: respond_def decimal_3_digits)
  from non_2xx_status_raises [where fetch_l = scripted
      and wl = "[respond 200 [] example_page1, respond 500 ''Server error'' example_page2]"
      and pages = "[example_page1]" and u = ?u1
      and wl_u = "[respond 500 ''Server error'' example_page2]"
      and rl = "respond 500 ''Server error'' example_page2" and wl' = "[]"
      and txt_l = "''Server error''", OF cfg, THEN conjunct2, THEN conjunct1, THEN mp, OF l]
  have b: "list_posthog_dashboards scripted example_env
       [respond 200 [] example_page1, respond 500 ''Server error'' example_page2]
     = Some (Inl (UnprocessableContent
                    ''Failed to list dashboards: PostHog API error: 500 - Server error''),
             [page_request ''phx_key'' ?u0, page_request ''phx_key'' ?u1], [])"
    by (simp add: respond_def decimal_3_digits)
  from non_2xx_status_raises [where fetch_i = scripted and stringify = "\<lambda>v. []"
      and toString = "\<lambda>n. ''9''" and insightId = 9
      and wi = "[respond 403 ''Forbidden'' example_insight]"
      and ri = "respond 403 ''Forbidden'' example_insight" and wi' = "[]"
      and txt_i = "''Forbidden''", OF cfg, THEN conjunct2, THEN conjunct2, THEN mp, OF i]
  have c: "get_posthog_insight (\<lambda>v. []) (\<lambda>n. ''9'') scripted example_env 9
       [respond 403 ''Forbidden'' example_insight]
     = (Inl (UnprocessableContent ''Failed to get insight: PostHog API error: 403 - Forbidden''),
        [insight_request (\<lambda>n. ''9'') ''us.posthog.com'' ''42'' ''phx_key'' 9], [])"
    by (simp add: respond_def decimal_3_digits)
  from a b c show ?thesis by (intro conjI)
qed

section \<open>Tracked events\<close>

subsection \<open>The set keeps the order of first discovery\<close>

lemma same_value_zero_sym: "same_value_zero a b = same_value_zero b a"
  by (cases a; cases b) (auto simp: same_value_zero_def)

lemma same_value_zero_eq: "same_value_zero a b \<Longrightarrow> a = b"
  by (cases a) (auto simp: same_value_zero_def)

lemma same_value_zero_str [simp]: "same_value_zero (JStr s) v = (v = JStr s)"
  by (auto simp: same_value_zero_def)

lemma set_first_seen: "set (first_seen xs) \<subseteq> set xs"
  by (induction xs rule: first_seen.induct) auto

lemma foldl_set_add:
  "foldl set_add acc xs = acc @ first_seen (filter (\<lambda>y. \<not> list_ex (same_value_zero y) acc) xs)"
proof (induction xs arbitrary: acc)
  case Nil
  then show ?case by simp
next
  case (Cons x xs)
  show ?case
  proof (cases "list_ex (same_value_zero x) acc")
    case True
    then have "set_add acc x = acc" by (simp add: set_add_def)
    with True show ?thesis by (simp add: Cons.IH)
  next
    case False
    then have add: "set_add acc x = acc @ [x]" by (simp add: set_add_def)
    have "filter (\<lambda>y. \<not> list_ex (same_value_zero y) (acc @ [x])) xs
            = filter (\<lambda>y. \<not> same_value_zero x y) (filter (\<lambda>y. \<not> list_ex (same_value_zero y) acc) xs)"
      by (auto simp: same_value_zero_sym [of x] intro: filter_cong)
    with False add show ?thesis by (simp add: Cons.IH)
  qed
qed

lemma foldl_set_add_Nil: "foldl set_add [] xs = first_seen xs"
  by (simp add: foldl_set_add)

lemma count_first_seen_str: "count_list (first_seen xs) (JStr s) \<le> 1"
proof (induction xs rule: first_seen.induct)
  case 1
  then show ?case by simp
next
  case (2 x xs)
  show ?case
  proof (cases "x = JStr s")
    case True
    have "JStr s \<notin> set (first_seen (filter (\<lambda>y. \<not> same_value_zero x y) xs))"
      using set_first_seen [of "filter (\<lambda>y. \<not> same_value_zero x y) xs"] True by auto
    then have "count_list (first_seen (filter (\<lambda>y. \<not> same_value_zero x y) xs)) (JStr s) = 0"
      by (simp add: count_list_0_iff)
    with True show ?thesis by simp
  next
    case False
    with 2 show ?thesis by simp
  qed
qed

lemma set_first_seen_eq: "set (first_seen xs) = set xs"
proof (induction xs rule: first_seen.induct)
  case 1
  then show ?case by simp
next
  case (2 x xs)
  have "set xs \<subseteq> insert x (set (filter (\<lambda>y. \<not> same_value_zero x y) xs))"
    by (auto dest: same_value_zero_eq)
  with 2 show ?case by auto
qed

lemma same_value_zero_primitive: "is_primitive x \<Longrightarrow> same_value_zero x x"
  by (cases x) (simp_all add: is_primitive_def same_value_zero_def)

lemma distinct_first_seen_primitive: "distinct (filter is_primitive (first_seen xs))"
proof (induction xs rule: first_seen.induct)
  case 1
  then show ?case by simp
next
  case (2 x xs)
  have "x \<notin> set (first_seen (filter (\<lambda>y. \<not> same_value_zero x y) xs))" if "is_primitive x"
    using set_first_seen [of "filter (\<lambda>y. \<not> same_value_zero x y) xs"]
      same_value_zero_primitive [OF that]
    by auto
  with 2 show ?case by simp
qed

lemma filter_first_seen_objects:
  "filter (\<lambda>v. \<not> is_primitive v) (first_seen xs) = filter (\<lambda>v. \<not> is_primitive v) xs"
proof (induction xs rule: first_seen.induct)
  case 1
  then show ?case by simp
next
  case (2 x xs)
  have "\<not> same_value_zero x y" if "\<not> is_primitive y" for y
    using that by (cases x; cases y) (simp_all add: same_value_zero_def is_primitive_def)
  then have "filter (\<lambda>v. \<not> is_primitive v) (filter (\<lambda>y. \<not> same_value_zero x y) xs)
               = filter (\<lambda>v. \<not> is_primitive v) xs"
    by (auto intro: filter_cong)
  with 2 show ?case by simp
qed

lemma is_string_primitive: "is_string v \<Longrightarrow> is_primitive v"
  by (cases v) (simp_all add: is_string_def is_primitive_def)

lemma distinct_first_seen_strings:
  assumes "\<forall>v\<in>set xs. is_string v"
  shows "distinct (first_seen xs)"
proof -
  from assms set_first_seen [of xs] have "\<forall>v\<in>set (first_seen xs). is_primitive v"
    by (auto dest: is_string_primitive)
  then have "filter is_primitive (first_seen xs) = first_seen xs"
    by (simp add: filter_id_conv)
  with distinct_first_seen_primitive [of xs] show ?thesis by simp
qed

subsection \<open>The loops add what is present\<close>

lemma add_if_truthy_fold: "add_if_truthy events x = foldl set_add events (when_present x)"
  by (cases x) (simp_all add: add_if_truthy_def when_present_def)

lemma read_prop_Inr: "read_prop v p = Inr x \<Longrightarrow> x = get_prop v p"
  by (auto simp: read_prop_def split: if_splits)

lemma scan_series_fold:
  "scan_series events entries = Inr events' \<Longrightarrow>
   events' = foldl set_add events
               (concat (map (\<lambda>entry. when_present (get_prop entry ''event'') @ when_present (get_prop entry ''name'')) entries))"
proof (induction entries arbitrary: events)
  case Nil
  then show ?case by simp
next
  case (Cons entry entries)
  from Cons.prems obtain event name where
    e: "read_prop entry ''event'' = Inr event" and n: "read_prop entry ''name'' = Inr name" and
    r: "scan_series (add_if_truthy (add_if_truthy events event) name) entries = Inr events'"
    by (auto split: sum.splits)
  from Cons.IH [OF r] read_prop_Inr [OF e] read_prop_Inr [OF n]
  show ?case by (simp add: add_if_truthy_fold)
qed

lemma scan_events_fold:
  "scan_events events entries = Inr events' \<Longrightarrow>
   events' = foldl set_add events
               (concat (map (\<lambda>entry. when_present (get_prop entry ''id'') @ when_present (get_prop entry ''name'')) entries))"
proof (induction entries arbitrary: events)
  case Nil
  then show ?case by simp
next
  case (Cons entry entries)
  from Cons.prems obtain ident name where
    e: "read_prop entry ''id'' = Inr ident" and n: "read_prop entry ''name'' = Inr name" and
    r: "scan_events (add_if_truthy (add_if_truthy events ident) name) entries = Inr events'"
    by (auto split: sum.splits)
  from Cons.IH [OF r] read_prop_Inr [OF e] read_prop_Inr [OF n]
  show ?case by (simp add: add_if_truthy_fold)
qed

lemma scan_actions_fold:
  "scan_actions events entries = Inr events' \<Longrightarrow>
   events' = foldl set_add events
               (concat (map (\<lambda>entry. when_present (get_prop entry ''name'')) entries))"
proof (induction entries arbitrary: events)
  case Nil
  then show ?case by simp
next
  case (Cons entry entries)
  from Cons.prems obtain name where
    n: "read_prop entry ''name'' = Inr name" and
    r: "scan_actions (add_if_truthy events name) entries = Inr events'"
    by (auto split: sum.splits)
  from Cons.IH [OF r] read_prop_Inr [OF n]
  show ?case by (simp add: add_if_truthy_fold)
qed

subsection \<open>The second pattern recovers the capture of the first\<close>

lemma is_space_not_quote: "is_space c \<Longrightarrow> c \<noteq> quote"
  by (auto simp: is_space_def quote_def)

lemma event_word_no_quote: "is_event_word word \<Longrightarrow> quote \<notin> set word"
  by (auto simp: is_event_word_def quote_def list_all2_Cons2)

lemma dropWhile_head: "dropWhile P xs = y # ys \<Longrightarrow> \<not> P y"
  by (metis hd_dropWhile list.sel(1) list.distinct(1))

lemma event_match_here_shape:
  assumes "event_match_here s = Some (m, v, rest)"
  shows "\<exists>word ws1 ws2.
           m = word @ ws1 @ ''='' @ ws2 @ quote # v @ [quote] \<and> s = m @ rest
           \<and> is_event_word word \<and> (\<forall>c\<in>set ws1. is_space c) \<and> (\<forall>c\<in>set ws2. is_space c)
           \<and> v \<noteq> [] \<and> quote \<notin> set v"
proof -
  let ?nq = "\<lambda>x. x \<noteq> quote"
  from assms obtain c r2 q r3 q' where
    w: "is_event_word (take 5 s)" and
    r1: "dropWhile is_space (drop 5 s) = c # r2" and c: "c = CHR ''=''" and
    r3: "dropWhile is_space r2 = q # r3" and q: "q = quote" and
    r5: "dropWhile ?nq r3 = q' # rest" and
    v: "v = takeWhile ?nq r3" "v \<noteq> []" and
    m: "m = take 5 s @ takeWhile is_space (drop 5 s) @ [c] @ takeWhile is_space r2 @ [q] @ v @ [q']"
    by (auto simp: event_match_here_def Let_def split: if_splits list.splits)
  from dropWhile_head [OF r5] have q': "q' = quote" by simp
  have "s = take 5 s @ drop 5 s" by simp
  also have "drop 5 s = takeWhile is_space (drop 5 s) @ c # r2"
    using r1 takeWhile_dropWhile_id [of is_space "drop 5 s"] by simp
  also have "r2 = takeWhile is_space r2 @ q # r3"
    using r3 takeWhile_dropWhile_id [of is_space r2] by simp
  also have "r3 = v @ q' # rest"
    using r5 v(1) takeWhile_dropWhile_id [of ?nq r3] by simp
  finally have s: "s = m @ rest" by (simp add: m)
  have nq: "quote \<notin> set v" using v(1) by (auto dest: set_takeWhileD)
  have sp: "\<forall>c\<in>set (takeWhile is_space (drop 5 s)). is_space c"
    "\<forall>c\<in>set (takeWhile is_space r2). is_space c"
    by (auto dest: set_takeWhileD)
  have m': "m = take 5 s @ takeWhile is_space (drop 5 s) @ ''='' @ takeWhile is_space r2
                @ quote # v @ [quote]"
    by (simp add: m c q q')
  show ?thesis
    by (rule exI [of _ "take 5 s"], rule exI [of _ "takeWhile is_space (drop 5 s)"],
        rule exI [of _ "takeWhile is_space r2"], intro conjI)
       (rule m', rule s, rule w, rule sp(1), rule sp(2), rule v(2), rule nq)
qed

lemma first_quoted_skip: "quote \<notin> set pre \<Longrightarrow> first_quoted (pre @ s) = first_quoted s"
  by (induction pre) auto

lemma takeWhile_to_quote: "quote \<notin> set v \<Longrightarrow> takeWhile (\<lambda>x. x \<noteq> quote) (v @ quote # post) = v"
  by (induction v) auto

lemma dropWhile_to_quote:
  "quote \<notin> set v \<Longrightarrow> dropWhile (\<lambda>x. x \<noteq> quote) (v @ quote # post) = quote # post"
  by (induction v) auto

lemma first_quoted_hit:
  assumes "v \<noteq> []" "quote \<notin> set v"
  shows "first_quoted (quote # v @ quote # post) = Some v"
  using assms by (simp add: takeWhile_to_quote dropWhile_to_quote)

lemma first_quoted_nonempty: "first_quoted s = Some v \<Longrightarrow> v \<noteq> []"
  by (induction s) (auto split: if_splits)

lemma event_match_first_quoted:
  assumes "event_match_here s = Some (m, v, rest)"
  shows "first_quoted m = Some v"
proof -
  from event_match_here_shape [OF assms] obtain word ws1 ws2 where
    m: "m = (word @ ws1 @ ''='' @ ws2) @ quote # v @ quote # []" and
    w: "is_event_word word" and s: "\<forall>c\<in>set ws1. is_space c" "\<forall>c\<in>set ws2. is_space c" and
    v: "v \<noteq> []" "quote \<notin> set v"
    by auto
  have "quote \<notin> set (word @ ws1 @ ''='' @ ws2)"
    using event_word_no_quote [OF w] s is_space_not_quote by (auto simp: quote_def)
  from first_quoted_skip [OF this] first_quoted_hit [OF v] show ?thesis
    unfolding m by simp
qed

lemma captures_of_matches: "List.map_filter first_quoted (match_all s) = capture_all s"
proof (induction s rule: match_all.induct)
  case (1 s)
  show ?case
  proof (cases "s = []")
    case True
    then show ?thesis by (simp add: match_all.simps capture_all.simps map_filter_simps)
  next
    case False
    show ?thesis
    proof (cases "event_match_here s")
      case None
      with False 1 show ?thesis
        by (subst match_all.simps, subst capture_all.simps) simp
    next
      case (Some hit)
      obtain m v rest where hit: "hit = (m, v, rest)" by (cases hit)
      with False Some 1 event_match_first_quoted [of s m v rest] show ?thesis
        by (subst match_all.simps, subst capture_all.simps) (simp add: map_filter_simps)
    qed
  qed
qed

lemma scan_matches_fold:
  "scan_matches events ms = foldl set_add events (map JStr (List.map_filter first_quoted ms))"
proof (induction ms arbitrary: events)
  case Nil
  then show ?case by (simp add: map_filter_simps)
next
  case (Cons m ms)
  then show ?case
    by (cases "first_quoted m") (auto simp: map_filter_simps dest: first_quoted_nonempty)
qed

subsection \<open>The extraction as a whole\<close>

lemma scan_query_fold:
  assumes "scan_query events query = Inr events'"
  shows "events' = foldl set_add events (from_series query @ from_hogql query)"
proof (cases "\<exists>kvs. query = Some (JObj kvs)")
  case False
  then have "prop_of query p = None" for p
  proof (cases query)
    case None
    then show ?thesis by (simp add: prop_of_def)
  next
    case (Some a)
    with False show ?thesis by (cases a) (simp_all add: prop_of_def)
  qed
  moreover from False have "from_series query = []" "from_hogql query = []"
    by (auto simp: from_series_def from_hogql_def array_under_def split: option.splits json.splits)
  ultimately show ?thesis using assms by (simp add: scan_query_def split: if_splits)
next
  case True
  then obtain kvs where q: "query = Some (JObj kvs)" by blast
  define events1 where "events1 = foldl set_add events (from_series query)"
  have s: "(case prop_of query ''series'' of Some (JArr entries) \<Rightarrow> scan_series events entries
            | _ \<Rightarrow> Inr events) = (Inr e1 :: js_error + json list) \<Longrightarrow> e1 = events1" for e1
    unfolding events1_def q
    by (auto simp: prop_of_def from_series_def array_under_def dest: scan_series_fold
        split: option.splits json.splits)
  have h: "(case prop_of query ''query'' of
              Some (JStr text) \<Rightarrow>
                if text = [] then Inr e1
                else (case match_global text of None \<Rightarrow> Inr e1
                      | Some eventMatches \<Rightarrow> Inr (scan_matches e1 eventMatches))
            | _ \<Rightarrow> Inr e1) = (Inr (foldl set_add e1 (from_hogql query)) :: js_error + json list)" for e1
  proof (cases "\<exists>hogql. map_of kvs ''query'' = Some (JStr hogql)")
    case False
    then show ?thesis
      unfolding q by (auto simp: prop_of_def from_hogql_def split: option.splits json.splits)
  next
    case True
    then obtain hogql where t: "map_of kvs ''query'' = Some (JStr hogql)" by blast
    have "scan_matches e1 (match_all hogql) = foldl set_add e1 (map JStr (capture_all hogql))"
      by (simp add: scan_matches_fold captures_of_matches)
    moreover have "match_all hogql = [] \<Longrightarrow> capture_all hogql = []"
      using captures_of_matches [of hogql] by (simp add: map_filter_simps)
    moreover have "capture_all [] = []" by (simp add: capture_all.simps)
    ultimately show ?thesis
      unfolding q using t
      by (auto simp: prop_of_def from_hogql_def match_global_def split: list.splits)
  qed
  define ser where "ser = (case prop_of query ''series'' of
      Some (JArr entries) \<Rightarrow> scan_series events entries | _ \<Rightarrow> Inr events)"
  from assms have run: "(case ser of Inl e \<Rightarrow> Inl e
      | Inr e1 \<Rightarrow>
          (case prop_of query ''query'' of
              Some (JStr text) \<Rightarrow>
                if text = [] then Inr e1
                else (case match_global text of None \<Rightarrow> Inr e1
                      | Some eventMatches \<Rightarrow> Inr (scan_matches e1 eventMatches))
            | _ \<Rightarrow> Inr e1)) = (Inr events' :: js_error + json list)"
    unfolding q ser_def by (simp add: scan_query_def)
  then obtain e1 where a: "ser = Inr e1" by (cases ser) auto
  with run have b: "(case prop_of query ''query'' of
              Some (JStr text) \<Rightarrow>
                if text = [] then Inr e1
                else (case match_global text of None \<Rightarrow> Inr e1
                      | Some eventMatches \<Rightarrow> Inr (scan_matches e1 eventMatches))
            | _ \<Rightarrow> Inr e1) = (Inr events' :: js_error + json list)"
    by (simp only: sum.case)
  note a = a [unfolded ser_def]
  from b h [of e1] have "events' = foldl set_add e1 (from_hogql query)" by simp
  with s [OF a] show ?thesis by (simp add: events1_def)
qed

lemma scan_filters_fold:
  assumes "scan_filters events filters = Inr events'"
  shows "events' = foldl set_add events (from_filter_events filters @ from_filter_actions filters)"
proof (cases "\<exists>kvs. filters = Some (JObj kvs)")
  case False
  then have "prop_of filters p = None" for p
  proof (cases filters)
    case None
    then show ?thesis by (simp add: prop_of_def)
  next
    case (Some a)
    with False show ?thesis by (cases a) (simp_all add: prop_of_def)
  qed
  moreover from False have "from_filter_events filters = []" "from_filter_actions filters = []"
    by (auto simp: from_filter_events_def from_filter_actions_def array_under_def
        split: option.splits json.splits)
  ultimately show ?thesis using assms by (simp add: scan_filters_def split: if_splits)
next
  case True
  then obtain kvs where q: "filters = Some (JObj kvs)" by blast
  have s: "(case prop_of filters ''events'' of Some (JArr entries) \<Rightarrow> scan_events events entries
            | _ \<Rightarrow> Inr events) = (Inr e1 :: js_error + json list) \<Longrightarrow> e1 = foldl set_add events (from_filter_events filters)" for e1
    unfolding q
    by (auto simp: prop_of_def from_filter_events_def array_under_def dest: scan_events_fold
        split: option.splits json.splits)
  have a: "(case prop_of filters ''actions'' of Some (JArr entries) \<Rightarrow> scan_actions e1 entries
            | _ \<Rightarrow> Inr e1) = (Inr e2 :: js_error + json list) \<Longrightarrow> e2 = foldl set_add e1 (from_filter_actions filters)" for e1 e2
    unfolding q
    by (auto simp: prop_of_def from_filter_actions_def array_under_def dest: scan_actions_fold
        split: option.splits json.splits)
  define evs where "evs = (case prop_of filters ''events'' of
      Some (JArr entries) \<Rightarrow> scan_events events entries | _ \<Rightarrow> Inr events)"
  from assms have run: "(case evs of Inl e \<Rightarrow> Inl e
      | Inr e1 \<Rightarrow>
          (case prop_of filters ''actions'' of Some (JArr entries) \<Rightarrow> scan_actions e1 entries
           | _ \<Rightarrow> Inr e1)) = (Inr events' :: js_error + json list)"
    unfolding q evs_def by (simp add: scan_filters_def)
  then obtain e1 where x: "evs = Inr e1" by (cases evs) auto
  with run have y: "(case prop_of filters ''actions'' of
      Some (JArr entries) \<Rightarrow> scan_actions e1 entries | _ \<Rightarrow> Inr e1) = (Inr events' :: js_error + json list)"
    by (simp only: sum.case)
  note x = x [unfolded evs_def]
  from s [OF x] a [OF y] show ?thesis by simp
qed

lemma extractTrackedEvents_discovered:
  assumes "extractTrackedEvents query filters = Inr events"
  shows "events = first_seen (discovered query filters)"
proof -
  from assms obtain e1 where
    "scan_query [] query = Inr e1" "scan_filters e1 filters = Inr events"
    by (auto simp: extractTrackedEvents_def split: sum.splits)
  from scan_query_fold [OF this(1)] scan_filters_fold [OF this(2)]
  show ?thesis
    by (simp add: discovered_def foldl_set_add_Nil [symmetric])
qed

lemma when_present_truthy: "v \<in> set (when_present x) \<Longrightarrow> truthy (Some v)"
  by (cases x) (auto simp: when_present_def split: if_splits)

lemma capture_all_nonempty: "v \<in> set (capture_all s) \<Longrightarrow> v \<noteq> []"
proof (induction s arbitrary: v rule: capture_all.induct)
  case (1 s)
  show ?case
  proof (cases "s = []")
    case True
    with 1(3) show ?thesis by (simp add: capture_all.simps)
  next
    case False
    show ?thesis
    proof (cases "event_match_here s")
      case None
      with False 1(3) have "v \<in> set (capture_all (tl s))"
        by (subst (asm) capture_all.simps) simp
      from 1(1) [OF False None this] show ?thesis .
    next
      case (Some hit)
      obtain m c rest where hit: "hit = (m, c, rest)" by (cases hit)
      with False Some 1(3) have "v = c \<or> v \<in> set (capture_all rest)"
        by (subst (asm) capture_all.simps) simp
      moreover from event_match_here_shape [of s m c rest] Some hit have "c \<noteq> []" by auto
      moreover note 1(2) [OF False Some hit [symmetric] refl, of v]
      ultimately show ?thesis by auto
    qed
  qed
qed

lemma discovered_truthy:
  assumes "v \<in> set (discovered query filters)"
  shows "truthy (Some v)"
proof -
  have "v \<in> set (from_hogql query) \<Longrightarrow> truthy (Some v)"
    by (auto simp: from_hogql_def dest: capture_all_nonempty split: option.splits json.splits)
  with assms show ?thesis
    by (auto simp: discovered_def from_series_def from_filter_events_def from_filter_actions_def
        dest: when_present_truthy)
qed

lemma get_posthog_insight_tracked:
  assumes "get_posthog_insight stringify toString fetch env insightId w = (Inr r, [req], w')"
      and "read_json (fst (fetch req w)) = Inr data"
  shows "idr_trackedEvents r = first_seen (discovered (ir_query data) (ir_filters data))"
proof -
  from get_posthog_insight_returns [OF assms(1)] assms(2)
  have "insight_detail stringify data = Inr r" by auto
  then have "extractTrackedEvents (ir_query data) (ir_filters data) = Inr (idr_trackedEvents r)"
    by (auto simp: insight_detail_def split: sum.splits)
  then show ?thesis by (rule extractTrackedEvents_discovered)
qed

lemma example_detail_run:
  assumes "extractTrackedEvents query filters = Inr events"
  shows "\<exists>r. get_posthog_insight (\<lambda>v. []) (\<lambda>n. ''9'') scripted example_env 9
               [respond 200 [] (example_detail query filters)]
             = (Inr r, [insight_request (\<lambda>n. ''9'') ''us.posthog.com'' ''42'' ''phx_key'' 9], [])
           \<and> read_json (fst (scripted (insight_request (\<lambda>n. ''9'') ''us.posthog.com'' ''42'' ''phx_key'' 9)
                                [respond 200 [] (example_detail query filters)]))
               = Inr (example_detail query filters)"
  using assms
  by (simp add: get_posthog_insight_def get_posthog_insight_try_def example_env_def scripted_def
      respond_def read_json_def ok_def insight_detail_def example_detail_def)

text \<open>
  C3, as stated, fails: \<open>trackedEvents\<close> is not always a sequence of strings, and not
  always free of duplicates. \<open>query\<close> and \<open>filters\<close> are of type \<^verbatim>\<open>any\<close>, every truthy
  value under a scanned field is added, and a \<^verbatim>\<open>Set\<close> compares arrays and objects by
  identity. With \<open>series = [{event: {x: "1"}}, {event: {x: "1"}}, {event: true},
  {event: ["a"]}]\<close> and \<open>filters.events = [{id: 3}]\<close> the operation returns the
  \<open>trackedEvents\<close> \<open>[{x: "1"}, {x: "1"}, true, ["a"], 3]\<close>: two equal objects, and no
  string at all.
\<close>

theorem trackedEvents_counterexample:
  "map_sum id idr_trackedEvents
     (fst (get_posthog_insight example_stringify example_toString scripted example_env 9
             [respond 200 [] (example_detail (Some example_mixed) (Some example_numeric))]))
     = Inr [JObj [(''x'', JStr ''1'')], JObj [(''x'', JStr ''1'')], JBool True, JArr [JStr ''a''],
            JNum 3]
   \<and> \<not> distinct [JObj [(''x'', JStr ''1'')], JObj [(''x'', JStr ''1'')], JBool True,
                    JArr [JStr ''a''], JNum 3]
   \<and> \<not> is_string (JObj [(''x'', JStr ''1'')]) \<and> \<not> is_string (JBool True)
   \<and> \<not> is_string (JArr [JStr ''a'']) \<and> \<not> is_string (JNum 3)"
proof -
  have "extractTrackedEvents (Some example_mixed) (Some example_numeric)
          = Inr [JObj [(''x'', JStr ''1'')], JObj [(''x'', JStr ''1'')], JBool True,
                 JArr [JStr ''a''], JNum 3]"
    by code_simp
  then have "map_sum id idr_trackedEvents
     (fst (get_posthog_insight example_stringify example_toString scripted example_env 9
             [respond 200 [] (example_detail (Some example_mixed) (Some example_numeric))]))
     = Inr [JObj [(''x'', JStr ''1'')], JObj [(''x'', JStr ''1'')], JBool True, JArr [JStr ''a''],
            JNum 3]"
    by (simp add: get_posthog_insight_def get_posthog_insight_try_def example_env_def scripted_def
        respond_def read_json_def ok_def insight_detail_def example_detail_def)
  then show ?thesis by (simp add: is_string_def)
qed

text \<open>
  C3, amended. Whenever \<open>get_posthog_insight\<close> returns, having received \<open>data\<close> in answer
  to its request, \<open>trackedEvents\<close> is the sequence of the values discovered by the four
  scans (a) to (d), in that order, each kept where it is first discovered: it holds
  exactly the discovered values, and booleans, numbers and strings are deduplicated by
  value (no string occurs twice), while arrays and objects are kept each time they are
  met. When every discovered value is a string, as for the insights that
  PostHog serves, \<open>trackedEvents\<close> is a sequence of strings without duplicates. It is
  the empty sequence when \<open>query\<close> and \<open>filters\<close> are both absent. Text is a sequence of
  8-bit code units here: the statement covers HogQL text within Latin-1. The witness
  runs the specification's example
  (\<open>series = [{event: "a"}, {event: "a", name: "a"}]\<close> gives \<open>["a"]\<close>), a HogQL query
  with legacy filters, and an insight with neither.
\<close>

theorem trackedEvents_first_discovery:
  assumes "get_posthog_insight stringify toString fetch env insightId w = (Inr r, [req], w')"
      and "read_json (fst (fetch req w)) = Inr data"
  shows "idr_trackedEvents r = first_seen (discovered (ir_query data) (ir_filters data))
       \<and> set (idr_trackedEvents r) = set (discovered (ir_query data) (ir_filters data))
       \<and> distinct (filter is_primitive (idr_trackedEvents r))
       \<and> filter (\<lambda>v. \<not> is_primitive v) (idr_trackedEvents r)
           = filter (\<lambda>v. \<not> is_primitive v) (discovered (ir_query data) (ir_filters data))
       \<and> (\<forall>s. count_list (idr_trackedEvents r) (JStr s) \<le> 1)
       \<and> ((\<forall>v\<in>set (discovered (ir_query data) (ir_filters data)). is_string v)
            \<longrightarrow> (\<forall>v\<in>set (idr_trackedEvents r). is_string v) \<and> distinct (idr_trackedEvents r))
       \<and> (ir_query data = None \<and> ir_filters data = None \<longrightarrow> idr_trackedEvents r = [])"
proof -
  note t = get_posthog_insight_tracked [OF assms]
  have "discovered None None = []"
    by (simp add: discovered_def from_series_def from_hogql_def from_filter_events_def
        from_filter_actions_def array_under_def)
  with t have none: "ir_query data = None \<and> ir_filters data = None \<longrightarrow> idr_trackedEvents r = []"
    by simp
  from t have same: "set (idr_trackedEvents r) = set (discovered (ir_query data) (ir_filters data))"
    by (simp add: set_first_seen_eq)
  from t have once: "\<forall>s. count_list (idr_trackedEvents r) (JStr s) \<le> 1"
    using count_first_seen_str by simp
  from t have prim: "distinct (filter is_primitive (idr_trackedEvents r))"
    by (simp add: distinct_first_seen_primitive)
  from t have objs: "filter (\<lambda>v. \<not> is_primitive v) (idr_trackedEvents r)
           = filter (\<lambda>v. \<not> is_primitive v) (discovered (ir_query data) (ir_filters data))"
    by (simp add: filter_first_seen_objects)
  have strings: "(\<forall>v\<in>set (discovered (ir_query data) (ir_filters data)). is_string v)
            \<longrightarrow> (\<forall>v\<in>set (idr_trackedEvents r). is_string v) \<and> distinct (idr_trackedEvents r)"
    using t same by (simp add: distinct_first_seen_strings)
  from t same prim objs once strings none show ?thesis by (intro conjI)
qed

theorem trackedEvents_first_discovery_witness:
  "(\<exists>r req. get_posthog_insight (\<lambda>v. []) (\<lambda>n. ''9'') scripted example_env 9
               [respond 200 [] (example_detail (Some example_series) None)]
             = (Inr r, [req], [])
           \<and> idr_trackedEvents r = [JStr ''a'']
           \<and> list_all is_string (idr_trackedEvents r) \<and> distinct (idr_trackedEvents r))
   \<and> (\<exists>r req. get_posthog_insight (\<lambda>v. []) (\<lambda>n. ''9'') scripted example_env 9
               [respond 200 [] (example_detail (Some example_hogql) (Some example_filters))]
             = (Inr r, [req], [])
           \<and> idr_trackedEvents r
               = [JStr ''signup'', JStr ''$pageview'', JStr ''All events'', JStr ''Paid''])
   \<and> (\<exists>r req. get_posthog_insight (\<lambda>v. []) (\<lambda>n. ''9'') scripted example_env 9
               [respond 200 [] (example_detail None None)]
             = (Inr r, [req], [])
           \<and> idr_trackedEvents r = [])"
proof -
  have a: "extractTrackedEvents (Some example_series) None = Inr [JStr ''a'']"
    and b: "extractTrackedEvents (Some example_hogql) (Some example_filters)
              = Inr [JStr ''signup'', JStr ''$pageview'', JStr ''All events'', JStr ''Paid'']"
    and c: "extractTrackedEvents None None = Inr []"
    by code_simp+
  have a': "first_seen (discovered (Some example_series) None) = [JStr ''a'']"
    and b': "first_seen (discovered (Some example_hogql) (Some example_filters))
              = [JStr ''signup'', JStr ''$pageview'', JStr ''All events'', JStr ''Paid'']"
    by code_simp+
  have "discovered (Some example_series) None = [JStr ''a'', JStr ''a'', JStr ''a'']"
    by code_simp
  then have a'': "\<forall>v\<in>set (discovered (Some example_series) None). is_string v"
    by (simp add: is_string_def)
  from example_detail_run [OF a] obtain r1 where
    r1: "get_posthog_insight (\<lambda>v. []) (\<lambda>n. ''9'') scripted example_env 9
               [respond 200 [] (example_detail (Some example_series) None)]
             = (Inr r1, [insight_request (\<lambda>n. ''9'') ''us.posthog.com'' ''42'' ''phx_key'' 9], [])"
      "read_json (fst (scripted (insight_request (\<lambda>n. ''9'') ''us.posthog.com'' ''42'' ''phx_key'' 9)
                                [respond 200 [] (example_detail (Some example_series) None)]))
               = Inr (example_detail (Some example_series) None)"
    by blast
  from trackedEvents_first_discovery [OF r1, THEN conjunct1] a'
  have t1: "idr_trackedEvents r1 = [JStr ''a'']" by (simp add: example_detail_def)
  from trackedEvents_first_discovery [OF r1, THEN conjunct2, THEN conjunct2, THEN conjunct2,
      THEN conjunct2, THEN conjunct2, THEN conjunct1] a''
  have "(\<forall>v\<in>set (idr_trackedEvents r1). is_string v) \<and> distinct (idr_trackedEvents r1)"
    by (simp add: example_detail_def)
  then have "list_all is_string (idr_trackedEvents r1) \<and> distinct (idr_trackedEvents r1)"
    by (simp add: list_all_iff)
  with t1 r1(1) have first: "\<exists>r req. get_posthog_insight (\<lambda>v. []) (\<lambda>n. ''9'') scripted example_env 9
               [respond 200 [] (example_detail (Some example_series) None)]
             = (Inr r, [req], [])
           \<and> idr_trackedEvents r = [JStr ''a'']
           \<and> list_all is_string (idr_trackedEvents r) \<and> distinct (idr_trackedEvents r)"
    by blast
  from example_detail_run [OF b] obtain r2 where
    r2: "get_posthog_insight (\<lambda>v. []) (\<lambda>n. ''9'') scripted example_env 9
               [respond 200 [] (example_detail (Some example_hogql) (Some example_filters))]
             = (Inr r2, [insight_request (\<lambda>n. ''9'') ''us.posthog.com'' ''42'' ''phx_key'' 9], [])"
      "read_json (fst (scripted (insight_request (\<lambda>n. ''9'') ''us.posthog.com'' ''42'' ''phx_key'' 9)
                                [respond 200 [] (example_detail (Some example_hogql) (Some example_filters))]))
               = Inr (example_detail (Some example_hogql) (Some example_filters))"
    by blast
  from trackedEvents_first_discovery [OF r2, THEN conjunct1] b'
  have "idr_trackedEvents r2 = [JStr ''signup'', JStr ''$pageview'', JStr ''All events'', JStr ''Paid'']"
    by (simp add: example_detail_def)
  with r2(1) have second: "\<exists>r req. get_posthog_insight (\<lambda>v. []) (\<lambda>n. ''9'') scripted example_env 9
               [respond 200 [] (example_detail (Some example_hogql) (Some example_filters))]
             = (Inr r, [req], [])
           \<and> idr_trackedEvents r
               = [JStr ''signup'', JStr ''$pageview'', JStr ''All events'', JStr ''Paid'']"
    by blast
  from example_detail_run [OF c] obtain r3 where
    r3: "get_posthog_insight (\<lambda>v. []) (\<lambda>n. ''9'') scripted example_env 9
               [respond 200 [] (example_detail None None)]
             = (Inr r3, [insight_request (\<lambda>n. ''9'') ''us.posthog.com'' ''42'' ''phx_key'' 9], [])"
      "read_json (fst (scripted (insight_request (\<lambda>n. ''9'') ''us.posthog.com'' ''42'' ''phx_key'' 9)
                                [respond 200 [] (example_detail None None)]))
               = Inr (example_detail None None)"
    by blast
  from trackedEvents_first_discovery [OF r3, THEN conjunct2, THEN conjunct2, THEN conjunct2,
      THEN conjunct2, THEN conjunct2, THEN conjunct2]
  have "idr_trackedEvents r3 = []" by (simp add: example_detail_def)
  with r3(1) have third: "\<exists>r req. get_posthog_insight (\<lambda>v. []) (\<lambda>n. ''9'') scripted example_env 9
               [respond 200 [] (example_detail None None)]
             = (Inr r, [req], [])
           \<and> idr_trackedEvents r = []"
    by blast
  from first second third show ?thesis by (intro conjI)
qed

text \<open>
  C10. Whenever \<open>get_posthog_insight\<close> returns, \<open>trackedEvents\<close> contains neither the
  empty string nor null: every element is truthy. The guard of every insertion leaves
  the set as it is for a field that is absent, null or the empty string.
\<close>

theorem trackedEvents_never_empty_string:
  assumes "get_posthog_insight stringify toString fetch env insightId w = (Inr r, [req], w')"
      and "read_json (fst (fetch req w)) = Inr data"
  shows "JStr [] \<notin> set (idr_trackedEvents r)
       \<and> JNull \<notin> set (idr_trackedEvents r)
       \<and> (\<forall>v\<in>set (idr_trackedEvents r). truthy (Some v))
       \<and> (x = None \<or> x = Some JNull \<or> x = Some (JStr []) \<longrightarrow> add_if_truthy events x = events)"
proof -
  from get_posthog_insight_tracked [OF assms]
  have "set (idr_trackedEvents r) = set (discovered (ir_query data) (ir_filters data))"
    by (simp add: set_first_seen_eq)
  then have all: "\<forall>v\<in>set (idr_trackedEvents r). truthy (Some v)"
    by (auto dest: discovered_truthy)
  then have "JStr [] \<notin> set (idr_trackedEvents r)" "JNull \<notin> set (idr_trackedEvents r)"
    by auto
  moreover have "x = None \<or> x = Some JNull \<or> x = Some (JStr []) \<longrightarrow> add_if_truthy events x = events"
    by (auto simp: add_if_truthy_def)
  ultimately show ?thesis using all by blast
qed

theorem trackedEvents_never_empty_string_witness:
  "\<exists>r req. get_posthog_insight (\<lambda>v. []) (\<lambda>n. ''9'') scripted example_env 9
               [respond 200 [] (example_detail (Some example_falsy) (Some example_filters))]
             = (Inr r, [req], [])
         \<and> idr_trackedEvents r = [JStr ''a'', JStr ''$pageview'', JStr ''All events'', JStr ''signup'', JStr ''Paid'']
         \<and> JStr [] \<notin> set (idr_trackedEvents r)"
proof -
  have "extractTrackedEvents (Some example_falsy) (Some example_filters)
          = Inr [JStr ''a'', JStr ''$pageview'', JStr ''All events'', JStr ''signup'', JStr ''Paid'']"
    by code_simp
  then obtain r where
    r: "get_posthog_insight (\<lambda>v. []) (\<lambda>n. ''9'') scripted example_env 9
               [respond 200 [] (example_detail (Some example_falsy) (Some example_filters))]
             = (Inr r, [insight_request (\<lambda>n. ''9'') ''us.posthog.com'' ''42'' ''phx_key'' 9], [])"
      "read_json (fst (scripted (insight_request (\<lambda>n. ''9'') ''us.posthog.com'' ''42'' ''phx_key'' 9)
                                [respond 200 [] (example_detail (Some example_falsy) (Some example_filters))]))
               = Inr (example_detail (Some example_falsy) (Some example_filters))"
    and t: "idr_trackedEvents r = [JStr ''a'', JStr ''$pageview'', JStr ''All events'', JStr ''signup'', JStr ''Paid'']"
    by (auto simp: get_posthog_insight_def get_posthog_insight_try_def example_env_def scripted_def
      respond_def read_json_def ok_def insight_detail_def example_detail_def)
  from trackedEvents_never_empty_string [OF r]
  have "JStr [] \<notin> set (idr_trackedEvents r)" by blast
  with r(1) t show ?thesis by blast
qed

section \<open>Absent optional fields\<close>

lemma nullish_defaults:
  "nullish a \<Longrightarrow> or_else a b = b" "nullish a \<Longrightarrow> coalesce a c = c"
  "nullish a \<Longrightarrow> chain a f = Undefined"
  by (cases a; simp)+

lemma coalesce_defined: "c \<noteq> Undefined \<Longrightarrow> coalesce a c \<noteq> Undefined"
  by (cases a) simp_all

lemma map_throw_Inr: "map_throw f xs = Inr ys \<Longrightarrow> map f xs = map Inr ys"
  by (induction xs arbitrary: ys) (auto split: sum.splits)

lemma insight_summary_defined:
  assumes "insight_summary tile = Inr x"
  shows "is_shortId x \<noteq> Undefined \<and> is_name x \<noteq> Undefined \<and> is_description x \<noteq> Undefined"
  using assms
  by (cases "tile_insight tile") (auto simp: insight_summary_def coalesce_defined)

lemma dashboard_summary_insights:
  assumes "dashboard_summary d = Inr s"
  shows "map Inr (ds_insights s)
           = map insight_summary
               (filter (\<lambda>tile. \<not> nullish (tile_insight tile)) (or_else (pd_tiles d) []))"
  using assms
  by (auto simp: dashboard_summary_def dest: map_throw_Inr split: sum.splits)

lemma dashboard_summary_defined:
  assumes "dashboard_summary d = Inr s"
  shows "ds_name s \<noteq> Undefined \<and> ds_description s \<noteq> Undefined \<and> ds_createdAt s \<noteq> Undefined
       \<and> ds_createdBy s \<noteq> Undefined \<and> ds_lastAccessedAt s \<noteq> Undefined
       \<and> (\<forall>x\<in>set (ds_insights s).
            is_shortId x \<noteq> Undefined \<and> is_name x \<noteq> Undefined \<and> is_description x \<noteq> Undefined)"
proof -
  have "is_shortId x \<noteq> Undefined \<and> is_name x \<noteq> Undefined \<and> is_description x \<noteq> Undefined"
    if "x \<in> set (ds_insights s)" for x
  proof -
    from that have "Inr x \<in> set (map Inr (ds_insights s) :: (js_error + InsightSummary) list)"
      by simp
    then obtain tile where "insight_summary tile = Inr x"
      unfolding dashboard_summary_insights [OF assms] by auto
    then show ?thesis by (rule insight_summary_defined)
  qed
  moreover from assms
  have "ds_name s \<noteq> Undefined \<and> ds_description s \<noteq> Undefined \<and> ds_createdAt s \<noteq> Undefined
       \<and> ds_createdBy s \<noteq> Undefined \<and> ds_lastAccessedAt s \<noteq> Undefined"
    by (auto simp: dashboard_summary_def coalesce_defined split: sum.splits)
  ultimately show ?thesis by blast
qed

lemma concat_spec_pages:
  "map Inr (concat (map spec_page ps))
     = map dashboard_summary (concat (map (\<lambda>p. or_else (dl_results p) []) ps))"
proof (induction ps)
  case Nil
  show ?case by simp
next
  case (Cons p ps)
  have "map Inr (spec_page p) = map dashboard_summary (or_else (dl_results p) [])"
    by (cases "dl_results p") (simp_all add: spec_page_def dashboard_summary_total)
  with Cons show ?case by simp
qed

lemma read_json_Inr:
  assumes "read_json (fst (fetch req w)) = Inr p"
  shows "\<exists>response. fetch req w = (Inr response, snd (fetch req w))
           \<and> 200 \<le> status response \<and> status response \<le> 299 \<and> body_json response = Inr p"
  using assms
  by (cases "fetch req w")
     (auto simp: read_json_def ok_def split: sum.splits if_splits)

text \<open>
  What the loop returns is made of the pages that the upstream served, one after the
  other, to its requests: the last of them is the first whose \<open>next\<close> is not a URL.
\<close>

lemma paginate_pages:
  assumes "paginate fetch API_KEY nextUrl acc calls w = Some y"
  shows "(\<not> truthy_url nextUrl \<longrightarrow> y = (Inr acc, calls, w))
       \<and> (\<forall>url out calls' w'. nextUrl = Val url \<and> url \<noteq> [] \<and> y = (Inr out, calls', w') \<longrightarrow>
            (\<exists>init u w1 response final.
               follows fetch API_KEY url w init = Some (u, w1)
             \<and> fetch (page_request API_KEY u) w1 = (Inr response, w')
             \<and> 200 \<le> status response \<and> status response \<le> 299
             \<and> body_json response = Inr final \<and> \<not> truthy_url (dl_next final)
             \<and> out = acc @ concat (map spec_page (init @ [final]))))"
proof (rule paginate.raw_induct
    [where P = "\<lambda>fetch API_KEY nextUrl acc calls w y.
       (\<not> truthy_url nextUrl \<longrightarrow> y = (Inr acc, calls, w))
       \<and> (\<forall>url out calls' w'. nextUrl = Val url \<and> url \<noteq> [] \<and> y = (Inr out, calls', w') \<longrightarrow>
            (\<exists>init u w1 response final.
               follows fetch API_KEY url w init = Some (u, w1)
             \<and> fetch (page_request API_KEY u) w1 = (Inr response, w')
             \<and> 200 \<le> status response \<and> status response \<le> 299
             \<and> body_json response = Inr final \<and> \<not> truthy_url (dl_next final)
             \<and> out = acc @ concat (map spec_page (init @ [final]))))",
     OF _ assms], goal_cases)
  case (1 pg fetch API_KEY nextUrl acc calls w y)
  show ?case
  proof (intro conjI impI allI, goal_cases)
    case 1
    with \<open>_ = Some y\<close> show ?case by simp
  next
    case (2 url out calls' w')
    then have n: "nextUrl = Val url" and u: "url \<noteq> []" and y: "y = (Inr out, calls', w')"
      by simp_all
    let ?req = "page_request API_KEY url"
    show ?case
    proof (cases "read_json (fst (fetch ?req w))")
      case (Inl e)
      with 1(2) n u y show ?thesis by (simp add: Let_def)
    next
      case (Inr p)
      from read_json_Inr [of fetch ?req w p] Inr obtain response where
        f: "fetch ?req w = (Inr response, snd (fetch ?req w))" and
        s: "200 \<le> status response" "status response \<le> 299" and
        j: "body_json response = Inr p"
        by blast
      from 1(2) n u Inr
      have "pg fetch API_KEY (else_null (dl_next p)) (acc @ spec_page p) (calls @ [?req])
              (snd (fetch ?req w)) = Some y"
        by (simp add: Let_def push_all_page coalesce_Null)
      note ih = 1(1) [OF this]
      show ?thesis
      proof (cases "truthy_url (dl_next p)")
        case False
        with ih have "y = (Inr (acc @ spec_page p), calls @ [?req], snd (fetch ?req w))" by simp
        with y have "out = acc @ spec_page p" "w' = snd (fetch ?req w)" by simp_all
        with f s j False show ?thesis
          by (intro exI [of _ "[]"] exI [of _ url] exI [of _ w] exI [of _ response] exI [of _ p]) simp
      next
        case True
        then obtain nxt where nxt: "dl_next p = Val nxt" "nxt \<noteq> []"
          by (cases "dl_next p") simp_all
        with ih y obtain init u' w1 response' final where
          r: "follows fetch API_KEY nxt (snd (fetch ?req w)) init = Some (u', w1)"
             "fetch (page_request API_KEY u') w1 = (Inr response', w')"
             "200 \<le> status response'" "status response' \<le> 299"
             "body_json response' = Inr final" "\<not> truthy_url (dl_next final)"
             "out = (acc @ spec_page p) @ concat (map spec_page (init @ [final]))"
          by auto
        have "follows fetch API_KEY url w (p # init) = Some (u', w1)"
          using f s j nxt r(1) by (cases "fetch ?req w") auto
        with r show ?thesis
          by (intro exI [of _ "p # init"] exI [of _ u'] exI [of _ w1] exI [of _ response']
              exI [of _ final]) simp
      qed
    qed
  qed
qed

lemma list_posthog_dashboards_pages:
  assumes "list_posthog_dashboards fetch env w = Some (Inr r, calls, w')"
  shows "\<exists>init u w1 response final.
           follows fetch (narrowed (env ''POSTHOG_API_KEY''))
             (''https://'' @ or_str (env ''POSTHOG_HOST'') ''us.posthog.com'' @ ''/api/projects/''
                @ narrowed (env ''POSTHOG_PROJECT_ID'') @ ''/dashboards/'')
             w init = Some (u, w1)
         \<and> fetch (page_request (narrowed (env ''POSTHOG_API_KEY'')) u) w1 = (Inr response, w')
         \<and> 200 \<le> status response \<and> status response \<le> 299
         \<and> body_json response = Inr final \<and> \<not> truthy_url (dl_next final)
         \<and> ld_dashboards r = concat (map spec_page (init @ [final]))"
proof -
  let ?key = "narrowed (env ''POSTHOG_API_KEY'')"
  let ?url = "''https://'' @ or_str (env ''POSTHOG_HOST'') ''us.posthog.com'' @ ''/api/projects/''
                @ narrowed (env ''POSTHOG_PROJECT_ID'') @ ''/dashboards/''"
  from assms have p: "paginate fetch ?key (Val ?url) [] [] w = Some (Inr (ld_dashboards r), calls, w')"
    by (auto simp: list_posthog_dashboards_def Let_def split: if_splits option.splits sum.splits)
  have "?url \<noteq> []" by simp
  with paginate_pages [OF p, THEN conjunct2] show ?thesis
    by (auto simp del: append_eq_append_conv)
qed

text \<open>
  C1, as stated, fails: an absent optional field is not always emitted as null. With
  \<open>hasMore\<close> and \<open>is_cached\<close> absent upstream, \<open>run_posthog_sql\<close> returns \<open>hasMore\<close> and
  \<open>isCached\<close> as the boolean false; and with an insight's \<open>name\<close> absent and its
  \<open>derived_name\<close> present, the emitted \<open>name\<close> is the derived name.
\<close>

theorem absent_fields_counterexample:
  "api_hasMore example_timings = Undefined \<and> api_is_cached example_timings = Undefined
   \<and> run_posthog_sql example_stringify scripted example_env ''select 1''
         [respond 200 [] example_timings]
       = (Inr (query_response example_stringify example_timings),
          [query_request example_stringify ''us.posthog.com'' ''42'' ''phx_key'' ''select 1''], [])
   \<and> qr_hasMore (query_response example_stringify example_timings) = False
   \<and> qr_isCached (query_response example_stringify example_timings) = False
   \<and> ti_name example_tile_insight = Undefined
   \<and> insight_summary \<lparr> tile_id = Undefined, tile_insight = Val example_tile_insight \<rparr>
       = Inr \<lparr> is_id = 11, is_shortId = Null, is_name = Val ''Pageviews'', is_description = Null \<rparr>"
  by (simp add: example_timings_def query_response_def run_posthog_sql_def run_posthog_sql_try_def
      example_env_def scripted_def respond_def read_json_def ok_def example_tile_insight_def
      insight_summary_def)

text \<open>
  C1, amended. In what each operation returns, every field that may be null (\<open>limit\<close>,
  \<open>offset\<close>, \<open>executionTime\<close>; a dashboard's \<open>name\<close>, \<open>description\<close>, \<open>createdAt\<close>,
  \<open>createdBy\<close>, \<open>lastAccessedAt\<close> and its insights' \<open>shortId\<close>, \<open>name\<close>, \<open>description\<close>; an
  insight's \<open>shortId\<close>, \<open>name\<close>, \<open>derivedName\<close>, \<open>description\<close>, \<open>lastRefresh\<close>,
  \<open>lastModifiedAt\<close>, \<open>createdAt\<close>, \<open>createdBy\<close>, \<open>query\<close>, \<open>filters\<close>, \<open>hogql\<close> and the
  \<open>name\<close> of each of its dashboards) holds a value or an explicit null: it is never
  \<^verbatim>\<open>undefined\<close>, which is what an omitted key reads as. Such a field is null when its
  upstream source is omitted or null (\<open>name\<close> and \<open>createdBy\<close> when their fallback
  source, \<open>derived_name\<close> and \<open>first_name\<close>, is omitted or null as well; \<open>queryKind\<close>
  when \<open>query\<close> is absent or has no \<open>kind\<close>). A boolean field (\<open>hasMore\<close>, \<open>isCached\<close>,
  \<open>pinned\<close>, \<open>favorited\<close>) whose source is omitted or null is false, and an array field
  (\<open>columns\<close>, \<open>results\<close>, \<open>tags\<close>, \<open>insights\<close>, \<open>dashboards\<close>, and \<open>trackedEvents\<close> when
  \<open>query\<close> and \<open>filters\<close> are both absent) is the empty sequence; none is the empty
  string. The dashboards that \<open>list_posthog_dashboards\<close> returns are, one for one, the
  summaries of the dashboards of the pages that the upstream served to its requests,
  and a summary's insights are those of the dashboard's tiles that carry an insight.
\<close>

theorem absent_fields_defaults:
  "(run_posthog_sql stringify fetch_q env sql wq = (Inr rq, [req_q], wq')
      \<and> read_json (fst (fetch_q req_q wq)) = Inr dq \<longrightarrow>
        qr_limit rq \<noteq> Undefined \<and> qr_offset rq \<noteq> Undefined \<and> qr_executionTime rq \<noteq> Undefined
      \<and> (nullish (api_columns dq) \<longrightarrow> qr_columns rq = [])
      \<and> (nullish (api_results dq) \<longrightarrow> qr_results rq = [])
      \<and> (nullish (api_hasMore dq) \<longrightarrow> qr_hasMore rq = False)
      \<and> (nullish (api_limit dq) \<longrightarrow> qr_limit rq = Null)
      \<and> (nullish (api_offset dq) \<longrightarrow> qr_offset rq = Null)
      \<and> (nullish (api_is_cached dq) \<longrightarrow> qr_isCached rq = False)
      \<and> (nullish (api_timings dq) \<longrightarrow> qr_executionTime rq = Null))
   \<and> (list_posthog_dashboards fetch_l env wl = Some (Inr rl, calls, wl') \<longrightarrow>
        (\<forall>s\<in>set (ld_dashboards rl).
            ds_name s \<noteq> Undefined \<and> ds_description s \<noteq> Undefined
          \<and> ds_createdAt s \<noteq> Undefined \<and> ds_createdBy s \<noteq> Undefined
          \<and> ds_lastAccessedAt s \<noteq> Undefined
          \<and> (\<forall>x\<in>set (ds_insights s).
                is_shortId x \<noteq> Undefined \<and> is_name x \<noteq> Undefined
              \<and> is_description x \<noteq> Undefined))
      \<and> (\<exists>init u w1 response final.
            follows fetch_l (narrowed (env ''POSTHOG_API_KEY''))
              (''https://'' @ or_str (env ''POSTHOG_HOST'') ''us.posthog.com'' @ ''/api/projects/''
                @ narrowed (env ''POSTHOG_PROJECT_ID'') @ ''/dashboards/'')
              wl init = Some (u, w1)
          \<and> fetch_l (page_request (narrowed (env ''POSTHOG_API_KEY'')) u) w1 = (Inr response, wl')
          \<and> body_json response = Inr final
          \<and> map Inr (ld_dashboards rl)
              = map dashboard_summary
                  (concat (map (\<lambda>p. or_else (dl_results p) []) (init @ [final])))))
   \<and> (dashboard_summary d = Inr s \<longrightarrow>
        (nullish (pd_name d) \<longrightarrow> ds_name s = Null)
      \<and> (nullish (pd_description d) \<longrightarrow> ds_description s = Null)
      \<and> (nullish (pd_tags d) \<longrightarrow> ds_tags s = [])
      \<and> (nullish (pd_pinned d) \<longrightarrow> ds_pinned s = False)
      \<and> (nullish (pd_created_at d) \<longrightarrow> ds_createdAt s = Null)
      \<and> (nullish (pd_created_by d) \<longrightarrow> ds_createdBy s = Null)
      \<and> (pd_created_by d = Val c \<and> nullish (cb_email c) \<and> nullish (cb_first_name c)
            \<longrightarrow> ds_createdBy s = Null)
      \<and> (nullish (pd_last_accessed_at d) \<longrightarrow> ds_lastAccessedAt s = Null)
      \<and> (nullish (pd_tiles d) \<longrightarrow> ds_insights s = [] \<and> ds_insightCount s = 0)
      \<and> map Inr (ds_insights s)
          = map insight_summary
              (filter (\<lambda>tile. \<not> nullish (tile_insight tile)) (or_else (pd_tiles d) [])))
   \<and> (insight_summary tile = Inr x \<and> tile_insight tile = Val i \<longrightarrow>
        (nullish (ti_short_id i) \<longrightarrow> is_shortId x = Null)
      \<and> (nullish (ti_name i) \<and> nullish (ti_derived_name i) \<longrightarrow> is_name x = Null)
      \<and> (nullish (ti_description i) \<longrightarrow> is_description x = Null))
   \<and> (get_posthog_insight stringify toString fetch_i env insightId wi = (Inr ri, [req_i], wi')
      \<and> read_json (fst (fetch_i req_i wi)) = Inr di \<longrightarrow>
        idr_shortId ri \<noteq> Undefined \<and> idr_name ri \<noteq> Undefined \<and> idr_derivedName ri \<noteq> Undefined
      \<and> idr_description ri \<noteq> Undefined \<and> idr_lastRefresh ri \<noteq> Undefined
      \<and> idr_lastModifiedAt ri \<noteq> Undefined \<and> idr_createdAt ri \<noteq> Undefined
      \<and> idr_createdBy ri \<noteq> Undefined \<and> idr_query ri \<noteq> Undefined
      \<and> idr_filters ri \<noteq> Undefined \<and> idr_hogql ri \<noteq> Undefined
      \<and> (\<forall>x\<in>set (idr_dashboards ri). dr_name x \<noteq> Undefined)
      \<and> (nullish (ir_short_id di) \<longrightarrow> idr_shortId ri = Null)
      \<and> (nullish (ir_name di) \<and> nullish (ir_derived_name di) \<longrightarrow> idr_name ri = Null)
      \<and> (nullish (ir_derived_name di) \<longrightarrow> idr_derivedName ri = Null)
      \<and> (nullish (ir_description di) \<longrightarrow> idr_description ri = Null)
      \<and> (nullish (ir_tags di) \<longrightarrow> idr_tags ri = [])
      \<and> (nullish (ir_favorited di) \<longrightarrow> idr_favorited ri = False)
      \<and> (nullish (ir_last_refresh di) \<longrightarrow> idr_lastRefresh ri = Null)
      \<and> (nullish (ir_last_modified_at di) \<longrightarrow> idr_lastModifiedAt ri = Null)
      \<and> (nullish (ir_created_at di) \<longrightarrow> idr_createdAt ri = Null)
      \<and> (nullish (ir_created_by di) \<longrightarrow> idr_createdBy ri = Null)
      \<and> (ir_created_by di = Val c' \<and> nullish (cb_email c') \<and> nullish (cb_first_name c')
            \<longrightarrow> idr_createdBy ri = Null)
      \<and> (ir_query di = None \<or> ir_query di = Some JNull
            \<longrightarrow> idr_query ri = Null \<and> idr_queryKind ri = JNull)
      \<and> (ir_query di = Some (JObj kvs) \<and> map_of kvs ''kind'' = None \<longrightarrow> idr_queryKind ri = JNull)
      \<and> (ir_filters di = None \<or> ir_filters di = Some JNull \<longrightarrow> idr_filters ri = Null)
      \<and> (nullish (ir_hogql di) \<longrightarrow> idr_hogql ri = Null)
      \<and> (nullish (ir_dashboards di) \<longrightarrow> idr_dashboards ri = [])
      \<and> ((ir_query di = None \<or> ir_query di = Some JNull)
            \<and> (ir_filters di = None \<or> ir_filters di = Some JNull)
            \<longrightarrow> idr_trackedEvents ri = [])
      \<and> (nullish (do_name obj) \<longrightarrow> dr_name (dashboard_reference (EntryObject obj)) = Null))"
proof -
  have q: "run_posthog_sql stringify fetch_q env sql wq = (Inr rq, [req_q], wq')
      \<and> read_json (fst (fetch_q req_q wq)) = Inr dq \<longrightarrow>
        qr_limit rq \<noteq> Undefined \<and> qr_offset rq \<noteq> Undefined \<and> qr_executionTime rq \<noteq> Undefined
      \<and> (nullish (api_columns dq) \<longrightarrow> qr_columns rq = [])
      \<and> (nullish (api_results dq) \<longrightarrow> qr_results rq = [])
      \<and> (nullish (api_hasMore dq) \<longrightarrow> qr_hasMore rq = False)
      \<and> (nullish (api_limit dq) \<longrightarrow> qr_limit rq = Null)
      \<and> (nullish (api_offset dq) \<longrightarrow> qr_offset rq = Null)
      \<and> (nullish (api_is_cached dq) \<longrightarrow> qr_isCached rq = False)
      \<and> (nullish (api_timings dq) \<longrightarrow> qr_executionTime rq = Null)"
  proof (intro impI, elim conjE)
    assume run: "run_posthog_sql stringify fetch_q env sql wq = (Inr rq, [req_q], wq')"
      and got: "read_json (fst (fetch_q req_q wq)) = Inr dq"
    from run_posthog_sql_returns [OF run] got have "rq = query_response stringify dq" by auto
    then show "qr_limit rq \<noteq> Undefined \<and> qr_offset rq \<noteq> Undefined \<and> qr_executionTime rq \<noteq> Undefined
      \<and> (nullish (api_columns dq) \<longrightarrow> qr_columns rq = [])
      \<and> (nullish (api_results dq) \<longrightarrow> qr_results rq = [])
      \<and> (nullish (api_hasMore dq) \<longrightarrow> qr_hasMore rq = False)
      \<and> (nullish (api_limit dq) \<longrightarrow> qr_limit rq = Null)
      \<and> (nullish (api_offset dq) \<longrightarrow> qr_offset rq = Null)
      \<and> (nullish (api_is_cached dq) \<longrightarrow> qr_isCached rq = False)
      \<and> (nullish (api_timings dq) \<longrightarrow> qr_executionTime rq = Null)"
      by (simp add: query_response_def coalesce_defined nullish_defaults)
  qed
  have l: "list_posthog_dashboards fetch_l env wl = Some (Inr rl, calls, wl') \<longrightarrow>
        (\<forall>s\<in>set (ld_dashboards rl).
            ds_name s \<noteq> Undefined \<and> ds_description s \<noteq> Undefined
          \<and> ds_createdAt s \<noteq> Undefined \<and> ds_createdBy s \<noteq> Undefined
          \<and> ds_lastAccessedAt s \<noteq> Undefined
          \<and> (\<forall>x\<in>set (ds_insights s).
                is_shortId x \<noteq> Undefined \<and> is_name x \<noteq> Undefined
              \<and> is_description x \<noteq> Undefined))
      \<and> (\<exists>init u w1 response final.
            follows fetch_l (narrowed (env ''POSTHOG_API_KEY''))
              (''https://'' @ or_str (env ''POSTHOG_HOST'') ''us.posthog.com'' @ ''/api/projects/''
                @ narrowed (env ''POSTHOG_PROJECT_ID'') @ ''/dashboards/'')
              wl init = Some (u, w1)
          \<and> fetch_l (page_request (narrowed (env ''POSTHOG_API_KEY'')) u) w1 = (Inr response, wl')
          \<and> body_json response = Inr final
          \<and> map Inr (ld_dashboards rl)
              = map dashboard_summary
                  (concat (map (\<lambda>p. or_else (dl_results p) []) (init @ [final]))))"
  proof (intro impI)
    assume run: "list_posthog_dashboards fetch_l env wl = Some (Inr rl, calls, wl')"
    from list_posthog_dashboards_pages [OF run] obtain init u w1 response final where
      pages: "follows fetch_l (narrowed (env ''POSTHOG_API_KEY''))
              (''https://'' @ or_str (env ''POSTHOG_HOST'') ''us.posthog.com'' @ ''/api/projects/''
                @ narrowed (env ''POSTHOG_PROJECT_ID'') @ ''/dashboards/'')
              wl init = Some (u, w1)"
        "fetch_l (page_request (narrowed (env ''POSTHOG_API_KEY'')) u) w1 = (Inr response, wl')"
        "body_json response = Inr final"
      and all: "ld_dashboards rl = concat (map spec_page (init @ [final]))"
      by blast
    from all have m: "map Inr (ld_dashboards rl)
        = map dashboard_summary (concat (map (\<lambda>p. or_else (dl_results p) []) (init @ [final])))"
      by (simp only: concat_spec_pages)
    have "ds_name s \<noteq> Undefined \<and> ds_description s \<noteq> Undefined
          \<and> ds_createdAt s \<noteq> Undefined \<and> ds_createdBy s \<noteq> Undefined
          \<and> ds_lastAccessedAt s \<noteq> Undefined
          \<and> (\<forall>x\<in>set (ds_insights s).
                is_shortId x \<noteq> Undefined \<and> is_name x \<noteq> Undefined
              \<and> is_description x \<noteq> Undefined)"
      if "s \<in> set (ld_dashboards rl)" for s
    proof -
      from that have "Inr s \<in> set (map Inr (ld_dashboards rl) :: (js_error + DashboardSummary) list)"
        by simp
      then obtain dashboard where "dashboard_summary dashboard = Inr s"
        unfolding m by auto
      then show ?thesis by (rule dashboard_summary_defined)
    qed
    with pages m show "(\<forall>s\<in>set (ld_dashboards rl).
            ds_name s \<noteq> Undefined \<and> ds_description s \<noteq> Undefined
          \<and> ds_createdAt s \<noteq> Undefined \<and> ds_createdBy s \<noteq> Undefined
          \<and> ds_lastAccessedAt s \<noteq> Undefined
          \<and> (\<forall>x\<in>set (ds_insights s).
                is_shortId x \<noteq> Undefined \<and> is_name x \<noteq> Undefined
              \<and> is_description x \<noteq> Undefined))
      \<and> (\<exists>init u w1 response final.
            follows fetch_l (narrowed (env ''POSTHOG_API_KEY''))
              (''https://'' @ or_str (env ''POSTHOG_HOST'') ''us.posthog.com'' @ ''/api/projects/''
                @ narrowed (env ''POSTHOG_PROJECT_ID'') @ ''/dashboards/'')
              wl init = Some (u, w1)
          \<and> fetch_l (page_request (narrowed (env ''POSTHOG_API_KEY'')) u) w1 = (Inr response, wl')
          \<and> body_json response = Inr final
          \<and> map Inr (ld_dashboards rl)
              = map dashboard_summary
                  (concat (map (\<lambda>p. or_else (dl_results p) []) (init @ [final]))))"
      by blast
  qed
  have d: "dashboard_summary d = Inr s \<longrightarrow>
        (nullish (pd_name d) \<longrightarrow> ds_name s = Null)
      \<and> (nullish (pd_description d) \<longrightarrow> ds_description s = Null)
      \<and> (nullish (pd_tags d) \<longrightarrow> ds_tags s = [])
      \<and> (nullish (pd_pinned d) \<longrightarrow> ds_pinned s = False)
      \<and> (nullish (pd_created_at d) \<longrightarrow> ds_createdAt s = Null)
      \<and> (nullish (pd_created_by d) \<longrightarrow> ds_createdBy s = Null)
      \<and> (pd_created_by d = Val c \<and> nullish (cb_email c) \<and> nullish (cb_first_name c)
            \<longrightarrow> ds_createdBy s = Null)
      \<and> (nullish (pd_last_accessed_at d) \<longrightarrow> ds_lastAccessedAt s = Null)
      \<and> (nullish (pd_tiles d) \<longrightarrow> ds_insights s = [] \<and> ds_insightCount s = 0)
      \<and> map Inr (ds_insights s)
          = map insight_summary
              (filter (\<lambda>tile. \<not> nullish (tile_insight tile)) (or_else (pd_tiles d) []))"
  proof (intro impI)
    assume s: "dashboard_summary d = Inr s"
    note dashboard_summary_insights [OF s]
    moreover from s have "(nullish (pd_name d) \<longrightarrow> ds_name s = Null)
      \<and> (nullish (pd_description d) \<longrightarrow> ds_description s = Null)
      \<and> (nullish (pd_tags d) \<longrightarrow> ds_tags s = [])
      \<and> (nullish (pd_pinned d) \<longrightarrow> ds_pinned s = False)
      \<and> (nullish (pd_created_at d) \<longrightarrow> ds_createdAt s = Null)
      \<and> (nullish (pd_created_by d) \<longrightarrow> ds_createdBy s = Null)
      \<and> (pd_created_by d = Val c \<and> nullish (cb_email c) \<and> nullish (cb_first_name c)
            \<longrightarrow> ds_createdBy s = Null)
      \<and> (nullish (pd_last_accessed_at d) \<longrightarrow> ds_lastAccessedAt s = Null)
      \<and> (nullish (pd_tiles d) \<longrightarrow> ds_insights s = [] \<and> ds_insightCount s = 0)"
      by (auto simp: dashboard_summary_def nullish_defaults split: sum.splits)
    ultimately show "(nullish (pd_name d) \<longrightarrow> ds_name s = Null)
      \<and> (nullish (pd_description d) \<longrightarrow> ds_description s = Null)
      \<and> (nullish (pd_tags d) \<longrightarrow> ds_tags s = [])
      \<and> (nullish (pd_pinned d) \<longrightarrow> ds_pinned s = False)
      \<and> (nullish (pd_created_at d) \<longrightarrow> ds_createdAt s = Null)
      \<and> (nullish (pd_created_by d) \<longrightarrow> ds_createdBy s = Null)
      \<and> (pd_created_by d = Val c \<and> nullish (cb_email c) \<and> nullish (cb_first_name c)
            \<longrightarrow> ds_createdBy s = Null)
      \<and> (nullish (pd_last_accessed_at d) \<longrightarrow> ds_lastAccessedAt s = Null)
      \<and> (nullish (pd_tiles d) \<longrightarrow> ds_insights s = [] \<and> ds_insightCount s = 0)
      \<and> map Inr (ds_insights s)
          = map insight_summary
              (filter (\<lambda>tile. \<not> nullish (tile_insight tile)) (or_else (pd_tiles d) []))"
      by blast
  qed
  have i: "insight_summary tile = Inr x \<and> tile_insight tile = Val i \<longrightarrow>
        (nullish (ti_short_id i) \<longrightarrow> is_shortId x = Null)
      \<and> (nullish (ti_name i) \<and> nullish (ti_derived_name i) \<longrightarrow> is_name x = Null)
      \<and> (nullish (ti_description i) \<longrightarrow> is_description x = Null)"
    by (auto simp: insight_summary_def nullish_defaults)
  have g: "get_posthog_insight stringify toString fetch_i env insightId wi = (Inr ri, [req_i], wi')
      \<and> read_json (fst (fetch_i req_i wi)) = Inr di \<longrightarrow>
        idr_shortId ri \<noteq> Undefined \<and> idr_name ri \<noteq> Undefined \<and> idr_derivedName ri \<noteq> Undefined
      \<and> idr_description ri \<noteq> Undefined \<and> idr_lastRefresh ri \<noteq> Undefined
      \<and> idr_lastModifiedAt ri \<noteq> Undefined \<and> idr_createdAt ri \<noteq> Undefined
      \<and> idr_createdBy ri \<noteq> Undefined \<and> idr_query ri \<noteq> Undefined
      \<and> idr_filters ri \<noteq> Undefined \<and> idr_hogql ri \<noteq> Undefined
      \<and> (\<forall>x\<in>set (idr_dashboards ri). dr_name x \<noteq> Undefined)
      \<and> (nullish (ir_short_id di) \<longrightarrow> idr_shortId ri = Null)
      \<and> (nullish (ir_name di) \<and> nullish (ir_derived_name di) \<longrightarrow> idr_name ri = Null)
      \<and> (nullish (ir_derived_name di) \<longrightarrow> idr_derivedName ri = Null)
      \<and> (nullish (ir_description di) \<longrightarrow> idr_description ri = Null)
      \<and> (nullish (ir_tags di) \<longrightarrow> idr_tags ri = [])
      \<and> (nullish (ir_favorited di) \<longrightarrow> idr_favorited ri = False)
      \<and> (nullish (ir_last_refresh di) \<longrightarrow> idr_lastRefresh ri = Null)
      \<and> (nullish (ir_last_modified_at di) \<longrightarrow> idr_lastModifiedAt ri = Null)
      \<and> (nullish (ir_created_at di) \<longrightarrow> idr_createdAt ri = Null)
      \<and> (nullish (ir_created_by di) \<longrightarrow> idr_createdBy ri = Null)
      \<and> (ir_created_by di = Val c' \<and> nullish (cb_email c') \<and> nullish (cb_first_name c')
            \<longrightarrow> idr_createdBy ri = Null)
      \<and> (ir_query di = None \<or> ir_query di = Some JNull
            \<longrightarrow> idr_query ri = Null \<and> idr_queryKind ri = JNull)
      \<and> (ir_query di = Some (JObj kvs) \<and> map_of kvs ''kind'' = None \<longrightarrow> idr_queryKind ri = JNull)
      \<and> (ir_filters di = None \<or> ir_filters di = Some JNull \<longrightarrow> idr_filters ri = Null)
      \<and> (nullish (ir_hogql di) \<longrightarrow> idr_hogql ri = Null)
      \<and> (nullish (ir_dashboards di) \<longrightarrow> idr_dashboards ri = [])
      \<and> ((ir_query di = None \<or> ir_query di = Some JNull)
            \<and> (ir_filters di = None \<or> ir_filters di = Some JNull)
            \<longrightarrow> idr_trackedEvents ri = [])
      \<and> (nullish (do_name obj) \<longrightarrow> dr_name (dashboard_reference (EntryObject obj)) = Null)"
  proof (intro impI, elim conjE)
    assume run: "get_posthog_insight stringify toString fetch_i env insightId wi = (Inr ri, [req_i], wi')"
      and got: "read_json (fst (fetch_i req_i wi)) = Inr di"
    from get_posthog_insight_returns [OF run] got have r: "insight_detail stringify di = Inr ri"
      by auto
    have none: "extractTrackedEvents query filters = Inr []"
      if "query = None \<or> query = Some JNull" "filters = None \<or> filters = Some JNull"
      for query filters
      using that by (auto simp: extractTrackedEvents_def scan_query_def scan_filters_def)
    have name: "dr_name (dashboard_reference e) \<noteq> Undefined" for e
      by (cases e) (simp_all add: dashboard_reference_def coalesce_defined)
    have str: "stringify_if_truthy stringify v \<noteq> Undefined" for v
      by (simp add: stringify_if_truthy_def split: option.splits)
    from r have present: "idr_shortId ri \<noteq> Undefined \<and> idr_name ri \<noteq> Undefined \<and> idr_derivedName ri \<noteq> Undefined
      \<and> idr_description ri \<noteq> Undefined \<and> idr_lastRefresh ri \<noteq> Undefined
      \<and> idr_lastModifiedAt ri \<noteq> Undefined \<and> idr_createdAt ri \<noteq> Undefined
      \<and> idr_createdBy ri \<noteq> Undefined \<and> idr_query ri \<noteq> Undefined
      \<and> idr_filters ri \<noteq> Undefined \<and> idr_hogql ri \<noteq> Undefined
      \<and> (\<forall>x\<in>set (idr_dashboards ri). dr_name x \<noteq> Undefined)"
      by (auto simp: insight_detail_def name str coalesce_defined split: sum.splits)
    from r have defaults: "(nullish (ir_short_id di) \<longrightarrow> idr_shortId ri = Null)
      \<and> (nullish (ir_name di) \<and> nullish (ir_derived_name di) \<longrightarrow> idr_name ri = Null)
      \<and> (nullish (ir_derived_name di) \<longrightarrow> idr_derivedName ri = Null)
      \<and> (nullish (ir_description di) \<longrightarrow> idr_description ri = Null)
      \<and> (nullish (ir_tags di) \<longrightarrow> idr_tags ri = [])
      \<and> (nullish (ir_favorited di) \<longrightarrow> idr_favorited ri = False)
      \<and> (nullish (ir_last_refresh di) \<longrightarrow> idr_lastRefresh ri = Null)
      \<and> (nullish (ir_last_modified_at di) \<longrightarrow> idr_lastModifiedAt ri = Null)
      \<and> (nullish (ir_created_at di) \<longrightarrow> idr_createdAt ri = Null)
      \<and> (nullish (ir_created_by di) \<longrightarrow> idr_createdBy ri = Null)
      \<and> (ir_created_by di = Val c' \<and> nullish (cb_email c') \<and> nullish (cb_first_name c')
            \<longrightarrow> idr_createdBy ri = Null)
      \<and> (ir_query di = None \<or> ir_query di = Some JNull
            \<longrightarrow> idr_query ri = Null \<and> idr_queryKind ri = JNull)
      \<and> (ir_query di = Some (JObj kvs) \<and> map_of kvs ''kind'' = None \<longrightarrow> idr_queryKind ri = JNull)
      \<and> (ir_filters di = None \<or> ir_filters di = Some JNull \<longrightarrow> idr_filters ri = Null)
      \<and> (nullish (ir_hogql di) \<longrightarrow> idr_hogql ri = Null)
      \<and> (nullish (ir_dashboards di) \<longrightarrow> idr_dashboards ri = [])
      \<and> ((ir_query di = None \<or> ir_query di = Some JNull)
            \<and> (ir_filters di = None \<or> ir_filters di = Some JNull)
            \<longrightarrow> idr_trackedEvents ri = [])
      \<and> (nullish (do_name obj) \<longrightarrow> dr_name (dashboard_reference (EntryObject obj)) = Null)"
      by (auto simp: insight_detail_def stringify_if_truthy_def extractQueryKind_def none
          nullish_defaults dashboard_reference_def split: sum.splits)
    from present defaults show "idr_shortId ri \<noteq> Undefined \<and> idr_name ri \<noteq> Undefined \<and> idr_derivedName ri \<noteq> Undefined
      \<and> idr_description ri \<noteq> Undefined \<and> idr_lastRefresh ri \<noteq> Undefined
      \<and> idr_lastModifiedAt ri \<noteq> Undefined \<and> idr_createdAt ri \<noteq> Undefined
      \<and> idr_createdBy ri \<noteq> Undefined \<and> idr_query ri \<noteq> Undefined
      \<and> idr_filters ri \<noteq> Undefined \<and> idr_hogql ri \<noteq> Undefined
      \<and> (\<forall>x\<in>set (idr_dashboards ri). dr_name x \<noteq> Undefined)
      \<and> (nullish (ir_short_id di) \<longrightarrow> idr_shortId ri = Null)
      \<and> (nullish (ir_name di) \<and> nullish (ir_derived_name di) \<longrightarrow> idr_name ri = Null)
      \<and> (nullish (ir_derived_name di) \<longrightarrow> idr_derivedName ri = Null)
      \<and> (nullish (ir_description di) \<longrightarrow> idr_description ri = Null)
      \<and> (nullish (ir_tags di) \<longrightarrow> idr_tags ri = [])
      \<and> (nullish (ir_favorited di) \<longrightarrow> idr_favorited ri = False)
      \<and> (nullish (ir_last_refresh di) \<longrightarrow> idr_lastRefresh ri = Null)
      \<and> (nullish (ir_last_modified_at di) \<longrightarrow> idr_lastModifiedAt ri = Null)
      \<and> (nullish (ir_created_at di) \<longrightarrow> idr_createdAt ri = Null)
      \<and> (nullish (ir_created_by di) \<longrightarrow> idr_createdBy ri = Null)
      \<and> (ir_created_by di = Val c' \<and> nullish (cb_email c') \<and> nullish (cb_first_name c')
            \<longrightarrow> idr_createdBy ri = Null)
      \<and> (ir_query di = None \<or> ir_query di = Some JNull
            \<longrightarrow> idr_query ri = Null \<and> idr_queryKind ri = JNull)
      \<and> (ir_query di = Some (JObj kvs) \<and> map_of kvs ''kind'' = None \<longrightarrow> idr_queryKind ri = JNull)
      \<and> (ir_filters di = None \<or> ir_filters di = Some JNull \<longrightarrow> idr_filters ri = Null)
      \<and> (nullish (ir_hogql di) \<longrightarrow> idr_hogql ri = Null)
      \<and> (nullish (ir_dashboards di) \<longrightarrow> idr_dashboards ri = [])
      \<and> ((ir_query di = None \<or> ir_query di = Some JNull)
            \<and> (ir_filters di = None \<or> ir_filters di = Some JNull)
            \<longrightarrow> idr_trackedEvents ri = [])
      \<and> (nullish (do_name obj) \<longrightarrow> dr_name (dashboard_reference (EntryObject obj)) = Null)"
      by simp
  qed
  from q l d i g show ?thesis by (intro conjI)
qed

theorem absent_fields_defaults_witness:
  "(\<exists>r req. run_posthog_sql example_stringify scripted example_env ''select 1''
                [respond 200 [] example_bare_query] = (Inr r, [req], [])
       \<and> qr_columns r = [] \<and> qr_results r = [] \<and> qr_hasMore r = False \<and> qr_limit r = Null
       \<and> qr_offset r = Null \<and> qr_isCached r = False \<and> qr_executionTime r = Null)
   \<and> (\<exists>r calls. list_posthog_dashboards scripted example_env
                [respond 200 [] example_page1, respond 200 [] example_page2]
              = Some (Inr r, calls, [])
       \<and> list_all (\<lambda>s. ds_name s \<noteq> Undefined \<and> ds_description s \<noteq> Undefined
                        \<and> ds_createdAt s \<noteq> Undefined \<and> ds_createdBy s \<noteq> Undefined
                        \<and> ds_lastAccessedAt s \<noteq> Undefined)
             (ld_dashboards r))
   \<and> (\<exists>s. dashboard_summary example_null_dashboard = Inr s
       \<and> ds_name s = Null \<and> ds_description s = Null \<and> ds_tags s = [] \<and> ds_pinned s = False
       \<and> ds_createdAt s = Null \<and> ds_createdBy s = Null \<and> ds_lastAccessedAt s = Null
       \<and> ds_insights s = [] \<and> ds_insightCount s = 0)
   \<and> (\<exists>x. insight_summary \<lparr> tile_id = Undefined, tile_insight = Val example_null_insight \<rparr> = Inr x
       \<and> is_shortId x = Null \<and> is_name x = Null \<and> is_description x = Null)
   \<and> (\<exists>r req. get_posthog_insight example_stringify example_toString scripted example_env 9
                [respond 200 [] (example_detail (Some JNull) None)] = (Inr r, [req], [])
       \<and> idr_shortId r = Null \<and> idr_name r = Null \<and> idr_derivedName r = Null
       \<and> idr_description r = Null \<and> idr_tags r = [] \<and> idr_favorited r = False
       \<and> idr_lastRefresh r = Null \<and> idr_lastModifiedAt r = Null \<and> idr_createdAt r = Null
       \<and> idr_createdBy r = Null \<and> idr_query r = Null \<and> idr_queryKind r = JNull
       \<and> idr_filters r = Null \<and> idr_hogql r = Null \<and> idr_dashboards r = []
       \<and> idr_trackedEvents r = [])"
proof (intro conjI)
  let ?req = "query_request example_stringify ''us.posthog.com'' ''42'' ''phx_key'' ''select 1''"
  let ?r = "query_response example_stringify example_bare_query"
  have run: "run_posthog_sql example_stringify scripted example_env ''select 1''
               [respond 200 [] example_bare_query] = (Inr ?r, [?req], [])
           \<and> read_json (fst (scripted ?req [respond 200 [] example_bare_query])) = Inr example_bare_query"
    by (simp add: run_posthog_sql_def run_posthog_sql_try_def example_env_def scripted_def
        respond_def read_json_def ok_def)
  from absent_fields_defaults [THEN conjunct1, THEN mp, OF run]
  have "qr_columns ?r = [] \<and> qr_results ?r = [] \<and> qr_hasMore ?r = False \<and> qr_limit ?r = Null
       \<and> qr_offset ?r = Null \<and> qr_isCached ?r = False \<and> qr_executionTime ?r = Null"
    by (simp add: example_bare_query_def)
  with run show "\<exists>r req. run_posthog_sql example_stringify scripted example_env ''select 1''
                [respond 200 [] example_bare_query] = (Inr r, [req], [])
       \<and> qr_columns r = [] \<and> qr_results r = [] \<and> qr_hasMore r = False \<and> qr_limit r = Null
       \<and> qr_offset r = Null \<and> qr_isCached r = False \<and> qr_executionTime r = Null"
    by blast
next
  let ?r = "\<lparr> ld_dashboards = spec_page example_page1 @ spec_page example_page2, ld_totalCount = 3 \<rparr>"
  from absent_fields_defaults [where fetch_l = scripted and env = example_env
      and wl = "[respond 200 [] example_page1, respond 200 [] example_page2]" and rl = ?r,
      THEN conjunct2, THEN conjunct1, THEN mp, OF example_listing]
  have "\<forall>s\<in>set (ld_dashboards ?r).
            ds_name s \<noteq> Undefined \<and> ds_description s \<noteq> Undefined
          \<and> ds_createdAt s \<noteq> Undefined \<and> ds_createdBy s \<noteq> Undefined
          \<and> ds_lastAccessedAt s \<noteq> Undefined"
    by blast
  then have "list_all (\<lambda>s. ds_name s \<noteq> Undefined \<and> ds_description s \<noteq> Undefined
                        \<and> ds_createdAt s \<noteq> Undefined \<and> ds_createdBy s \<noteq> Undefined
                        \<and> ds_lastAccessedAt s \<noteq> Undefined)
             (ld_dashboards ?r)"
    by (simp add: list_all_iff)
  with example_listing show "\<exists>r calls. list_posthog_dashboards scripted example_env
                [respond 200 [] example_page1, respond 200 [] example_page2]
              = Some (Inr r, calls, [])
       \<and> list_all (\<lambda>s. ds_name s \<noteq> Undefined \<and> ds_description s \<noteq> Undefined
                        \<and> ds_createdAt s \<noteq> Undefined \<and> ds_createdBy s \<noteq> Undefined
                        \<and> ds_lastAccessedAt s \<noteq> Undefined)
             (ld_dashboards r)"
    by blast
next
  let ?d = "example_null_dashboard"
  have s: "dashboard_summary ?d = Inr (spec_summary ?d)" by (rule dashboard_summary_total)
  from absent_fields_defaults [where d = ?d and s = "spec_summary ?d"
      and c = "\<lparr> cb_id = Val 1, cb_email = Null, cb_first_name = Undefined \<rparr>",
      THEN conjunct2, THEN conjunct2, THEN conjunct1, THEN mp, OF s]
  have "ds_name (spec_summary ?d) = Null \<and> ds_description (spec_summary ?d) = Null \<and> ds_tags (spec_summary ?d) = [] \<and> ds_pinned (spec_summary ?d) = False
       \<and> ds_createdAt (spec_summary ?d) = Null \<and> ds_createdBy (spec_summary ?d) = Null \<and> ds_lastAccessedAt (spec_summary ?d) = Null
       \<and> ds_insights (spec_summary ?d) = [] \<and> ds_insightCount (spec_summary ?d) = 0"
    by (simp add: example_null_dashboard_def)
  with s show "\<exists>s. dashboard_summary example_null_dashboard = Inr s
       \<and> ds_name s = Null \<and> ds_description s = Null \<and> ds_tags s = [] \<and> ds_pinned s = False
       \<and> ds_createdAt s = Null \<and> ds_createdBy s = Null \<and> ds_lastAccessedAt s = Null
       \<and> ds_insights s = [] \<and> ds_insightCount s = 0"
    by blast
next
  let ?tile = "\<lparr> tile_id = Undefined, tile_insight = Val example_null_insight \<rparr>"
  obtain x where x: "insight_summary ?tile = Inr x \<and> tile_insight ?tile = Val example_null_insight"
    by (simp add: insight_summary_def)
  from absent_fields_defaults [THEN conjunct2, THEN conjunct2, THEN conjunct2, THEN conjunct1,
      THEN mp, OF x]
  have "is_shortId x = Null \<and> is_name x = Null \<and> is_description x = Null"
    by (simp add: example_null_insight_def)
  with x show "\<exists>x. insight_summary \<lparr> tile_id = Undefined, tile_insight = Val example_null_insight \<rparr> = Inr x
       \<and> is_shortId x = Null \<and> is_name x = Null \<and> is_description x = Null"
    by blast
next
  let ?req = "insight_request example_toString ''us.posthog.com'' ''42'' ''phx_key'' 9"
  have "extractTrackedEvents (Some JNull) None = Inr []"
    by (simp add: extractTrackedEvents_def scan_query_def scan_filters_def)
  then obtain r where r: "insight_detail example_stringify (example_detail (Some JNull) None) = Inr r"
    by (simp add: insight_detail_def example_detail_def)
  then have run: "get_posthog_insight example_stringify example_toString scripted example_env 9
                [respond 200 [] (example_detail (Some JNull) None)] = (Inr r, [?req], [])
           \<and> read_json (fst (scripted ?req [respond 200 [] (example_detail (Some JNull) None)]))
              = Inr (example_detail (Some JNull) None)"
    by (simp add: get_posthog_insight_def get_posthog_insight_try_def example_env_def scripted_def
        respond_def read_json_def ok_def example_detail_def)
  from absent_fields_defaults [THEN conjunct2, THEN conjunct2, THEN conjunct2, THEN conjunct2,
      THEN mp, OF run]
  have "idr_shortId r = Null \<and> idr_name r = Null \<and> idr_derivedName r = Null
       \<and> idr_description r = Null \<and> idr_tags r = [] \<and> idr_favorited r = False
       \<and> idr_lastRefresh r = Null \<and> idr_lastModifiedAt r = Null \<and> idr_createdAt r = Null
       \<and> idr_createdBy r = Null \<and> idr_query r = Null \<and> idr_queryKind r = JNull
       \<and> idr_filters r = Null \<and> idr_hogql r = Null \<and> idr_dashboards r = []
       \<and> idr_trackedEvents r = []"
    by (simp add: example_detail_def)
  with run show "\<exists>r req. get_posthog_insight example_stringify example_toString scripted example_env 9
                [respond 200 [] (example_detail (Some JNull) None)] = (Inr r, [req], [])
       \<and> idr_shortId r = Null \<and> idr_name r = Null \<and> idr_derivedName r = Null
       \<and> idr_description r = Null \<and> idr_tags r = [] \<and> idr_favorited r = False
       \<and> idr_lastRefresh r = Null \<and> idr_lastModifiedAt r = Null \<and> idr_createdAt r = Null
       \<and> idr_createdBy r = Null \<and> idr_query r = Null \<and> idr_queryKind r = JNull
       \<and> idr_filters r = Null \<and> idr_hogql r = Null \<and> idr_dashboards r = []
       \<and> idr_trackedEvents r = []"
    by blast
qed

end
